theory Spec2Isabelle
  imports Main "HOL-Library.AList" "HOL-Library.Multiset" "HOL-Library.Sublist"
begin

section \<open>Python values and the object store\<close>

text \<open>
  The manifest handled by the governance stage is a loosely typed nested mapping
  (a Python \<^verbatim>\<open>dict\<close> as it comes out of a JSON document). Scalars are values;
  every \<^verbatim>\<open>dict\<close> and \<^verbatim>\<open>list\<close> is an object of the store and is
  held by reference, so that two dictionaries can share a nested container. The store
  is a list of objects, an address is an index into it, and a new object is appended.
  Numbers are represented by \<open>VInt\<close>: the code only ever tests them for truth.
\<close>

type_synonym addr = nat

datatype pyval = VNone | VBool bool | VInt int | VStr string | VRef addr

type_synonym dict = "(string \<times> pyval) list"

datatype pyobj = ODict dict | OList "pyval list"

type_synonym heap = "pyobj list"

datatype pyerror = AttributeError | TypeError | KeyError | ValueError

definition deref :: "heap \<Rightarrow> addr \<Rightarrow> pyobj option" where
  "deref h a = (if a < length h then Some (h ! a) else None)"

text \<open>Truth value testing, as \<^verbatim>\<open>not x\<close> and \<^verbatim>\<open>if x\<close> do it.\<close>

definition truthy :: "heap \<Rightarrow> pyval \<Rightarrow> bool" where
  "truthy h v =
     (case v of
        VNone \<Rightarrow> False
      | VBool b \<Rightarrow> b
      | VInt i \<Rightarrow> i \<noteq> 0
      | VStr s \<Rightarrow> s \<noteq> []
      | VRef a \<Rightarrow>
          (case deref h a of
             Some (ODict d) \<Rightarrow> d \<noteq> []
           | Some (OList xs) \<Rightarrow> xs \<noteq> []
           | None \<Rightarrow> True))"

text \<open>\<^verbatim>\<open>d.get(k, default)\<close> on a dictionary that is known to be one.\<close>

definition dict_get :: "dict \<Rightarrow> string \<Rightarrow> pyval \<Rightarrow> pyval" where
  "dict_get d k dflt = (case map_of d k of None \<Rightarrow> dflt | Some v \<Rightarrow> v)"

text \<open>
  The checks read sub-objects with \<^verbatim>\<open>manifest.get("networking", {})\<close> and
  \<^verbatim>\<open>manifest.get("services", [])\<close>. The result is either the stored value or a
  fresh empty container that nothing else refers to; it is modelled as a
  \<open>pyval option\<close>, \<open>None\<close> being the fresh empty container.

  \<open>py_get\<close> is \<^verbatim>\<open>obj.get(k, default)\<close> on such a value: only a dictionary has
  the method. \<open>py_iter\<close> lists what \<^verbatim>\<open>for x in obj\<close> visits: the elements of a
  list, the keys of a dictionary, the characters of a string. \<open>py_contains_str\<close> is
  \<^verbatim>\<open>s in obj\<close> for a string \<open>s\<close>.
\<close>

definition py_get :: "heap \<Rightarrow> pyval option \<Rightarrow> string \<Rightarrow> pyval \<Rightarrow> pyerror + pyval" where
  "py_get h obj k dflt =
     (case obj of
        None \<Rightarrow> Inr dflt
      | Some (VRef a) \<Rightarrow>
          (case deref h a of
             Some (ODict d) \<Rightarrow> Inr (dict_get d k dflt)
           | _ \<Rightarrow> Inl AttributeError)
      | Some _ \<Rightarrow> Inl AttributeError)"

definition py_iter :: "heap \<Rightarrow> pyval option \<Rightarrow> pyerror + pyval list" where
  "py_iter h obj =
     (case obj of
        None \<Rightarrow> Inr []
      | Some (VRef a) \<Rightarrow>
          (case deref h a of
             Some (OList xs) \<Rightarrow> Inr xs
           | Some (ODict d) \<Rightarrow> Inr (map (\<lambda>kv. VStr (fst kv)) d)
           | None \<Rightarrow> Inl TypeError)
      | Some (VStr s) \<Rightarrow> Inr (map (\<lambda>c. VStr [c]) s)
      | Some _ \<Rightarrow> Inl TypeError)"

definition py_contains_str :: "heap \<Rightarrow> pyval option \<Rightarrow> string \<Rightarrow> pyerror + bool" where
  "py_contains_str h obj s =
     (case obj of
        None \<Rightarrow> Inr False
      | Some (VRef a) \<Rightarrow>
          (case deref h a of
             Some (OList xs) \<Rightarrow> Inr (VStr s \<in> set xs)
           | Some (ODict d) \<Rightarrow> Inr (s \<in> fst ` set d)
           | None \<Rightarrow> Inl TypeError)
      | Some (VStr t) \<Rightarrow> Inr (sublist s t)
      | Some _ \<Rightarrow> Inl TypeError)"

text \<open>
  \<^verbatim>\<open>obj[k] = v\<close>: only a dictionary accepts a string key. The dictionary object
  is updated in place, so every holder of the reference sees the new entry.
\<close>

definition py_setitem :: "heap \<Rightarrow> pyval \<Rightarrow> string \<Rightarrow> pyval \<Rightarrow> pyerror + heap" where
  "py_setitem h obj k v =
     (case obj of
        VRef a \<Rightarrow>
          (case deref h a of
             Some (ODict d) \<Rightarrow> Inr (h[a := ODict (AList.update k v d)])
           | _ \<Rightarrow> Inl TypeError)
      | _ \<Rightarrow> Inl TypeError)"

text \<open>
  The manifest a check or a correction receives is the dictionary built by the
  governance stage itself (\<^verbatim>\<open>{**manifest_data, ...}\<close> and its
  \<^verbatim>\<open>.copy()\<close>): a fresh object that only the local variable refers to. It is
  passed as a value of type \<open>dict\<close>; the containers nested in it are references
  into the store, shared with whatever dictionary it was copied from.

  \<open>setdefault_dict\<close> is \<^verbatim>\<open>manifest.setdefault(k, {})\<close>, and \<open>sub_setitem\<close>
  is \<^verbatim>\<open>manifest[sub][k] = v\<close>.
\<close>

definition setdefault_dict :: "heap \<Rightarrow> dict \<Rightarrow> string \<Rightarrow> heap \<times> dict" where
  "setdefault_dict h manifest k =
     (case map_of manifest k of
        Some v \<Rightarrow> (h, manifest)
      | None \<Rightarrow> (h @ [ODict []], manifest @ [(k, VRef (length h))]))"

definition sub_setitem :: "heap \<Rightarrow> dict \<Rightarrow> string \<Rightarrow> string \<Rightarrow> pyval \<Rightarrow> pyerror + heap" where
  "sub_setitem h manifest sub k v =
     (case map_of manifest sub of
        None \<Rightarrow> Inl KeyError
      | Some obj \<Rightarrow> py_setitem h obj k v)"

section \<open>policy\_kb.py: the check functions\<close>

definition check_vpc_isolation :: "heap \<Rightarrow> dict \<Rightarrow> pyerror + bool" where
  "check_vpc_isolation h manifest =
     (let sensitivity = dict_get manifest ''detected_sensitivity'' (VStr ''public'');
          networking = map_of manifest ''networking''
      in if sensitivity \<in> {VStr ''PHI'', VStr ''PII''}
         then (case py_get h networking ''vpc_enabled'' (VBool False) of
                 Inl e \<Rightarrow> Inl e
               | Inr v \<Rightarrow> if \<not> truthy h v then Inr False else Inr True)
         else Inr True)"

text \<open>The generator under \<^verbatim>\<open>any(...)\<close>: it stops at the first database.\<close>

fun any_database :: "heap \<Rightarrow> pyval list \<Rightarrow> pyerror + bool" where
  "any_database h [] = Inr False"
| "any_database h (s # rest) =
     (case py_get h (Some s) ''role'' VNone of
        Inl e \<Rightarrow> Inl e
      | Inr role \<Rightarrow> if role = VStr ''database'' then Inr True else any_database h rest)"

definition check_encryption_at_rest :: "heap \<Rightarrow> dict \<Rightarrow> pyerror + bool" where
  "check_encryption_at_rest h manifest =
     (let security = map_of manifest ''security_config'';
          services = map_of manifest ''services''
      in case py_iter h services of
           Inl e \<Rightarrow> Inl e
         | Inr svcs \<Rightarrow>
             (case any_database h svcs of
                Inl e \<Rightarrow> Inl e
              | Inr has_db \<Rightarrow>
                  if has_db
                  then (case py_get h security ''encryption_at_rest'' (VBool False) of
                          Inl e \<Rightarrow> Inl e
                        | Inr v \<Rightarrow> if \<not> truthy h v then Inr False else Inr True)
                  else Inr True))"

definition check_encryption_in_transit :: "heap \<Rightarrow> dict \<Rightarrow> pyerror + bool" where
  "check_encryption_in_transit h manifest =
     (let security = map_of manifest ''security_config''
      in case py_get h security ''encryption_in_transit'' (VBool False) of
           Inl e \<Rightarrow> Inl e
         | Inr v \<Rightarrow> if \<not> truthy h v then Inr False else Inr True)"

definition check_audit_logging_for_phi :: "heap \<Rightarrow> dict \<Rightarrow> pyerror + bool" where
  "check_audit_logging_for_phi h manifest =
     (let sensitivity = dict_get manifest ''detected_sensitivity'' (VStr ''public'');
          security = map_of manifest ''security_config''
      in if sensitivity = VStr ''PHI''
         then (case py_get h security ''audit_logging'' (VBool False) of
                 Inl e \<Rightarrow> Inl e
               | Inr v \<Rightarrow> if \<not> truthy h v then Inr False else Inr True)
         else Inr True)"

definition check_private_endpoints :: "heap \<Rightarrow> dict \<Rightarrow> pyerror + bool" where
  "check_private_endpoints h manifest =
     (let sensitivity = dict_get manifest ''detected_sensitivity'' (VStr ''public'');
          networking = map_of manifest ''networking''
      in if sensitivity \<in> {VStr ''PHI'', VStr ''PCI''}
         then (case py_get h networking ''private_endpoints'' (VBool False) of
                 Inl e \<Rightarrow> Inl e
               | Inr v \<Rightarrow> if \<not> truthy h v then Inr False else Inr True)
         else Inr True)"

definition check_no_public_api_for_sensitive_data :: "heap \<Rightarrow> dict \<Rightarrow> pyerror + bool" where
  "check_no_public_api_for_sensitive_data h manifest =
     (let sensitivity = dict_get manifest ''detected_sensitivity'' (VStr ''public'');
          networking = map_of manifest ''networking''
      in if sensitivity \<in> {VStr ''PHI'', VStr ''PII'', VStr ''PCI''}
         then (case py_get h networking ''vpc_enabled'' (VBool False) of
                 Inl e \<Rightarrow> Inl e
               | Inr v \<Rightarrow>
                   if \<not> truthy h v then Inr False
                   else (case py_get h networking ''subnet_isolation'' (VBool False) of
                           Inl e \<Rightarrow> Inl e
                         | Inr w \<Rightarrow> if \<not> truthy h w then Inr False else Inr True))
         else Inr True)"

definition check_iam_policies_present :: "heap \<Rightarrow> dict \<Rightarrow> pyerror + bool" where
  "check_iam_policies_present h manifest =
     (let sensitivity = dict_get manifest ''detected_sensitivity'' (VStr ''public'');
          security = map_of manifest ''security_config''
      in if sensitivity \<in> {VStr ''PHI'', VStr ''PCI''}
         then (case py_get h security ''iam_policies'' (VBool False) of
                 Inl e \<Rightarrow> Inl e
               | Inr v \<Rightarrow> if \<not> truthy h v then Inr False else Inr True)
         else Inr True)"

text \<open>
  The loop of \<^verbatim>\<open>check_region_compliance\<close>: \<open>Inr False\<close> is its
  \<^verbatim>\<open>return False\<close>, \<open>Inr True\<close> is reaching the end of the services.
\<close>

fun region_check_loop :: "heap \<Rightarrow> pyval list \<Rightarrow> pyerror + bool" where
  "region_check_loop h [] = Inr True"
| "region_check_loop h (svc # rest) =
     (case py_get h (Some svc) ''role'' VNone of
        Inl e \<Rightarrow> Inl e
      | Inr role \<Rightarrow>
          if role = VStr ''database''
          then (case py_get h (Some svc) ''region'' (VStr '''') of
                  Inl e \<Rightarrow> Inl e
                | Inr region \<Rightarrow>
                    if region \<in> {VStr ''eu-gb'', VStr ''eu-de'', VStr ''eu-fr''}
                    then region_check_loop h rest
                    else Inr False)
          else region_check_loop h rest)"

definition check_region_compliance :: "heap \<Rightarrow> dict \<Rightarrow> pyerror + bool" where
  "check_region_compliance h manifest =
     (let frameworks = map_of manifest ''applicable_frameworks'';
          services = map_of manifest ''services''
      in case py_contains_str h frameworks ''GDPR'' of
           Inl e \<Rightarrow> Inl e
         | Inr gdpr \<Rightarrow>
             if gdpr
             then (case py_iter h services of
                     Inl e \<Rightarrow> Inl e
                   | Inr svcs \<Rightarrow> region_check_loop h svcs)
             else Inr True)"

section \<open>policy\_kb.py: the auto-correction functions\<close>

text \<open>
  A correction mutates the manifest it is given and returns it. The model returns the
  store and the manifest after the mutation, or the exception that stopped it.
\<close>

definition correct_vpc_isolation :: "heap \<Rightarrow> dict \<Rightarrow> pyerror + heap \<times> dict" where
  "correct_vpc_isolation h manifest =
     (case setdefault_dict h manifest ''networking'' of (h0, m) \<Rightarrow>
        (case sub_setitem h0 m ''networking'' ''vpc_enabled'' (VBool True) of
           Inl e \<Rightarrow> Inl e
         | Inr h1 \<Rightarrow>
             (case sub_setitem h1 m ''networking'' ''subnet_isolation'' (VBool True) of
                Inl e \<Rightarrow> Inl e
              | Inr h2 \<Rightarrow>
                  (case sub_setitem h2 m ''networking'' ''private_endpoints'' (VBool True) of
                     Inl e \<Rightarrow> Inl e
                   | Inr h3 \<Rightarrow> Inr (h3, m)))))"

fun upgrade_plans :: "heap \<Rightarrow> pyval list \<Rightarrow> pyerror + heap" where
  "upgrade_plans h [] = Inr h"
| "upgrade_plans h (svc # rest) =
     (case py_get h (Some svc) ''role'' VNone of
        Inl e \<Rightarrow> Inl e
      | Inr role \<Rightarrow>
          if role = VStr ''database''
          then (case py_setitem h svc ''plan'' (VStr ''dedicated'') of
                  Inl e \<Rightarrow> Inl e
                | Inr h' \<Rightarrow> upgrade_plans h' rest)
          else upgrade_plans h rest)"

definition correct_encryption_at_rest :: "heap \<Rightarrow> dict \<Rightarrow> pyerror + heap \<times> dict" where
  "correct_encryption_at_rest h manifest =
     (case setdefault_dict h manifest ''security_config'' of (h0, m) \<Rightarrow>
        (case sub_setitem h0 m ''security_config'' ''encryption_at_rest'' (VBool True) of
           Inl e \<Rightarrow> Inl e
         | Inr h1 \<Rightarrow>
             if dict_get m ''detected_sensitivity'' VNone = VStr ''PHI''
             then (case py_iter h1 (map_of m ''services'') of
                     Inl e \<Rightarrow> Inl e
                   | Inr svcs \<Rightarrow>
                       (case upgrade_plans h1 svcs of
                          Inl e \<Rightarrow> Inl e
                        | Inr h2 \<Rightarrow> Inr (h2, m)))
             else Inr (h1, m)))"

definition correct_encryption_in_transit :: "heap \<Rightarrow> dict \<Rightarrow> pyerror + heap \<times> dict" where
  "correct_encryption_in_transit h manifest =
     (case setdefault_dict h manifest ''security_config'' of (h0, m) \<Rightarrow>
        (case sub_setitem h0 m ''security_config'' ''encryption_in_transit'' (VBool True) of
           Inl e \<Rightarrow> Inl e
         | Inr h1 \<Rightarrow> Inr (h1, m)))"

definition correct_audit_logging :: "heap \<Rightarrow> dict \<Rightarrow> pyerror + heap \<times> dict" where
  "correct_audit_logging h manifest =
     (case setdefault_dict h manifest ''security_config'' of (h0, m) \<Rightarrow>
        (case sub_setitem h0 m ''security_config'' ''audit_logging'' (VBool True) of
           Inl e \<Rightarrow> Inl e
         | Inr h1 \<Rightarrow> Inr (h1, m)))"

definition correct_private_endpoints :: "heap \<Rightarrow> dict \<Rightarrow> pyerror + heap \<times> dict" where
  "correct_private_endpoints h manifest =
     (case setdefault_dict h manifest ''networking'' of (h0, m) \<Rightarrow>
        (case sub_setitem h0 m ''networking'' ''private_endpoints'' (VBool True) of
           Inl e \<Rightarrow> Inl e
         | Inr h1 \<Rightarrow> Inr (h1, m)))"

definition correct_public_api_exposure :: "heap \<Rightarrow> dict \<Rightarrow> pyerror + heap \<times> dict" where
  "correct_public_api_exposure h manifest =
     (case setdefault_dict h manifest ''networking'' of (h0, m) \<Rightarrow>
        (case sub_setitem h0 m ''networking'' ''vpc_enabled'' (VBool True) of
           Inl e \<Rightarrow> Inl e
         | Inr h1 \<Rightarrow>
             (case sub_setitem h1 m ''networking'' ''subnet_isolation'' (VBool True) of
                Inl e \<Rightarrow> Inl e
              | Inr h2 \<Rightarrow>
                  (case sub_setitem h2 m ''networking'' ''private_endpoints'' (VBool True) of
                     Inl e \<Rightarrow> Inl e
                   | Inr h3 \<Rightarrow> Inr (h3, m)))))"

definition correct_iam_policies :: "heap \<Rightarrow> dict \<Rightarrow> pyerror + heap \<times> dict" where
  "correct_iam_policies h manifest =
     (case setdefault_dict h manifest ''security_config'' of (h0, m) \<Rightarrow>
        (case sub_setitem h0 m ''security_config'' ''iam_policies'' (VBool True) of
           Inl e \<Rightarrow> Inl e
         | Inr h1 \<Rightarrow> Inr (h1, m)))"

fun migrate_regions :: "heap \<Rightarrow> pyval list \<Rightarrow> pyerror + heap" where
  "migrate_regions h [] = Inr h"
| "migrate_regions h (svc # rest) =
     (case py_get h (Some svc) ''role'' VNone of
        Inl e \<Rightarrow> Inl e
      | Inr role \<Rightarrow>
          if role = VStr ''database''
          then (case py_setitem h svc ''region'' (VStr ''eu-gb'') of
                  Inl e \<Rightarrow> Inl e
                | Inr h' \<Rightarrow> migrate_regions h' rest)
          else migrate_regions h rest)"

definition correct_region_gdpr :: "heap \<Rightarrow> dict \<Rightarrow> pyerror + heap \<times> dict" where
  "correct_region_gdpr h manifest =
     (case py_iter h (map_of manifest ''services'') of
        Inl e \<Rightarrow> Inl e
      | Inr svcs \<Rightarrow>
          (case migrate_regions h svcs of
             Inl e \<Rightarrow> Inl e
           | Inr h1 \<Rightarrow> Inr (h1, manifest)))"

section \<open>policy\_kb.py: the policy knowledge base\<close>

record GovernancePolicy =
  policy_id :: string
  policy_name :: string
  framework :: string
  severity :: string
  description :: string
  check_fn :: "heap \<Rightarrow> dict \<Rightarrow> pyerror + bool"
  correction_fn :: "heap \<Rightarrow> dict \<Rightarrow> pyerror + heap \<times> dict"
  correction_description :: string

text \<open>
  The eight entries of \<^verbatim>\<open>POLICY_KNOWLEDGE_BASE\<close>, each under a name of its own,
  in the order of the registry.
\<close>

definition POL_HIPAA_001 :: GovernancePolicy where
  "POL_HIPAA_001 =
     \<lparr>policy_id = ''POL-HIPAA-001'',
      policy_name = ''Database VPC Isolation Required'',
      framework = ''HIPAA'',
      severity = ''critical'',
      description = ''All PHI data stores must be isolated within a Virtual Private Cloud with private endpoints only. Public access is strictly prohibited.'',
      check_fn = check_vpc_isolation,
      correction_fn = correct_vpc_isolation,
      correction_description = ''Enabled VPC isolation and configured private endpoints for all database services.''\<rparr>"

definition POL_HIPAA_002 :: GovernancePolicy where
  "POL_HIPAA_002 =
     \<lparr>policy_id = ''POL-HIPAA-002'',
      policy_name = ''Encryption at Rest Required for PHI'',
      framework = ''HIPAA'',
      severity = ''critical'',
      description = ''All Protected Health Information must be encrypted at rest using AES-256 or equivalent. Database plan must be 'dedicated' tier minimum.'',
      check_fn = check_encryption_at_rest,
      correction_fn = correct_encryption_at_rest,
      correction_description = ''Enabled encryption at rest and upgraded database to dedicated tier for PHI compliance.''\<rparr>"

definition POL_HIPAA_003 :: GovernancePolicy where
  "POL_HIPAA_003 =
     \<lparr>policy_id = ''POL-HIPAA-003'',
      policy_name = ''Audit Logging Required for PHI Access'',
      framework = ''HIPAA'',
      severity = ''critical'',
      description = ''All access to PHI must be logged for audit trail compliance. Logging must be enabled at the infrastructure level.'',
      check_fn = check_audit_logging_for_phi,
      correction_fn = correct_audit_logging,
      correction_description = ''Enabled infrastructure-level audit logging for all PHI access points.''\<rparr>"

definition POL_IBM_001 :: GovernancePolicy where
  "POL_IBM_001 =
     \<lparr>policy_id = ''POL-IBM-001'',
      policy_name = ''Encryption in Transit Required'',
      framework = ''IBM_BASELINE'',
      severity = ''critical'',
      description = ''All data in transit between services must be encrypted using TLS 1.2 or higher. This is a baseline requirement for all IBM Cloud deployments.'',
      check_fn = check_encryption_in_transit,
      correction_fn = correct_encryption_in_transit,
      correction_description = ''Enabled TLS encryption for all service-to-service communication.''\<rparr>"

definition POL_IBM_002 :: GovernancePolicy where
  "POL_IBM_002 =
     \<lparr>policy_id = ''POL-IBM-002'',
      policy_name = ''Private Endpoints for Sensitive Data'',
      framework = ''IBM_BASELINE'',
      severity = ''warning'',
      description = ''Services handling sensitive data (PHI, PCI, PII) should use private endpoints to avoid routing traffic over the public internet.'',
      check_fn = check_private_endpoints,
      correction_fn = correct_private_endpoints,
      correction_description = ''Configured private endpoints for all sensitive data services.''\<rparr>"

definition POL_SEC_001 :: GovernancePolicy where
  "POL_SEC_001 =
     \<lparr>policy_id = ''POL-SEC-001'',
      policy_name = ''No Public API Exposure for Sensitive Data'',
      framework = ''IBM_BASELINE'',
      severity = ''critical'',
      description = ''Services processing PHI, PII, or PCI data must not be publicly accessible. VPC and subnet isolation are mandatory.'',
      check_fn = check_no_public_api_for_sensitive_data,
      correction_fn = correct_public_api_exposure,
      correction_description = ''Enabled VPC isolation and subnet segregation to prevent public API exposure.''\<rparr>"

definition POL_SEC_002 :: GovernancePolicy where
  "POL_SEC_002 =
     \<lparr>policy_id = ''POL-SEC-002'',
      policy_name = ''IAM Policies Required for Enterprise Workloads'',
      framework = ''IBM_BASELINE'',
      severity = ''warning'',
      description = ''Enterprise workloads handling regulated data must have explicit IAM policies defined for role-based access control.'',
      check_fn = check_iam_policies_present,
      correction_fn = correct_iam_policies,
      correction_description = ''Added IAM role-based access control policies for all regulated data services.''\<rparr>"

definition POL_GDPR_001 :: GovernancePolicy where
  "POL_GDPR_001 =
     \<lparr>policy_id = ''POL-GDPR-001'',
      policy_name = ''EU Data Residency for GDPR'',
      framework = ''GDPR'',
      severity = ''critical'',
      description = ''Data subject to GDPR must be stored and processed within EU regions only. Acceptable regions: eu-gb, eu-de, eu-fr.'',
      check_fn = check_region_compliance,
      correction_fn = correct_region_gdpr,
      correction_description = ''Migrated all database services to EU region (eu-gb) for GDPR compliance.''\<rparr>"

definition POLICY_KNOWLEDGE_BASE :: "GovernancePolicy list" where
  "POLICY_KNOWLEDGE_BASE =
     [POL_HIPAA_001, POL_HIPAA_002, POL_HIPAA_003, POL_IBM_001,
      POL_IBM_002, POL_SEC_001, POL_SEC_002, POL_GDPR_001]"

text \<open>
  \<^verbatim>\<open>set(frameworks)\<close> iterates its argument and hashes every element; a list or
  a dictionary is not hashable. The framework of a policy is a string, so it is in the
  set exactly when the set holds that string.
\<close>

definition hashable :: "pyval \<Rightarrow> bool" where
  "hashable v = (case v of VRef a \<Rightarrow> False | _ \<Rightarrow> True)"

definition get_policies_for_frameworks :: "heap \<Rightarrow> pyval \<Rightarrow> pyerror + GovernancePolicy list" where
  "get_policies_for_frameworks h frameworks =
     (case py_iter h (Some frameworks) of
        Inl e \<Rightarrow> Inl e
      | Inr items \<Rightarrow>
          if list_all hashable items
          then (let frameworks_set = insert (VStr ''IBM_BASELINE'') (set items)
                in Inr (filter (\<lambda>policy. VStr (framework policy) \<in> frameworks_set)
                          POLICY_KNOWLEDGE_BASE))
          else Inl TypeError)"

section \<open>governance\_agent.py: the schema classes\<close>

text \<open>
  The file \<^verbatim>\<open>models/schemas.py\<close>, which declares the enumerations and the record
  classes the governance stage builds, is not among the sources.
\<close>

text \<open>
  Modelled from the spec: the enumerations \<^verbatim>\<open>SeverityLevel\<close> (critical, warning,
  info), \<^verbatim>\<open>StageStatus\<close> (passed, corrected, failed) and
  \<^verbatim>\<open>ComplianceFramework\<close> (the four frameworks named at the \<^verbatim>\<open>framework\<close>
  field of \<^verbatim>\<open>GovernancePolicy\<close>).
\<close>

datatype SeverityLevel = CRITICAL | WARNING | INFO

datatype ComplianceFramework = HIPAA | SOC2 | GDPR | IBM_BASELINE

datatype StageStatus = PASSED | CORRECTED | FAILED

text \<open>
  Modelled from the spec: \<^verbatim>\<open>SeverityLevel(s)\<close> and \<^verbatim>\<open>ComplianceFramework(s)\<close>,
  the member whose value is the string \<open>s\<close>; a string that is the value of no member
  raises \<^verbatim>\<open>ValueError\<close>.
\<close>

definition SeverityLevel_of :: "string \<Rightarrow> pyerror + SeverityLevel" where
  "SeverityLevel_of s =
     (if s = ''critical'' then Inr CRITICAL
      else if s = ''warning'' then Inr WARNING
      else if s = ''info'' then Inr INFO
      else Inl ValueError)"

definition ComplianceFramework_of :: "string \<Rightarrow> pyerror + ComplianceFramework" where
  "ComplianceFramework_of s =
     (if s = ''HIPAA'' then Inr HIPAA
      else if s = ''SOC2'' then Inr SOC2
      else if s = ''GDPR'' then Inr GDPR
      else if s = ''IBM_BASELINE'' then Inr IBM_BASELINE
      else Inl ValueError)"

text \<open>
  Modelled from the spec: the record classes \<^verbatim>\<open>PolicyViolation\<close>,
  \<^verbatim>\<open>IBMCloudService\<close>, \<^verbatim>\<open>ArchitectureManifest\<close>, \<^verbatim>\<open>GovernanceReport\<close>
  and \<^verbatim>\<open>StageResult\<close>, with the fields the governance stage fills and the values
  it reads for them. What else the classes validate when an instance is built is not
  modelled. The fields of a violation carry the prefix \<open>v_\<close>, and the status of a
  stage result is \<open>stage_status\<close>, to keep them apart from the fields of a policy and
  of a report.
\<close>

record PolicyViolation =
  v_policy_id :: string
  v_policy_name :: string
  v_severity :: SeverityLevel
  v_framework :: ComplianceFramework
  v_description :: string
  detected_issue :: string
  auto_correction :: "string option"

record IBMCloudService =
  service_name :: pyval
  service_id :: pyval
  role :: pyval
  region :: pyval
  plan :: pyval

record ArchitectureManifest =
  project_name :: pyval
  manifest_description :: pyval
  services :: "IBMCloudService list"
  networking :: "pyval option"
  security_config :: "pyval option"
  estimated_monthly_cost :: pyval
  diagram_ascii :: pyval

record GovernanceReport =
  status :: StageStatus
  violations_found :: "PolicyViolation list"
  violations_corrected :: "PolicyViolation list"
  final_compliance_score :: int
  applicable_frameworks :: "ComplianceFramework list"
  corrected_manifest :: ArchitectureManifest
  model_used :: string
  tokens_used :: int

record StageResult =
  stage_id :: int
  stage_name :: string
  stage_status :: StageStatus
  duration_ms :: int
  result :: "GovernanceReport option"
  error :: "pyerror option"

text \<open>
  What the call takes from its environment: the milliseconds the clock shows as elapsed
  when the result is built, and the constant \<^verbatim>\<open>watsonx.MODEL_INSTRUCT\<close>.
\<close>

record env =
  elapsed_ms :: int
  MODEL_INSTRUCT :: string

section \<open>governance\_agent.py: the audit passes\<close>

definition make_violation :: "GovernancePolicy \<Rightarrow> pyerror + PolicyViolation" where
  "make_violation policy =
     (case SeverityLevel_of (severity policy) of
        Inl e \<Rightarrow> Inl e
      | Inr sev \<Rightarrow>
          (case ComplianceFramework_of (framework policy) of
             Inl e \<Rightarrow> Inl e
           | Inr fw \<Rightarrow>
               Inr \<lparr>v_policy_id = policy_id policy,
                    v_policy_name = policy_name policy,
                    v_severity = sev,
                    v_framework = fw,
                    v_description = description policy,
                    detected_issue = ''Policy '' @ [CHR 0x27] @ policy_name policy @
                      [CHR 0x27] @ '' failed validation on the proposed architecture.'',
                    auto_correction = None\<rparr>))"

text \<open>Audit pass 1: the violations, in the order of the policies.\<close>

fun audit_pass1 :: "GovernancePolicy list \<Rightarrow> heap \<Rightarrow> dict \<Rightarrow> pyerror + PolicyViolation list" where
  "audit_pass1 [] h audit_manifest = Inr []"
| "audit_pass1 (policy # rest) h audit_manifest =
     (case check_fn policy h audit_manifest of
        Inl e \<Rightarrow> Inl e
      | Inr passed \<Rightarrow>
          if \<not> passed
          then (case make_violation policy of
                  Inl e \<Rightarrow> Inl e
                | Inr violation \<Rightarrow>
                    (case audit_pass1 rest h audit_manifest of
                       Inl e \<Rightarrow> Inl e
                     | Inr found \<Rightarrow> Inr (violation # found)))
          else audit_pass1 rest h audit_manifest)"

text \<open>
  The auto-correction pass over the violations found. The matching policy is the first
  one of the list with the violation's id; a violation with no matching policy is passed
  over. The result is the store, the corrected manifest and the corrected violations.
\<close>

fun correction_pass ::
  "GovernancePolicy list \<Rightarrow> PolicyViolation list \<Rightarrow> heap \<Rightarrow> dict \<Rightarrow>
     pyerror + heap \<times> dict \<times> PolicyViolation list" where
  "correction_pass policies [] h corrected = Inr (h, corrected, [])"
| "correction_pass policies (violation # rest) h corrected =
     (case find (\<lambda>p. policy_id p = v_policy_id violation) policies of
        None \<Rightarrow> correction_pass policies rest h corrected
      | Some matching_policy \<Rightarrow>
          (case correction_fn matching_policy h corrected of
             Inl e \<Rightarrow> Inl e
           | Inr (h1, corrected1) \<Rightarrow>
               (case correction_pass policies rest h1 corrected1 of
                  Inl e \<Rightarrow> Inl e
                | Inr (h2, corrected2, done) \<Rightarrow>
                    Inr (h2, corrected2,
                         violation\<lparr>auto_correction :=
                           Some (correction_description matching_policy)\<rparr> # done))))"

text \<open>Audit pass 2: the ids of the policies that still fail.\<close>

fun audit_pass2 :: "GovernancePolicy list \<Rightarrow> heap \<Rightarrow> dict \<Rightarrow> pyerror + string list" where
  "audit_pass2 [] h corrected = Inr []"
| "audit_pass2 (policy # rest) h corrected =
     (case check_fn policy h corrected of
        Inl e \<Rightarrow> Inl e
      | Inr passed \<Rightarrow>
          (case audit_pass2 rest h corrected of
             Inl e \<Rightarrow> Inl e
           | Inr remaining \<Rightarrow>
               Inr (if \<not> passed then policy_id policy # remaining else remaining)))"

section \<open>governance\_agent.py: the corrected manifest, the status and the report\<close>

definition make_service :: "heap \<Rightarrow> pyval \<Rightarrow> pyerror + IBMCloudService" where
  "make_service h svc =
     (case py_get h (Some svc) ''service_name'' (VStr ''Unknown'') of
        Inl e \<Rightarrow> Inl e
      | Inr v1 \<Rightarrow>
     (case py_get h (Some svc) ''service_id'' (VStr ''unknown'') of
        Inl e \<Rightarrow> Inl e
      | Inr v2 \<Rightarrow>
     (case py_get h (Some svc) ''role'' (VStr ''hosting'') of
        Inl e \<Rightarrow> Inl e
      | Inr v3 \<Rightarrow>
     (case py_get h (Some svc) ''region'' (VStr ''us-south'') of
        Inl e \<Rightarrow> Inl e
      | Inr v4 \<Rightarrow>
     (case py_get h (Some svc) ''plan'' (VStr ''standard'') of
        Inl e \<Rightarrow> Inl e
      | Inr v5 \<Rightarrow>
          Inr \<lparr>service_name = v1, service_id = v2, role = v3, region = v4, plan = v5\<rparr>)))))"

fun make_services :: "heap \<Rightarrow> pyval list \<Rightarrow> pyerror + IBMCloudService list" where
  "make_services h [] = Inr []"
| "make_services h (svc # rest) =
     (case make_service h svc of
        Inl e \<Rightarrow> Inl e
      | Inr s \<Rightarrow>
          (case make_services h rest of
             Inl e \<Rightarrow> Inl e
           | Inr ss \<Rightarrow> Inr (s # ss)))"

text \<open>
  \<open>manifest_data\<close> is what \<^verbatim>\<open>architect_result.get("manifest", {})\<close> returned:
  the caller's manifest, or \<open>None\<close> for the fresh empty dictionary.
\<close>

definition build_final_manifest ::
  "heap \<Rightarrow> dict \<Rightarrow> pyval option \<Rightarrow> pyerror + ArchitectureManifest" where
  "build_final_manifest h corrected manifest_data =
     (case py_iter h (map_of corrected ''services'') of
        Inl e \<Rightarrow> Inl e
      | Inr svcs \<Rightarrow>
          (case make_services h svcs of
             Inl e \<Rightarrow> Inl e
           | Inr corrected_services \<Rightarrow>
               (case py_get h manifest_data ''diagram_ascii'' VNone of
                  Inl e \<Rightarrow> Inl e
                | Inr diagram \<Rightarrow>
                    Inr \<lparr>project_name = dict_get corrected ''project_name'' (VStr ''trustbuild-app''),
                         manifest_description = dict_get corrected ''description'' (VStr ''''),
                         services = corrected_services,
                         networking = map_of corrected ''networking'',
                         security_config = map_of corrected ''security_config'',
                         estimated_monthly_cost = dict_get corrected ''estimated_monthly_cost'' VNone,
                         diagram_ascii = diagram\<rparr>)))"

text \<open>
  The final status and score. The score is a float in the source; every value it takes
  is a small whole number, so it is an \<open>int\<close> here.
\<close>

definition critical_count :: "PolicyViolation list \<Rightarrow> int" where
  "critical_count found = int (length (filter (\<lambda>v. v_severity v = CRITICAL) found))"

definition warning_count :: "PolicyViolation list \<Rightarrow> int" where
  "warning_count found = int (length (filter (\<lambda>v. v_severity v = WARNING) found))"

definition final_status :: "PolicyViolation list \<Rightarrow> PolicyViolation list \<Rightarrow> StageStatus \<times> int" where
  "final_status found done =
     (if found = [] then (PASSED, 100)
      else if length done = length found
      then (CORRECTED, max 60 (100 - critical_count found * 8 - warning_count found * 3))
      else (FAILED, 40))"

text \<open>
  The frameworks of the report: the requested ones that name a member of the
  enumeration, in the order of the request.
\<close>

fun recognized_frameworks :: "pyval list \<Rightarrow> ComplianceFramework list" where
  "recognized_frameworks [] = []"
| "recognized_frameworks (VStr f # rest) =
     (case ComplianceFramework_of f of
        Inl e \<Rightarrow> recognized_frameworks rest
      | Inr fw \<Rightarrow> fw # recognized_frameworks rest)"
| "recognized_frameworks (f # rest) = recognized_frameworks rest"

definition py_mapping :: "heap \<Rightarrow> pyval option \<Rightarrow> pyerror + dict" where
  "py_mapping h obj =
     (case obj of
        None \<Rightarrow> Inr []
      | Some (VRef a) \<Rightarrow>
          (case deref h a of
             Some (ODict d) \<Rightarrow> Inr d
           | _ \<Rightarrow> Inl TypeError)
      | Some _ \<Rightarrow> Inl TypeError)"

text \<open>
  The body of the \<^verbatim>\<open>try\<close> block. \<open>architect_result\<close> and \<open>intent_result\<close>
  are the two dictionaries the caller passes; they are only read. The result is the
  store as the call leaves it and the report, or the exception raised. (The store at the
  moment of an exception is not kept.)

  \<open>requested_frameworks\<close> is
  \<^verbatim>\<open>intent_result.get("applicable_frameworks", ["IBM_BASELINE"])\<close>: the default is a
  new list object, which the audit manifest then refers to.
\<close>

definition requested_frameworks :: "heap \<Rightarrow> dict \<Rightarrow> heap \<times> pyval" where
  "requested_frameworks h intent_result =
     (case map_of intent_result ''applicable_frameworks'' of
        Some v \<Rightarrow> (h, v)
      | None \<Rightarrow> (h @ [OList [VStr ''IBM_BASELINE'']], VRef (length h)))"

definition guardrail_body ::
  "env \<Rightarrow> heap \<Rightarrow> dict \<Rightarrow> dict \<Rightarrow> pyerror + heap \<times> GovernanceReport" where
  "guardrail_body ev h architect_result intent_result =
     (let manifest_data = map_of architect_result ''manifest'';
          sensitivity = dict_get intent_result ''detected_sensitivity'' (VStr ''public'');
          (h0, frameworks) = requested_frameworks h intent_result
      in case py_mapping h0 manifest_data of
           Inl e \<Rightarrow> Inl e
         | Inr items \<Rightarrow>
      (let audit_manifest =
             AList.update ''applicable_frameworks'' frameworks
               (AList.update ''detected_sensitivity'' sensitivity items)
       in case get_policies_for_frameworks h0 frameworks of
            Inl e \<Rightarrow> Inl e
          | Inr policies \<Rightarrow>
      (case audit_pass1 policies h0 audit_manifest of
         Inl e \<Rightarrow> Inl e
       | Inr found \<Rightarrow>
      (case correction_pass policies found h0 audit_manifest of
         Inl e \<Rightarrow> Inl e
       | Inr (h1, corrected, done) \<Rightarrow>
      (case (if found \<noteq> [] then audit_pass2 policies h1 corrected else Inr []) of
         Inl e \<Rightarrow> Inl e
       | Inr remaining_violations \<Rightarrow>
      (case build_final_manifest h1 corrected manifest_data of
         Inl e \<Rightarrow> Inl e
       | Inr final_manifest \<Rightarrow>
      (case py_iter h1 (Some frameworks) of
         Inl e \<Rightarrow> Inl e
       | Inr requested \<Rightarrow>
           Inr (h1,
                \<lparr>status = fst (final_status found done),
                 violations_found = found,
                 violations_corrected = done,
                 final_compliance_score = snd (final_status found done),
                 applicable_frameworks = recognized_frameworks requested,
                 corrected_manifest = final_manifest,
                 model_used = MODEL_INSTRUCT ev,
                 tokens_used = int (length policies) * 50\<rparr>))))))))"

text \<open>
  The call itself: whatever the body raises is caught and becomes a failed stage result
  with the exception in its \<open>error\<close> field (the source stores its message) and no
  report.
\<close>

definition run_governance_guardrail :: "env \<Rightarrow> heap \<Rightarrow> dict \<Rightarrow> dict \<Rightarrow> StageResult" where
  "run_governance_guardrail ev h architect_result intent_result =
     (case guardrail_body ev h architect_result intent_result of
        Inr (h1, report) \<Rightarrow>
          \<lparr>stage_id = 3,
           stage_name = ''Governance Guardrail'',
           stage_status = status report,
           duration_ms = elapsed_ms ev,
           result = Some report,
           error = None\<rparr>
      | Inl e \<Rightarrow>
          \<lparr>stage_id = 3,
           stage_name = ''Governance Guardrail'',
           stage_status = FAILED,
           duration_ms = elapsed_ms ev,
           result = None,
           error = Some e\<rparr>)"

text \<open>
  The call once more, with the exceptions of its own statements kept: \<open>Inl\<close> is an
  exception that reaches the caller. Around the body modelled above, the call reads the
  clock and writes to the log, which return, and builds instances of two classes of
  \<^verbatim>\<open>models/schemas.py\<close>: the report and the stage result at the end of the
  \<^verbatim>\<open>try\<close> block, the failed stage result in the handler. What the two classes
  accept is not in the sources and is a parameter, \<open>schema_classes\<close>. Building an
  instance that its class refuses raises pydantic's \<^verbatim>\<open>ValidationError\<close>, which
  is a \<^verbatim>\<open>ValueError\<close>. In the \<^verbatim>\<open>try\<close> block that exception is
  caught as any other is (\<^verbatim>\<open>except Exception\<close>; the four classes of
  \<open>pyerror\<close> are all below \<^verbatim>\<open>Exception\<close>); in the handler nothing catches
  it. The instances built inside the body are taken as accepted, as above.
\<close>

record schema_classes =
  accepts_report :: "GovernanceReport \<Rightarrow> bool"
  accepts_result :: "StageResult \<Rightarrow> bool"

definition completed_stage_result :: "env \<Rightarrow> GovernanceReport \<Rightarrow> StageResult" where
  "completed_stage_result ev report =
     \<lparr>stage_id = 3,
      stage_name = ''Governance Guardrail'',
      stage_status = status report,
      duration_ms = elapsed_ms ev,
      result = Some report,
      error = None\<rparr>"

definition failed_stage_result :: "env \<Rightarrow> pyerror \<Rightarrow> StageResult" where
  "failed_stage_result ev e =
     \<lparr>stage_id = 3,
      stage_name = ''Governance Guardrail'',
      stage_status = FAILED,
      duration_ms = elapsed_ms ev,
      result = None,
      error = Some e\<rparr>"

definition guardrail_try ::
  "schema_classes \<Rightarrow> env \<Rightarrow> heap \<Rightarrow> dict \<Rightarrow> dict \<Rightarrow> pyerror + StageResult" where
  "guardrail_try sc ev h architect_result intent_result =
     (case guardrail_body ev h architect_result intent_result of
        Inl e \<Rightarrow> Inl e
      | Inr (h1, report) \<Rightarrow>
          if \<not> accepts_report sc report then Inl ValueError
          else if \<not> accepts_result sc (completed_stage_result ev report) then Inl ValueError
          else Inr (completed_stage_result ev report))"

definition guardrail_except :: "schema_classes \<Rightarrow> env \<Rightarrow> pyerror \<Rightarrow> pyerror + StageResult" where
  "guardrail_except sc ev e =
     (if \<not> accepts_result sc (failed_stage_result ev e) then Inl ValueError
      else Inr (failed_stage_result ev e))"

definition run_governance_guardrail_raising ::
  "schema_classes \<Rightarrow> env \<Rightarrow> heap \<Rightarrow> dict \<Rightarrow> dict \<Rightarrow> pyerror + StageResult" where
  "run_governance_guardrail_raising sc ev h architect_result intent_result =
     (case guardrail_try sc ev h architect_result intent_result of
        Inr res \<Rightarrow> Inr res
      | Inl e \<Rightarrow> guardrail_except sc ev e)"

section \<open>Well-formed stores and what the corrections may change\<close>

text \<open>
  In a running program every reference points to an allocated object. \<open>wf_heap\<close> and
  \<open>wf_dict\<close> say so for the store and for a dictionary held as a value.

  \<open>written\<close> lists every key a correction assigns, with the value it assigns.
  \<open>heap_le h h1\<close> relates a store to a later one: lists are unchanged, a dictionary
  keeps each entry or has it replaced by a written one, and a new object is a dictionary
  of written entries. \<open>manifest_le\<close> is the same for the manifest under correction,
  where \<^verbatim>\<open>setdefault\<close> may add a new networking or security dictionary.
\<close>

definition wf_val :: "heap \<Rightarrow> pyval \<Rightarrow> bool" where
  "wf_val h v = (case v of VRef a \<Rightarrow> a < length h | _ \<Rightarrow> True)"

definition wf_dict :: "heap \<Rightarrow> dict \<Rightarrow> bool" where
  "wf_dict h d = list_all (\<lambda>kv. wf_val h (snd kv)) d"

definition wf_obj :: "heap \<Rightarrow> pyobj \<Rightarrow> bool" where
  "wf_obj h ob = (case ob of ODict d \<Rightarrow> wf_dict h d | OList xs \<Rightarrow> list_all (wf_val h) xs)"

definition wf_heap :: "heap \<Rightarrow> bool" where
  "wf_heap h = list_all (wf_obj h) h"

definition is_dict :: "heap \<Rightarrow> pyval \<Rightarrow> bool" where
  "is_dict h v =
     (case v of
        VRef a \<Rightarrow> (case deref h a of Some (ODict d) \<Rightarrow> True | _ \<Rightarrow> False)
      | _ \<Rightarrow> False)"

definition written :: "(string \<times> pyval) set" where
  "written =
     {(''vpc_enabled'', VBool True), (''subnet_isolation'', VBool True),
      (''private_endpoints'', VBool True), (''encryption_at_rest'', VBool True),
      (''encryption_in_transit'', VBool True), (''audit_logging'', VBool True),
      (''iam_policies'', VBool True), (''plan'', VStr ''dedicated''),
      (''region'', VStr ''eu-gb'')}"

definition key_le :: "dict \<Rightarrow> dict \<Rightarrow> string \<Rightarrow> bool" where
  "key_le d d1 k =
     (map_of d1 k = map_of d k \<or> (\<exists>v. map_of d1 k = Some v \<and> (k, v) \<in> written))"

fun obj_le :: "pyobj \<Rightarrow> pyobj \<Rightarrow> bool" where
  "obj_le (OList xs) ob = (ob = OList xs)"
| "obj_le (ODict d) ob = (\<exists>d1. ob = ODict d1 \<and> (\<forall>k. key_le d d1 k))"

definition heap_le :: "heap \<Rightarrow> heap \<Rightarrow> bool" where
  "heap_le h h1 =
     (length h \<le> length h1 \<and>
      (\<forall>a < length h. obj_le (h ! a) (h1 ! a)) \<and>
      (\<forall>a. length h \<le> a \<and> a < length h1 \<longrightarrow> obj_le (ODict []) (h1 ! a)))"

definition manifest_le :: "heap \<Rightarrow> dict \<Rightarrow> dict \<Rightarrow> bool" where
  "manifest_le h m m1 =
     (\<forall>k. map_of m1 k = map_of m k \<or>
          (map_of m k = None \<and> k \<in> {''networking'', ''security_config''} \<and>
           (\<exists>a. map_of m1 k = Some (VRef a) \<and> length h \<le> a)))"

definition flag_true :: "heap \<Rightarrow> dict \<Rightarrow> string \<Rightarrow> string \<Rightarrow> bool" where
  "flag_true h m sub k =
     (\<exists>a d. map_of m sub = Some (VRef a) \<and> deref h a = Some (ODict d) \<and>
            map_of d k = Some (VBool True))"

definition wf_state :: "heap \<Rightarrow> dict \<Rightarrow> bool" where
  "wf_state h m = (wf_heap h \<and> wf_dict h m)"

definition state_le :: "heap \<Rightarrow> dict \<Rightarrow> heap \<Rightarrow> dict \<Rightarrow> bool" where
  "state_le h m h1 m1 = (heap_le h h1 \<and> manifest_le h m m1)"

text \<open>
  \<open>services_not_dict\<close>: the services entry of the manifest is absent or is anything but
  a dictionary (as a rule, a list).
\<close>

definition services_not_dict :: "heap \<Rightarrow> dict \<Rightarrow> bool" where
  "services_not_dict h m =
     (case map_of m ''services'' of
        Some (VRef a) \<Rightarrow> (case deref h a of Some (ODict d) \<Rightarrow> False | _ \<Rightarrow> True)
      | _ \<Rightarrow> True)"


section \<open>Example inputs\<close>

text \<open>Concrete values at which the theorems below are instantiated.\<close>

definition example_violation :: "SeverityLevel \<Rightarrow> PolicyViolation" where
  "example_violation sev =
     \<lparr>v_policy_id = ''POL-X-001'',
      v_policy_name = ''Example'',
      v_severity = sev,
      v_framework = IBM_BASELINE,
      v_description = ''An example violation.'',
      detected_issue = ''Example'',
      auto_correction = None\<rparr>"

definition example_env :: env where
  "example_env = \<lparr>elapsed_ms = 7, MODEL_INSTRUCT = ''instruct''\<rparr>"

text \<open>
  A store with one manifest (object 0), its networking and security dictionaries (1 and
  2), its list of services (3) with one database in us-south (4), and the list of requested
  frameworks (5); the two dictionaries the caller passes; and the audit manifest the call
  builds from them.
\<close>

definition example_heap :: heap where
  "example_heap =
     [ODict [(''project_name'', VStr ''clinic-portal''), (''networking'', VRef 1),
             (''security_config'', VRef 2), (''services'', VRef 3)],
      ODict [(''vpc_enabled'', VBool False)],
      ODict [],
      OList [VRef 4],
      ODict [(''service_name'', VStr ''Databases for PostgreSQL''), (''role'', VStr ''database''),
             (''region'', VStr ''us-south'')],
      OList [VStr ''HIPAA'', VStr ''GDPR'']]"

definition example_architect_result :: dict where
  "example_architect_result = [(''manifest'', VRef 0)]"

definition example_intent_result :: dict where
  "example_intent_result =
     [(''detected_sensitivity'', VStr ''PHI''), (''applicable_frameworks'', VRef 5)]"

definition example_audit_manifest :: dict where
  "example_audit_manifest =
     [(''project_name'', VStr ''clinic-portal''), (''networking'', VRef 1),
      (''security_config'', VRef 2), (''services'', VRef 3),
      (''detected_sensitivity'', VStr ''PHI''), (''applicable_frameworks'', VRef 5)]"

text \<open>
  A store in which the caller's manifest (object 0) has one and the same empty dictionary
  (object 1) as its networking and as its services entry, with the list of requested
  frameworks (object 2); the two dictionaries the caller passes; and the audit manifest
  the call builds from them.
\<close>

definition shared_heap :: heap where
  "shared_heap =
     [ODict [(''networking'', VRef 1), (''services'', VRef 1)],
      ODict [],
      OList [VStr ''HIPAA'']]"

definition shared_architect_result :: dict where
  "shared_architect_result = [(''manifest'', VRef 0)]"

definition shared_intent_result :: dict where
  "shared_intent_result =
     [(''detected_sensitivity'', VStr ''PHI''), (''applicable_frameworks'', VRef 2)]"

definition shared_audit_manifest :: dict where
  "shared_audit_manifest =
     [(''networking'', VRef 1), (''services'', VRef 1),
      (''detected_sensitivity'', VStr ''PHI''), (''applicable_frameworks'', VRef 2)]"

text \<open>Schema classes that accept every instance.\<close>

definition example_schema_classes :: schema_classes where
  "example_schema_classes = \<lparr>accepts_report = (\<lambda>r. True), accepts_result = (\<lambda>r. True)\<rparr>"

section \<open>The registry and the framework selector\<close>

lemma framework_simps:
  "framework POL_HIPAA_001 = ''HIPAA''"
  "framework POL_HIPAA_002 = ''HIPAA''"
  "framework POL_HIPAA_003 = ''HIPAA''"
  "framework POL_IBM_001 = ''IBM_BASELINE''"
  "framework POL_IBM_002 = ''IBM_BASELINE''"
  "framework POL_SEC_001 = ''IBM_BASELINE''"
  "framework POL_SEC_002 = ''IBM_BASELINE''"
  "framework POL_GDPR_001 = ''GDPR''"
  by (simp_all add: POL_HIPAA_001_def POL_HIPAA_002_def POL_HIPAA_003_def POL_IBM_001_def
      POL_IBM_002_def POL_SEC_001_def POL_SEC_002_def POL_GDPR_001_def)

text \<open>
  C4. For a request that is a list of strings \<open>fs\<close> (empty, or with identifiers no
  policy carries), \<open>get_policies_for_frameworks\<close> returns exactly the policies of the
  registry whose framework is requested or is the baseline framework, in the order of the
  registry; for the empty request these are the four baseline policies.
\<close>

theorem get_policies_for_frameworks_selects:
  "deref h a = Some (OList (map VStr fs)) \<Longrightarrow>
     get_policies_for_frameworks h (VRef a) =
       Inr (filter (\<lambda>p. framework p \<in> set fs \<or> framework p = ''IBM_BASELINE'')
              POLICY_KNOWLEDGE_BASE) \<and>
     (fs = [] \<longrightarrow>
        get_policies_for_frameworks h (VRef a) =
          Inr [POL_IBM_001, POL_IBM_002, POL_SEC_001, POL_SEC_002])"
proof -
  assume d: "deref h a = Some (OList (map VStr fs))"
  have it: "py_iter h (Some (VRef a)) = Inr (map VStr fs)"
    using d by (simp add: py_iter_def)
  have ha: "list_all hashable (map VStr fs)"
    by (simp add: list_all_iff hashable_def)
  have mem: "\<And>p. (VStr (framework p) \<in> insert (VStr ''IBM_BASELINE'') (set (map VStr fs))) =
                 (framework p \<in> set fs \<or> framework p = ''IBM_BASELINE'')"
    by auto
  have g: "get_policies_for_frameworks h (VRef a) =
       Inr (filter (\<lambda>p. framework p \<in> set fs \<or> framework p = ''IBM_BASELINE'')
              POLICY_KNOWLEDGE_BASE)"
    unfolding get_policies_for_frameworks_def it using ha mem by (auto intro: filter_cong)
  show ?thesis
    unfolding g by (simp add: POLICY_KNOWLEDGE_BASE_def framework_simps)
qed

theorem get_policies_for_frameworks_selects_witness:
  "get_policies_for_frameworks [OList []] (VRef 0) =
     Inr [POL_IBM_001, POL_IBM_002, POL_SEC_001, POL_SEC_002] \<and>
   get_policies_for_frameworks [OList [VStr ''GDPR'', VStr ''NIST'']] (VRef 0) =
     Inr [POL_IBM_001, POL_IBM_002, POL_SEC_001, POL_SEC_002, POL_GDPR_001]"
proof -
  have d1: "deref [OList []] 0 = Some (OList (map VStr []))"
    by (simp add: deref_def)
  have d2: "deref [OList [VStr ''GDPR'', VStr ''NIST'']] 0 = Some (OList (map VStr [''GDPR'', ''NIST'']))"
    by (simp add: deref_def)
  show ?thesis
    using get_policies_for_frameworks_selects [OF d1] get_policies_for_frameworks_selects [OF d2]
    by (simp add: POLICY_KNOWLEDGE_BASE_def framework_simps)
qed

section \<open>The status and the score\<close>

lemma guardrail_body_InrD:
  assumes "guardrail_body ev h architect_result intent_result = Inr (h1, r)"
  shows "\<exists>policies corrected.
           get_policies_for_frameworks (fst (requested_frameworks h intent_result))
             (snd (requested_frameworks h intent_result)) = Inr policies \<and>
           audit_pass1 policies (fst (requested_frameworks h intent_result))
             (AList.update ''applicable_frameworks'' (snd (requested_frameworks h intent_result))
               (AList.update ''detected_sensitivity''
                 (dict_get intent_result ''detected_sensitivity'' (VStr ''public''))
                 (case py_mapping (fst (requested_frameworks h intent_result))
                         (map_of architect_result ''manifest'') of Inr items \<Rightarrow> items | Inl e \<Rightarrow> [])))
             = Inr (violations_found r) \<and>
           correction_pass policies (violations_found r) (fst (requested_frameworks h intent_result))
             (AList.update ''applicable_frameworks'' (snd (requested_frameworks h intent_result))
               (AList.update ''detected_sensitivity''
                 (dict_get intent_result ''detected_sensitivity'' (VStr ''public''))
                 (case py_mapping (fst (requested_frameworks h intent_result))
                         (map_of architect_result ''manifest'') of Inr items \<Rightarrow> items | Inl e \<Rightarrow> [])))
             = Inr (h1, corrected, violations_corrected r) \<and>
           status r = fst (final_status (violations_found r) (violations_corrected r)) \<and>
           final_compliance_score r = snd (final_status (violations_found r) (violations_corrected r))"
  using assms
  by (auto simp: guardrail_body_def Let_def split: prod.splits sum.splits)

text \<open>
  C3. The status and the score are a function of the violations found in pass 1 and of
  the corrected ones: none found gives PASSED and 100; some found and as many corrected
  gives CORRECTED and \<open>max 60 (100 - 8 * critical - 3 * warning)\<close>; fewer corrected
  than found gives FAILED and 40. One critical violation scores 92, three critical and
  two warning ones score 70, and a violation of severity info changes neither count.
  The report of a call that returns carries this status and this score.
\<close>

theorem final_status_state_machine:
  "final_status [] done = (PASSED, 100) \<and>
   (found \<noteq> [] \<and> length done = length found \<longrightarrow>
      final_status found done =
        (CORRECTED, max 60 (100 - 8 * critical_count found - 3 * warning_count found))) \<and>
   (length done < length found \<longrightarrow> final_status found done = (FAILED, 40)) \<and>
   (critical_count found = 1 \<and> warning_count found = 0 \<and> length done = length found \<longrightarrow>
      final_status found done = (CORRECTED, 92)) \<and>
   (critical_count found = 3 \<and> warning_count found = 2 \<and> length done = length found \<longrightarrow>
      final_status found done = (CORRECTED, 70)) \<and>
   (v_severity v = INFO \<longrightarrow>
      critical_count (v # found) = critical_count found \<and>
      warning_count (v # found) = warning_count found) \<and>
   (guardrail_body ev h architect_result intent_result = Inr (h1, r) \<longrightarrow>
      (status r, final_compliance_score r) =
        final_status (violations_found r) (violations_corrected r))"
proof -
  have "(status r, final_compliance_score r) =
          final_status (violations_found r) (violations_corrected r)"
    if "guardrail_body ev h architect_result intent_result = Inr (h1, r)"
    using guardrail_body_InrD [OF that] by (auto simp: prod_eq_iff)
  then show ?thesis
    by (auto simp: final_status_def critical_count_def warning_count_def)
qed

theorem final_status_state_machine_witness:
  "final_status [example_violation CRITICAL] [example_violation CRITICAL] = (CORRECTED, 92) \<and>
   final_status [example_violation CRITICAL] [] = (FAILED, 40) \<and>
   final_status
     [example_violation CRITICAL, example_violation WARNING, example_violation CRITICAL,
      example_violation WARNING, example_violation CRITICAL]
     [example_violation CRITICAL, example_violation WARNING, example_violation CRITICAL,
      example_violation WARNING, example_violation CRITICAL] = (CORRECTED, 70) \<and>
   critical_count [example_violation INFO, example_violation CRITICAL] =
     critical_count [example_violation CRITICAL] \<and>
   (\<exists>h1 r. guardrail_body example_env [] [] [] = Inr (h1, r) \<and>
      length (violations_found r) = 1 \<and>
      (status r, final_compliance_score r) = (CORRECTED, 92))"
proof -
  have e: "case guardrail_body example_env [] [] [] of
             Inl e \<Rightarrow> False
           | Inr (h1, r) \<Rightarrow>
               length (violations_found r) = 1 \<and>
               final_status (violations_found r) (violations_corrected r) = (CORRECTED, 92)"
    by code_simp
  then obtain h1 r where b: "guardrail_body example_env [] [] [] = Inr (h1, r)"
    and n: "length (violations_found r) = 1"
      "final_status (violations_found r) (violations_corrected r) = (CORRECTED, 92)"
    by (auto split: sum.splits)
  have 1: "(status r, final_compliance_score r) = (CORRECTED, 92)"
    using final_status_state_machine [where ev = example_env and h = "[]"
        and architect_result = "[]" and intent_result = "[]" and ?h1.0 = h1 and r = r] b n(2)
    by simp
  have 2: "final_status [example_violation CRITICAL] [example_violation CRITICAL] = (CORRECTED, 92) \<and>
      final_status [example_violation CRITICAL] [] = (FAILED, 40) \<and>
      final_status
        [example_violation CRITICAL, example_violation WARNING, example_violation CRITICAL,
         example_violation WARNING, example_violation CRITICAL]
        [example_violation CRITICAL, example_violation WARNING, example_violation CRITICAL,
         example_violation WARNING, example_violation CRITICAL] = (CORRECTED, 70) \<and>
      critical_count [example_violation INFO, example_violation CRITICAL] =
        critical_count [example_violation CRITICAL]"
    using
      final_status_state_machine [where found = "[example_violation CRITICAL]"
        and ?done = "[example_violation CRITICAL]" and v = "example_violation INFO"]
      final_status_state_machine [where found = "[example_violation CRITICAL]"
        and ?done = "[]" and v = "example_violation INFO"]
      final_status_state_machine [where
        found = "[example_violation CRITICAL, example_violation WARNING, example_violation CRITICAL,
          example_violation WARNING, example_violation CRITICAL]"
        and ?done = "[example_violation CRITICAL, example_violation WARNING, example_violation CRITICAL,
          example_violation WARNING, example_violation CRITICAL]"
        and v = "example_violation INFO"]
    by (simp add: critical_count_def warning_count_def example_violation_def)
  show ?thesis using b n(1) 1 2 by blast
qed

lemma filter_length_mono:
  assumes "mset V1 \<subseteq># mset V2"
  shows "length (filter P V1) \<le> length (filter P V2)"
proof -
  have "filter_mset P (mset V1) \<subseteq># filter_mset P (mset V2)"
    using assms by (rule multiset_filter_mono)
  then have "size (filter_mset P (mset V1)) \<le> size (filter_mset P (mset V2))"
    by (rule size_mset_mono)
  then show ?thesis
    by (simp flip: mset_filter)
qed

text \<open>
  C8. The score is monotone: when every violation of \<open>V1\<close> is among those of \<open>V2\<close>
  (as multisets, severities as listed) and both were corrected in full, the score for
  \<open>V1\<close> is at least the score for \<open>V2\<close>, and neither is below 60.
\<close>

theorem score_monotone:
  "mset V1 \<subseteq># mset V2 \<Longrightarrow> length d1 = length V1 \<Longrightarrow> length d2 = length V2 \<Longrightarrow>
     snd (final_status V2 d2) \<le> snd (final_status V1 d1) \<and>
     60 \<le> snd (final_status V2 d2) \<and> 60 \<le> snd (final_status V1 d1)"
proof -
  assume a: "mset V1 \<subseteq># mset V2" and l1: "length d1 = length V1" and l2: "length d2 = length V2"
  have c: "critical_count V1 \<le> critical_count V2"
    unfolding critical_count_def using filter_length_mono [OF a] by simp
  have w: "warning_count V1 \<le> warning_count V2"
    unfolding warning_count_def using filter_length_mono [OF a] by simp
  have e: "V2 = [] \<Longrightarrow> V1 = []"
    using a by auto
  have n: "0 \<le> critical_count V2" "0 \<le> warning_count V2"
    by (simp_all add: critical_count_def warning_count_def)
  show ?thesis
    using c w e l1 l2 n by (auto simp: final_status_def)
qed

theorem score_monotone_witness:
  "snd (final_status [example_violation WARNING, example_violation CRITICAL]
          [example_violation WARNING, example_violation CRITICAL])
     \<le> snd (final_status [example_violation CRITICAL] [example_violation CRITICAL]) \<and>
   60 \<le> snd (final_status [example_violation WARNING, example_violation CRITICAL]
          [example_violation WARNING, example_violation CRITICAL])"
proof -
  have s: "mset [example_violation CRITICAL]
             \<subseteq># mset [example_violation WARNING, example_violation CRITICAL]"
    by simp
  show ?thesis
    using score_monotone [OF s, of "[example_violation CRITICAL]"
        "[example_violation WARNING, example_violation CRITICAL]"]
    by simp
qed

section \<open>Lemmas about the store\<close>

lemma written_truthy: "(k, v) \<in> written \<Longrightarrow> truthy h v"
  by (auto simp: written_def truthy_def)

lemma written_wf: "(k, v) \<in> written \<Longrightarrow> wf_val h v"
  by (auto simp: written_def wf_val_def)

lemma written_fun: "(k, v) \<in> written \<Longrightarrow> (k, v') \<in> written \<Longrightarrow> v = v'"
  by (auto simp: written_def)

lemma role_not_written: "(''role'', v) \<notin> written"
  by (simp add: written_def)

lemma gdpr_not_written: "(''GDPR'', v) \<notin> written"
  by (simp add: written_def)

lemma key_le_refl: "key_le d d k"
  by (simp add: key_le_def)

lemma key_le_trans: "key_le d d1 k \<Longrightarrow> key_le d1 d2 k \<Longrightarrow> key_le d d2 k"
  by (auto simp: key_le_def)

lemma obj_le_refl: "obj_le ob ob"
  by (cases ob) (auto simp: key_le_refl)

lemma obj_le_trans: "obj_le o1 o2 \<Longrightarrow> obj_le o2 o3 \<Longrightarrow> obj_le o1 o3"
proof (cases o1)
  case (ODict d)
  assume a: "obj_le o1 o2" "obj_le o2 o3"
  obtain d1 where d1: "o2 = ODict d1" "\<forall>k. key_le d d1 k" using a(1) ODict by auto
  obtain d2 where d2: "o3 = ODict d2" "\<forall>k. key_le d1 d2 k" using a(2) d1(1) by auto
  have "\<forall>k. key_le d d2 k" using d1(2) d2(2) key_le_trans by blast
  then show ?thesis using ODict d2(1) by simp
qed auto

lemma heap_le_refl: "heap_le h h"
  by (auto simp: heap_le_def obj_le_refl)

lemma heap_le_length: "heap_le h h1 \<Longrightarrow> length h \<le> length h1"
  by (simp add: heap_le_def)

lemma heap_le_oldD: "heap_le h h1 \<Longrightarrow> a < length h \<Longrightarrow> obj_le (h ! a) (h1 ! a)"
  by (simp add: heap_le_def)

lemma heap_le_newD:
  "heap_le h h1 \<Longrightarrow> length h \<le> a \<Longrightarrow> a < length h1 \<Longrightarrow> obj_le (ODict []) (h1 ! a)"
  by (simp add: heap_le_def)

lemma heap_le_trans:
  assumes "heap_le h h1" "heap_le h1 h2"
  shows "heap_le h h2"
proof -
  have l: "length h \<le> length h1" "length h1 \<le> length h2"
    using assms by (simp_all add: heap_le_def)
  have old: "obj_le (h ! a) (h2 ! a)" if a: "a < length h" for a
  proof -
    have "obj_le (h ! a) (h1 ! a)" using assms(1) a by (rule heap_le_oldD)
    moreover have "obj_le (h1 ! a) (h2 ! a)" using assms(2) a l by (simp add: heap_le_oldD)
    ultimately show ?thesis by (rule obj_le_trans)
  qed
  have new: "obj_le (ODict []) (h2 ! a)" if a: "length h \<le> a" "a < length h2" for a
  proof (cases "a < length h1")
    case True
    have "obj_le (ODict []) (h1 ! a)" using assms(1) a(1) True by (rule heap_le_newD)
    moreover have "obj_le (h1 ! a) (h2 ! a)" using assms(2) True by (rule heap_le_oldD)
    ultimately show ?thesis by (rule obj_le_trans)
  next
    case False
    then have "length h1 \<le> a" by simp
    with assms(2) show ?thesis using a(2) by (rule heap_le_newD)
  qed
  show ?thesis using l old new by (simp add: heap_le_def)
qed

lemma deref_Some: "deref h a = Some ob \<longleftrightarrow> a < length h \<and> h ! a = ob"
  by (auto simp: deref_def)

lemma heap_le_list:
  assumes "heap_le h h1" "deref h a = Some (OList xs)"
  shows "deref h1 a = Some (OList xs)"
proof -
  have a: "a < length h" "h ! a = OList xs" using assms(2) by (simp_all add: deref_Some)
  have "obj_le (h ! a) (h1 ! a)" using assms(1) a(1) by (rule heap_le_oldD)
  then show ?thesis using a heap_le_length [OF assms(1)] by (simp add: deref_Some)
qed

lemma heap_le_dict:
  assumes "heap_le h h1" "deref h a = Some (ODict d)"
  shows "\<exists>d1. deref h1 a = Some (ODict d1) \<and> (\<forall>k. key_le d d1 k)"
proof -
  have a: "a < length h" "h ! a = ODict d" using assms(2) by (simp_all add: deref_Some)
  have "obj_le (h ! a) (h1 ! a)" using assms(1) a(1) by (rule heap_le_oldD)
  then show ?thesis using a heap_le_length [OF assms(1)] by (auto simp: deref_Some)
qed

lemma heap_le_list_back:
  assumes "heap_le h h1" "a < length h" "deref h1 a = Some (OList xs)"
  shows "deref h a = Some (OList xs)"
proof -
  have "obj_le (h ! a) (h1 ! a)" using assms(1,2) by (rule heap_le_oldD)
  moreover have "h1 ! a = OList xs" using assms(3) by (simp add: deref_Some)
  ultimately show ?thesis using assms(2) by (cases "h ! a") (auto simp: deref_Some)
qed

lemma heap_le_dict_back:
  assumes "heap_le h h1" "a < length h" "deref h1 a = Some (ODict d1)"
  shows "\<exists>d. deref h a = Some (ODict d) \<and> (\<forall>k. key_le d d1 k)"
proof -
  have "obj_le (h ! a) (h1 ! a)" using assms(1,2) by (rule heap_le_oldD)
  moreover have "h1 ! a = ODict d1" using assms(3) by (simp add: deref_Some)
  ultimately show ?thesis using assms(2) by (cases "h ! a") (auto simp: deref_Some)
qed

lemma heap_le_new:
  assumes "heap_le h h1" "length h \<le> a" "deref h1 a = Some ob"
  shows "\<exists>d1. ob = ODict d1 \<and> (\<forall>k. key_le [] d1 k)"
proof -
  have a: "a < length h1" "h1 ! a = ob" using assms(3) by (simp_all add: deref_Some)
  have "obj_le (ODict []) (h1 ! a)" using assms(1,2) a(1) by (rule heap_le_newD)
  then show ?thesis using a(2) by auto
qed

lemma py_get_Some_iff:
  "py_get h (Some v) k dflt = Inr r \<longleftrightarrow>
     (\<exists>a d. v = VRef a \<and> deref h a = Some (ODict d) \<and> r = dict_get d k dflt)"
  by (auto simp: py_get_def split: pyval.splits option.splits pyobj.splits)

lemma py_get_None: "py_get h None k dflt = Inr dflt"
  by (simp add: py_get_def)

lemma py_get_error: "py_get h obj k dflt = Inl e \<Longrightarrow> py_get h obj k' dflt' = Inl e"
  by (auto simp: py_get_def split: pyval.splits option.splits pyobj.splits)

lemma py_setitem_iff:
  "py_setitem h x k v = Inr h1 \<longleftrightarrow>
     (\<exists>a d. x = VRef a \<and> deref h a = Some (ODict d) \<and> h1 = h[a := ODict (AList.update k v d)])"
  by (auto simp: py_setitem_def split: pyval.splits option.splits pyobj.splits)

lemma py_setitem_length: "py_setitem h x k v = Inr h1 \<Longrightarrow> length h1 = length h"
  by (auto simp: py_setitem_iff)

lemma py_setitem_le:
  assumes "py_setitem h x k v = Inr h1" "(k, v) \<in> written"
  shows "heap_le h h1"
proof -
  obtain a d where x: "x = VRef a" "deref h a = Some (ODict d)" "h1 = h[a := ODict (AList.update k v d)]"
    using assms(1) by (auto simp: py_setitem_iff)
  have a: "a < length h" "h ! a = ODict d" using x(2) by (auto simp: deref_def split: if_splits)
  have "obj_le (h ! b) (h1 ! b)" if "b < length h" for b
  proof (cases "b = a")
    case True
    then show ?thesis using a x(3) assms(2) by (auto simp: key_le_def update_conv')
  next
    case False
    then show ?thesis using x(3) by (simp add: obj_le_refl)
  qed
  then show ?thesis using x(3) by (auto simp: heap_le_def)
qed

lemma heap_le_append: "heap_le h (h @ [ODict []])"
  by (auto simp: heap_le_def nth_append obj_le_refl key_le_refl)

lemma wf_val_mono: "wf_val h v \<Longrightarrow> length h \<le> length h1 \<Longrightarrow> wf_val h1 v"
  by (auto simp: wf_val_def split: pyval.splits)

lemma wf_dict_mono: "wf_dict h d \<Longrightarrow> length h \<le> length h1 \<Longrightarrow> wf_dict h1 d"
  by (auto simp: wf_dict_def list_all_iff intro: wf_val_mono)

lemma wf_obj_mono: "wf_obj h ob \<Longrightarrow> length h \<le> length h1 \<Longrightarrow> wf_obj h1 ob"
  by (auto simp: wf_obj_def list_all_iff split: pyobj.splits intro: wf_val_mono wf_dict_mono)

lemma wf_dict_map_of: "wf_dict h d \<Longrightarrow> map_of d k = Some v \<Longrightarrow> wf_val h v"
  by (auto simp: wf_dict_def list_all_iff dest!: map_of_SomeD)

lemma wf_heap_deref: "wf_heap h \<Longrightarrow> deref h a = Some ob \<Longrightarrow> wf_obj h ob"
  by (auto simp: wf_heap_def list_all_iff deref_def split: if_splits)

lemma wf_heap_list: "wf_heap h \<Longrightarrow> deref h a = Some (OList xs) \<Longrightarrow> list_all (wf_val h) xs"
  by (drule (1) wf_heap_deref) (simp add: wf_obj_def)

lemma wf_heap_dict: "wf_heap h \<Longrightarrow> deref h a = Some (ODict d) \<Longrightarrow> wf_dict h d"
  by (drule (1) wf_heap_deref) (simp add: wf_obj_def)

lemma set_alist_update: "set (AList.update k v d) \<subseteq> insert (k, v) (set d)"
  by (induction d) auto

lemma wf_dict_update: "wf_dict h d \<Longrightarrow> wf_val h v \<Longrightarrow> wf_dict h (AList.update k v d)"
  using set_alist_update [of k v d] by (auto simp: wf_dict_def list_all_iff)

lemma py_setitem_wf:
  assumes "wf_heap h" "py_setitem h x k v = Inr h1" "wf_val h v"
  shows "wf_heap h1"
proof -
  obtain a d where x: "x = VRef a" "deref h a = Some (ODict d)" "h1 = h[a := ODict (AList.update k v d)]"
    using assms(2) by (auto simp: py_setitem_iff)
  have l: "length h1 = length h" using x(3) by simp
  have d: "wf_dict h d" using assms(1) x(2) by (rule wf_heap_dict)
  have n: "wf_obj h (ODict (AList.update k v d))"
    using d assms(3) by (simp add: wf_obj_def wf_dict_update)
  have "\<And>ob. ob \<in> set h1 \<Longrightarrow> wf_obj h ob"
    using set_update_subset_insert [of h a "ODict (AList.update k v d)"] n assms(1) x(3)
    by (auto simp: wf_heap_def list_all_iff)
  then have "\<And>ob. ob \<in> set h1 \<Longrightarrow> wf_obj h1 ob"
    using l wf_obj_mono [of h _ h1] by simp
  then show ?thesis by (simp add: wf_heap_def list_all_iff)
qed

lemma wf_heap_append: "wf_heap h \<Longrightarrow> wf_heap (h @ [ODict []])"
  by (auto simp: wf_heap_def list_all_iff wf_obj_def wf_dict_def intro: wf_obj_mono [unfolded wf_obj_def])

lemma truthy_le:
  assumes "heap_le h h1" "wf_val h v" "truthy h v"
  shows "truthy h1 v"
proof (cases v)
  case (VRef a)
  then have a: "a < length h" using assms(2) by (simp add: wf_val_def)
  show ?thesis
  proof (cases "h ! a")
    case (ODict d)
    then have "deref h a = Some (ODict d)" using a by (simp add: deref_def)
    then obtain d1 where d1: "deref h1 a = Some (ODict d1)" "\<forall>k. key_le d d1 k"
      using heap_le_dict [OF assms(1)] by blast
    have "d \<noteq> []" using assms(3) VRef ODict a by (simp add: truthy_def deref_def)
    then obtain kv rest where "d = kv # rest"
      by (cases d) auto
    then have "map_of d (fst kv) = Some (snd kv)"
      by simp
    then obtain k w where "map_of d k = Some w"
      by blast
    moreover have "key_le d d1 k" using d1(2) by simp
    ultimately have "map_of d1 k \<noteq> None" by (auto simp: key_le_def)
    then have "d1 \<noteq> []" by auto
    then show ?thesis using VRef d1(1) by (simp add: truthy_def)
  next
    case (OList xs)
    then have "deref h a = Some (OList xs)" using a by (simp add: deref_def)
    then have "deref h1 a = Some (OList xs)" using heap_le_list [OF assms(1)] by blast
    moreover have "xs \<noteq> []" using assms(3) VRef OList a by (simp add: truthy_def deref_def)
    ultimately show ?thesis using VRef by (simp add: truthy_def)
  qed
qed (use assms in \<open>auto simp: truthy_def\<close>)

lemma py_get_le:
  assumes "heap_le h h1" "wf_val h v" "py_get h (Some v) k dflt = Inr r"
  shows "\<exists>r1. py_get h1 (Some v) k dflt = Inr r1 \<and> (r1 = r \<or> (k, r1) \<in> written)"
proof -
  obtain a d where v: "v = VRef a" "deref h a = Some (ODict d)" "r = dict_get d k dflt"
    using assms(3) by (auto simp: py_get_Some_iff)
  obtain d1 where d1: "deref h1 a = Some (ODict d1)" "key_le d d1 k"
    using heap_le_dict [OF assms(1) v(2)] by blast
  have "dict_get d1 k dflt = r \<or> (k, dict_get d1 k dflt) \<in> written"
    using d1(2) v(3) by (auto simp: key_le_def dict_get_def)
  then show ?thesis using v(1) d1(1) by (auto simp: py_get_Some_iff)
qed

lemma py_get_le_back:
  assumes "heap_le h h1" "wf_val h v" "py_get h1 (Some v) k dflt = Inr r1"
  shows "\<exists>r. py_get h (Some v) k dflt = Inr r \<and> (r1 = r \<or> (k, r1) \<in> written)"
proof -
  obtain a d1 where v: "v = VRef a" "deref h1 a = Some (ODict d1)" "r1 = dict_get d1 k dflt"
    using assms(3) by (auto simp: py_get_Some_iff)
  have a: "a < length h" using assms(2) v(1) by (simp add: wf_val_def)
  obtain d where d: "deref h a = Some (ODict d)" "key_le d d1 k"
    using heap_le_dict_back [OF assms(1) a v(2)] by blast
  have "r1 = dict_get d k dflt \<or> (k, r1) \<in> written"
    using d(2) v(3) by (auto simp: key_le_def dict_get_def)
  then show ?thesis using v(1) d(1) by (auto simp: py_get_Some_iff)
qed

lemma py_get_le_eq:
  assumes "heap_le h h1" "wf_val h v" "\<And>w. (k, w) \<notin> written"
  shows "py_get h1 (Some v) k dflt = py_get h (Some v) k dflt"
proof (cases "py_get h (Some v) k dflt")
  case (Inr r)
  then show ?thesis using py_get_le [OF assms(1,2) Inr] assms(3) by auto
next
  case (Inl e)
  show ?thesis
  proof (cases "py_get h1 (Some v) k dflt")
    case (Inr r1)
    then show ?thesis using py_get_le_back [OF assms(1,2) Inr] Inl by auto
  next
    case (Inl e1)
    have "e = AttributeError" using \<open>py_get h (Some v) k dflt = Inl e\<close>
      by (auto simp: py_get_def split: pyval.splits option.splits pyobj.splits)
    moreover have "e1 = AttributeError" using Inl
      by (auto simp: py_get_def split: pyval.splits option.splits pyobj.splits)
    ultimately show ?thesis using Inl \<open>py_get h (Some v) k dflt = Inl e\<close> by simp
  qed
qed

section \<open>The steps of a correction\<close>

lemma setdefault_dict_cases:
  assumes "setdefault_dict h m sub = (h0, m0)"
  shows "(map_of m sub \<noteq> None \<and> h0 = h \<and> m0 = m) \<or>
         (map_of m sub = None \<and> h0 = h @ [ODict []] \<and> m0 = m @ [(sub, VRef (length h))])"
  using assms by (auto simp: setdefault_dict_def split: option.splits)

lemma map_of_snoc:
  "map_of (m @ [(k, v)]) k' = (case map_of m k' of Some w \<Rightarrow> Some w | None \<Rightarrow> if k' = k then Some v else None)"
  by (simp add: map_add_def split: option.splits)

lemma map_of_snoc_None:
  "map_of m k = None \<Longrightarrow> map_of (m @ [(k, v)]) k = Some v"
  by (simp add: map_add_def)

lemma map_of_snoc_other:
  "k' \<noteq> k \<Longrightarrow> map_of (m @ [(k, v)]) k' = map_of m k'"
  by (simp add: map_add_def split: option.splits)

lemma setdefault_dict_le:
  assumes "setdefault_dict h m sub = (h0, m0)" "sub \<in> {''networking'', ''security_config''}"
  shows "heap_le h h0" "manifest_le h m m0"
proof -
  from setdefault_dict_cases [OF assms(1)]
  show "heap_le h h0"
    by (auto simp: heap_le_refl heap_le_append)
  from setdefault_dict_cases [OF assms(1)]
  show "manifest_le h m m0"
  proof
    assume "map_of m sub \<noteq> None \<and> h0 = h \<and> m0 = m"
    then show ?thesis by (simp add: manifest_le_def)
  next
    assume a: "map_of m sub = None \<and> h0 = h @ [ODict []] \<and> m0 = m @ [(sub, VRef (length h))]"
    have "map_of m0 k = map_of m k \<or>
          (map_of m k = None \<and> k \<in> {''networking'', ''security_config''} \<and>
           (\<exists>a. map_of m0 k = Some (VRef a) \<and> length h \<le> a))" for k
    proof (cases "k = sub")
      case True
      then show ?thesis using a assms(2) by (auto simp: map_of_snoc simp del: map_of_append)
    next
      case False
      then show ?thesis using a by (auto simp: map_of_snoc simp del: map_of_append split: option.splits)
    qed
    then show ?thesis unfolding manifest_le_def by blast
  qed
qed

lemma setdefault_dict_wf:
  assumes "setdefault_dict h m sub = (h0, m0)" "wf_heap h" "wf_dict h m"
  shows "wf_heap h0" "wf_dict h0 m0"
proof -
  from setdefault_dict_cases [OF assms(1)]
  show "wf_heap h0" using assms(2) by (auto simp: wf_heap_append)
  from setdefault_dict_cases [OF assms(1)]
  show "wf_dict h0 m0"
  proof
    assume "map_of m sub \<noteq> None \<and> h0 = h \<and> m0 = m"
    then show ?thesis using assms(3) by simp
  next
    assume a: "map_of m sub = None \<and> h0 = h @ [ODict []] \<and> m0 = m @ [(sub, VRef (length h))]"
    have "wf_dict h0 m" using assms(3) a by (auto intro: wf_dict_mono)
    then show ?thesis using a by (simp add: wf_dict_def wf_val_def)
  qed
qed

lemma setdefault_dict_present:
  assumes "setdefault_dict h m sub = (h0, m0)"
  shows "\<exists>x. map_of m0 sub = Some x"
  using setdefault_dict_cases [OF assms] by (auto simp: map_of_snoc simp del: map_of_append)

lemma setdefault_dict_fresh:
  assumes "setdefault_dict h m sub = (h0, m0)" "map_of m sub = None"
  shows "map_of m0 sub = Some (VRef (length h))" "deref h0 (length h) = Some (ODict [])"
  using setdefault_dict_cases [OF assms(1)] assms(2) by (auto simp: map_of_snoc deref_def simp del: map_of_append)

lemma sub_setitem_iff:
  "sub_setitem h m sub k v = Inr h1 \<longleftrightarrow>
     (\<exists>a d. map_of m sub = Some (VRef a) \<and> deref h a = Some (ODict d) \<and>
            h1 = h[a := ODict (AList.update k v d)])"
  by (auto simp: sub_setitem_def py_setitem_iff split: option.splits)

lemma sub_setitem_step:
  assumes "sub_setitem h m sub k v = Inr h1" "(k, v) \<in> written"
  shows "heap_le h h1" "length h1 = length h" "wf_heap h \<Longrightarrow> wf_heap h1"
proof -
  obtain x where x: "map_of m sub = Some x" "py_setitem h x k v = Inr h1"
    using assms(1) by (auto simp: sub_setitem_def split: option.splits)
  show "heap_le h h1" using x(2) assms(2) by (rule py_setitem_le)
  show "length h1 = length h" using x(2) by (rule py_setitem_length)
  show "wf_heap h \<Longrightarrow> wf_heap h1" using x(2) written_wf [OF assms(2)] by (rule py_setitem_wf [rotated])
qed

lemma sub_setitem_flag:
  assumes "sub_setitem h m sub k (VBool True) = Inr h1"
  shows "flag_true h1 m sub k"
proof -
  obtain a d where a: "map_of m sub = Some (VRef a)" "deref h a = Some (ODict d)"
      "h1 = h[a := ODict (AList.update k (VBool True) d)]"
    using assms by (auto simp: sub_setitem_iff)
  have "deref h1 a = Some (ODict (AList.update k (VBool True) d))"
    using a(2,3) by (simp add: deref_Some)
  then show ?thesis using a(1) unfolding flag_true_def by (auto simp: update_conv')
qed

lemma flag_true_le:
  assumes "flag_true h m sub k" "heap_le h h1" "(k, VBool True) \<in> written"
  shows "flag_true h1 m sub k"
proof -
  obtain a d where a: "map_of m sub = Some (VRef a)" "deref h a = Some (ODict d)"
      "map_of d k = Some (VBool True)"
    using assms(1) by (auto simp: flag_true_def)
  obtain d1 where d1: "deref h1 a = Some (ODict d1)" "key_le d d1 k"
    using heap_le_dict [OF assms(2) a(2)] by blast
  have "map_of d1 k = Some (VBool True)"
    using d1(2) a(3) written_fun [OF _ assms(3)] by (auto simp: key_le_def)
  then show ?thesis using a(1) d1(1) unfolding flag_true_def by blast
qed

lemma flag_true_get:
  "flag_true h m sub k \<Longrightarrow> py_get h (map_of m sub) k dflt = Inr (VBool True)"
  by (auto simp: flag_true_def py_get_Some_iff dict_get_def)

lemma upgrade_plans_step:
  "upgrade_plans h xs = Inr h1 \<Longrightarrow> heap_le h h1 \<and> length h1 = length h \<and> (wf_heap h \<longrightarrow> wf_heap h1)"
proof (induction xs arbitrary: h)
  case Nil
  then show ?case by (simp add: heap_le_refl)
next
  case (Cons x xs)
  obtain role where role: "py_get h (Some x) ''role'' VNone = Inr role"
    using Cons.prems by (cases "py_get h (Some x) ''role'' VNone") auto
  show ?case
  proof (cases "role = VStr ''database''")
    case True
    then obtain h' where h': "py_setitem h x ''plan'' (VStr ''dedicated'') = Inr h'"
        "upgrade_plans h' xs = Inr h1"
      using Cons.prems role by (cases "py_setitem h x ''plan'' (VStr ''dedicated'')") auto
    have w: "(''plan'', VStr ''dedicated'') \<in> written" by (simp add: written_def)
    have 1: "heap_le h h'" using h'(1) w by (rule py_setitem_le)
    have 2: "length h' = length h" using h'(1) by (rule py_setitem_length)
    have 3: "wf_heap h \<Longrightarrow> wf_heap h'" using h'(1) written_wf [OF w] by (rule py_setitem_wf [rotated])
    show ?thesis using Cons.IH [OF h'(2)] 1 2 3 by (auto intro: heap_le_trans)
  next
    case False
    then have "upgrade_plans h xs = Inr h1" using Cons.prems role by simp
    then show ?thesis by (rule Cons.IH)
  qed
qed

lemma migrate_regions_step:
  "migrate_regions h xs = Inr h1 \<Longrightarrow> heap_le h h1 \<and> length h1 = length h \<and> (wf_heap h \<longrightarrow> wf_heap h1)"
proof (induction xs arbitrary: h)
  case Nil
  then show ?case by (simp add: heap_le_refl)
next
  case (Cons x xs)
  obtain role where role: "py_get h (Some x) ''role'' VNone = Inr role"
    using Cons.prems by (cases "py_get h (Some x) ''role'' VNone") auto
  show ?case
  proof (cases "role = VStr ''database''")
    case True
    then obtain h' where h': "py_setitem h x ''region'' (VStr ''eu-gb'') = Inr h'"
        "migrate_regions h' xs = Inr h1"
      using Cons.prems role by (cases "py_setitem h x ''region'' (VStr ''eu-gb'')") auto
    have w: "(''region'', VStr ''eu-gb'') \<in> written" by (simp add: written_def)
    have 1: "heap_le h h'" using h'(1) w by (rule py_setitem_le)
    have 2: "length h' = length h" using h'(1) by (rule py_setitem_length)
    have 3: "wf_heap h \<Longrightarrow> wf_heap h'" using h'(1) written_wf [OF w] by (rule py_setitem_wf [rotated])
    show ?thesis using Cons.IH [OF h'(2)] 1 2 3 by (auto intro: heap_le_trans)
  next
    case False
    then have "migrate_regions h xs = Inr h1" using Cons.prems role by simp
    then show ?thesis by (rule Cons.IH)
  qed
qed

lemma flag_written:
  "(''vpc_enabled'', VBool True) \<in> written" "(''subnet_isolation'', VBool True) \<in> written"
  "(''private_endpoints'', VBool True) \<in> written" "(''encryption_at_rest'', VBool True) \<in> written"
  "(''encryption_in_transit'', VBool True) \<in> written" "(''audit_logging'', VBool True) \<in> written"
  "(''iam_policies'', VBool True) \<in> written"
  by (simp_all add: written_def)

lemma set_flag_step:
  assumes "setdefault_dict h m sub = (h0, m0)"
    and "sub_setitem h0 m0 sub k (VBool True) = Inr h1"
    and "sub \<in> {''networking'', ''security_config''}"
    and "(k, VBool True) \<in> written"
    and "wf_state h m"
  shows "state_le h m h1 m0" "wf_state h1 m0" "flag_true h1 m0 sub k" "length h1 = length h0"
proof -
  have 1: "heap_le h h0" "manifest_le h m m0"
    using setdefault_dict_le [OF assms(1,3)] by simp_all
  have 2: "wf_heap h0" "wf_dict h0 m0"
    using setdefault_dict_wf [OF assms(1)] assms(5) by (simp_all add: wf_state_def)
  have 3: "heap_le h0 h1" "length h1 = length h0" "wf_heap h1"
    using sub_setitem_step [OF assms(2,4)] 2(1) by simp_all
  show "state_le h m h1 m0"
    using 1 3(1) by (auto simp: state_le_def intro: heap_le_trans)
  show "wf_state h1 m0"
    using 2(2) 3(2,3) by (auto simp: wf_state_def intro: wf_dict_mono)
  show "flag_true h1 m0 sub k"
    using assms(2) by (rule sub_setitem_flag)
  show "length h1 = length h0" by (rule 3(2))
qed

lemma more_flag_step:
  assumes "sub_setitem h1 m0 sub k (VBool True) = Inr h2"
    and "(k, VBool True) \<in> written"
    and "state_le h m h1 m0" "wf_state h1 m0"
  shows "state_le h m h2 m0" "wf_state h2 m0" "flag_true h2 m0 sub k"
    "\<And>s k'. (k', VBool True) \<in> written \<Longrightarrow> flag_true h1 m0 s k' \<Longrightarrow> flag_true h2 m0 s k'"
proof -
  have 3: "heap_le h1 h2" "length h2 = length h1" "wf_heap h2"
    using sub_setitem_step [OF assms(1,2)] assms(4) by (simp_all add: wf_state_def)
  show "state_le h m h2 m0"
    using assms(3) 3(1) by (auto simp: state_le_def intro: heap_le_trans)
  show "wf_state h2 m0"
    using assms(4) 3(2,3) by (auto simp: wf_state_def intro: wf_dict_mono)
  show "flag_true h2 m0 sub k"
    using assms(1) by (rule sub_setitem_flag)
  show "\<And>s k'. (k', VBool True) \<in> written \<Longrightarrow> flag_true h1 m0 s k' \<Longrightarrow> flag_true h2 m0 s k'"
    using 3(1) by (auto intro: flag_true_le)
qed

text \<open>Each correction: what it returns.\<close>

lemma one_flag_correction:
  assumes "(case setdefault_dict h m sub of (h0, m0) \<Rightarrow>
             (case sub_setitem h0 m0 sub k (VBool True) of
                Inl e \<Rightarrow> Inl e
              | Inr h1 \<Rightarrow> Inr (h1, m0))) = Inr (h', m')"
    and "sub \<in> {''networking'', ''security_config''}"
    and "(k, VBool True) \<in> written"
    and "wf_state h m"
  shows "state_le h m h' m' \<and> wf_state h' m' \<and> flag_true h' m' sub k"
proof -
  obtain h0 m0 where sd: "setdefault_dict h m sub = (h0, m0)"
    by (cases "setdefault_dict h m sub") auto
  have si: "sub_setitem h0 m0 sub k (VBool True) = Inr h'" and m': "m' = m0"
    using assms(1) sd by (auto split: sum.splits)
  show ?thesis
    using set_flag_step [OF sd si assms(2,3,4)] m' by simp
qed

lemma three_flag_correction:
  assumes "(case setdefault_dict h m sub of (h0, m0) \<Rightarrow>
             (case sub_setitem h0 m0 sub k1 (VBool True) of
                Inl e \<Rightarrow> Inl e
              | Inr h1 \<Rightarrow>
                  (case sub_setitem h1 m0 sub k2 (VBool True) of
                     Inl e \<Rightarrow> Inl e
                   | Inr h2 \<Rightarrow>
                       (case sub_setitem h2 m0 sub k3 (VBool True) of
                          Inl e \<Rightarrow> Inl e
                        | Inr h3 \<Rightarrow> Inr (h3, m0))))) = Inr (h', m')"
    and "sub \<in> {''networking'', ''security_config''}"
    and "(k1, VBool True) \<in> written" "(k2, VBool True) \<in> written" "(k3, VBool True) \<in> written"
    and "wf_state h m"
  shows "state_le h m h' m' \<and> wf_state h' m' \<and>
         flag_true h' m' sub k1 \<and> flag_true h' m' sub k2 \<and> flag_true h' m' sub k3"
proof -
  obtain h0 m0 where sd: "setdefault_dict h m sub = (h0, m0)"
    by (cases "setdefault_dict h m sub") auto
  obtain h1 where s1: "sub_setitem h0 m0 sub k1 (VBool True) = Inr h1"
    using assms(1) sd by (auto split: sum.splits)
  obtain h2 where s2: "sub_setitem h1 m0 sub k2 (VBool True) = Inr h2"
    using assms(1) sd s1 by (auto split: sum.splits)
  have s3: "sub_setitem h2 m0 sub k3 (VBool True) = Inr h'" and m': "m' = m0"
    using assms(1) sd s1 s2 by (auto split: sum.splits)
  note a = set_flag_step [OF sd s1 assms(2,3,6)]
  note b = more_flag_step [OF s2 assms(4) a(1,2)]
  note c = more_flag_step [OF s3 assms(5) b(1,2)]
  have "flag_true h' m0 sub k1"
    using c(4) [OF assms(3)] b(4) [OF assms(3)] a(3) by simp
  moreover have "flag_true h' m0 sub k2"
    using c(4) [OF assms(4)] b(3) by simp
  ultimately show ?thesis
    using c(1,2,3) m' by simp
qed

lemma correct_vpc_isolation_step:
  assumes "correct_vpc_isolation h m = Inr (h', m')" "wf_state h m"
  shows "state_le h m h' m' \<and> wf_state h' m' \<and>
         flag_true h' m' ''networking'' ''vpc_enabled'' \<and>
         flag_true h' m' ''networking'' ''subnet_isolation'' \<and>
         flag_true h' m' ''networking'' ''private_endpoints''"
  by (rule three_flag_correction [OF assms(1) [unfolded correct_vpc_isolation_def] _ _ _ _ assms(2)])
     (simp_all add: flag_written)

lemma correct_public_api_exposure_step:
  assumes "correct_public_api_exposure h m = Inr (h', m')" "wf_state h m"
  shows "state_le h m h' m' \<and> wf_state h' m' \<and>
         flag_true h' m' ''networking'' ''vpc_enabled'' \<and>
         flag_true h' m' ''networking'' ''subnet_isolation'' \<and>
         flag_true h' m' ''networking'' ''private_endpoints''"
  by (rule three_flag_correction [OF assms(1) [unfolded correct_public_api_exposure_def] _ _ _ _ assms(2)])
     (simp_all add: flag_written)

lemma correct_encryption_in_transit_step:
  assumes "correct_encryption_in_transit h m = Inr (h', m')" "wf_state h m"
  shows "state_le h m h' m' \<and> wf_state h' m' \<and>
         flag_true h' m' ''security_config'' ''encryption_in_transit''"
  by (rule one_flag_correction [OF assms(1) [unfolded correct_encryption_in_transit_def] _ _ assms(2)])
     (simp_all add: flag_written)

lemma correct_audit_logging_step:
  assumes "correct_audit_logging h m = Inr (h', m')" "wf_state h m"
  shows "state_le h m h' m' \<and> wf_state h' m' \<and>
         flag_true h' m' ''security_config'' ''audit_logging''"
  by (rule one_flag_correction [OF assms(1) [unfolded correct_audit_logging_def] _ _ assms(2)])
     (simp_all add: flag_written)

lemma correct_private_endpoints_step:
  assumes "correct_private_endpoints h m = Inr (h', m')" "wf_state h m"
  shows "state_le h m h' m' \<and> wf_state h' m' \<and>
         flag_true h' m' ''networking'' ''private_endpoints''"
  by (rule one_flag_correction [OF assms(1) [unfolded correct_private_endpoints_def] _ _ assms(2)])
     (simp_all add: flag_written)

lemma correct_iam_policies_step:
  assumes "correct_iam_policies h m = Inr (h', m')" "wf_state h m"
  shows "state_le h m h' m' \<and> wf_state h' m' \<and>
         flag_true h' m' ''security_config'' ''iam_policies''"
  by (rule one_flag_correction [OF assms(1) [unfolded correct_iam_policies_def] _ _ assms(2)])
     (simp_all add: flag_written)

lemma correct_encryption_at_rest_step:
  assumes "correct_encryption_at_rest h m = Inr (h', m')" "wf_state h m"
  shows "state_le h m h' m' \<and> wf_state h' m' \<and>
         flag_true h' m' ''security_config'' ''encryption_at_rest''"
proof -
  obtain h0 m0 where sd: "setdefault_dict h m ''security_config'' = (h0, m0)"
    by (cases "setdefault_dict h m ''security_config''") auto
  obtain h1 where s1: "sub_setitem h0 m0 ''security_config'' ''encryption_at_rest'' (VBool True) = Inr h1"
    using assms(1) sd by (auto simp: correct_encryption_at_rest_def split: sum.splits)
  note a = set_flag_step [OF sd s1 _ flag_written(4) assms(2), simplified]
  have m': "m' = m0"
    using assms(1) sd s1 by (auto simp: correct_encryption_at_rest_def split: sum.splits if_splits)
  have "h' = h1 \<or> (\<exists>svcs. upgrade_plans h1 svcs = Inr h')"
    using assms(1) sd s1 by (auto simp: correct_encryption_at_rest_def split: sum.splits if_splits)
  then have le: "heap_le h1 h' \<and> length h' = length h1 \<and> wf_heap h'"
    using upgrade_plans_step a(2) by (auto simp: heap_le_refl wf_state_def)
  have "state_le h m h' m0"
    using a(1) le by (auto simp: state_le_def intro: heap_le_trans)
  moreover have "wf_state h' m0"
    using a(2) le by (auto simp: wf_state_def intro: wf_dict_mono)
  moreover have "flag_true h' m0 ''security_config'' ''encryption_at_rest''"
    using a(3) le flag_written(4) by (auto intro: flag_true_le)
  ultimately show ?thesis using m' by simp
qed

lemma correct_region_gdpr_step:
  assumes "correct_region_gdpr h m = Inr (h', m')" "wf_state h m"
  shows "state_le h m h' m' \<and> wf_state h' m'"
proof -
  obtain svcs where it: "py_iter h (map_of m ''services'') = Inr svcs"
      and mg: "migrate_regions h svcs = Inr h'" and m': "m' = m"
    using assms(1) by (auto simp: correct_region_gdpr_def split: sum.splits)
  have "heap_le h h' \<and> length h' = length h \<and> wf_heap h'"
    using migrate_regions_step [OF mg] assms(2) by (simp add: wf_state_def)
  then show ?thesis
    using assms(2) m' by (auto simp: state_le_def wf_state_def manifest_le_def intro: wf_dict_mono)
qed

section \<open>No correction makes a passing check fail\<close>

lemma manifest_le_other:
  "manifest_le h m m1 \<Longrightarrow> k \<notin> {''networking'', ''security_config''} \<Longrightarrow> map_of m1 k = map_of m k"
  unfolding manifest_le_def by blast

lemma manifest_le_cases:
  assumes "manifest_le h m m1"
  shows "map_of m1 k = map_of m k \<or> (map_of m k = None \<and> (\<exists>a. map_of m1 k = Some (VRef a) \<and> length h \<le> a))"
  using assms unfolding manifest_le_def by blast

lemma sensitivity_le:
  "state_le h m h1 m1 \<Longrightarrow>
     dict_get m1 ''detected_sensitivity'' d = dict_get m ''detected_sensitivity'' d"
proof -
  assume "state_le h m h1 m1"
  then have "manifest_le h m m1" by (simp add: state_le_def)
  then have "map_of m1 ''detected_sensitivity'' = map_of m ''detected_sensitivity''"
    by (rule manifest_le_other) simp
  then show ?thesis by (simp add: dict_get_def)
qed

text \<open>A flag that reads as false after some corrections read as false before them.\<close>

lemma flag_falsy_back:
  assumes "wf_state h m" "state_le h m h1 m1"
    and "py_get h1 (map_of m1 sub) k (VBool False) = Inr v1" "\<not> truthy h1 v1"
  shows "\<exists>v. py_get h (map_of m sub) k (VBool False) = Inr v \<and> \<not> truthy h v"
proof -
  have le: "heap_le h h1" and ml: "manifest_le h m m1"
    using assms(2) by (simp_all add: state_le_def)
  have wf: "wf_heap h" "wf_dict h m"
    using assms(1) by (simp_all add: wf_state_def)
  have nw: "(k, v1) \<notin> written"
    using assms(4) written_truthy by blast
  from manifest_le_cases [OF ml, of sub]
  show ?thesis
  proof
    assume eq: "map_of m1 sub = map_of m sub"
    show ?thesis
    proof (cases "map_of m sub")
      case None
      have "py_get h (map_of m sub) k (VBool False) = Inr (VBool False)"
        using None by (simp add: py_get_None)
      moreover have "\<not> truthy h (VBool False)"
        by (simp add: truthy_def)
      ultimately show ?thesis by blast
    next
      case (Some x)
      have wx: "wf_val h x" using wf(2) Some by (rule wf_dict_map_of)
      have g1: "py_get h1 (Some x) k (VBool False) = Inr v1"
        using assms(3) eq Some by simp
      obtain v where v: "py_get h (Some x) k (VBool False) = Inr v" "v1 = v"
        using py_get_le_back [OF le wx g1] nw by auto
      have "wf_val h v"
      proof -
        obtain a d where "x = VRef a" "deref h a = Some (ODict d)" "v = dict_get d k (VBool False)"
          using v(1) by (auto simp: py_get_Some_iff)
        then show ?thesis
          using wf_heap_dict [OF wf(1)] wf_dict_map_of [of h d k]
          by (auto simp: dict_get_def wf_val_def split: option.splits)
      qed
      then have "\<not> truthy h v"
        using truthy_le [OF le] assms(4) v(2) by blast
      then show ?thesis using v(1) Some by auto
    qed
  next
    assume "map_of m sub = None \<and> (\<exists>a. map_of m1 sub = Some (VRef a) \<and> length h \<le> a)"
    then obtain a where a: "map_of m sub = None" "map_of m1 sub = Some (VRef a)" "length h \<le> a"
      by blast
    obtain d1 where d1: "deref h1 a = Some (ODict d1)" "v1 = dict_get d1 k (VBool False)"
      using assms(3) a(2) by (auto simp: py_get_Some_iff)
    have "key_le [] d1 k"
      using heap_le_new [OF le a(3) d1(1)] by auto
    then have "map_of d1 k = None"
      using nw d1(2) by (auto simp: key_le_def dict_get_def)
    then show ?thesis
      using a(1) by (simp add: py_get_None truthy_def)
  qed
qed

lemma check_vpc_isolation_back:
  assumes "wf_state h m" "state_le h m h1 m1" "check_vpc_isolation h1 m1 = Inr False"
  shows "check_vpc_isolation h m = Inr False"
proof -
  note s = sensitivity_le [OF assms(2)]
  obtain v1 where v1: "py_get h1 (map_of m1 ''networking'') ''vpc_enabled'' (VBool False) = Inr v1"
      "\<not> truthy h1 v1"
      and c: "dict_get m1 ''detected_sensitivity'' (VStr ''public'') \<in> {VStr ''PHI'', VStr ''PII''}"
    using assms(3) by (auto simp: check_vpc_isolation_def Let_def split: if_splits sum.splits)
  obtain v where "py_get h (map_of m ''networking'') ''vpc_enabled'' (VBool False) = Inr v" "\<not> truthy h v"
    using flag_falsy_back [OF assms(1,2) v1] by blast
  then show ?thesis
    using c s by (auto simp: check_vpc_isolation_def Let_def)
qed

lemma check_encryption_in_transit_back:
  assumes "wf_state h m" "state_le h m h1 m1" "check_encryption_in_transit h1 m1 = Inr False"
  shows "check_encryption_in_transit h m = Inr False"
proof -
  obtain v1 where v1: "py_get h1 (map_of m1 ''security_config'') ''encryption_in_transit'' (VBool False) = Inr v1"
      "\<not> truthy h1 v1"
    using assms(3) by (auto simp: check_encryption_in_transit_def Let_def split: if_splits sum.splits)
  obtain v where "py_get h (map_of m ''security_config'') ''encryption_in_transit'' (VBool False) = Inr v"
      "\<not> truthy h v"
    using flag_falsy_back [OF assms(1,2) v1] by blast
  then show ?thesis
    by (auto simp: check_encryption_in_transit_def Let_def)
qed

lemma check_audit_logging_for_phi_back:
  assumes "wf_state h m" "state_le h m h1 m1" "check_audit_logging_for_phi h1 m1 = Inr False"
  shows "check_audit_logging_for_phi h m = Inr False"
proof -
  note s = sensitivity_le [OF assms(2)]
  obtain v1 where v1: "py_get h1 (map_of m1 ''security_config'') ''audit_logging'' (VBool False) = Inr v1"
      "\<not> truthy h1 v1"
      and c: "dict_get m1 ''detected_sensitivity'' (VStr ''public'') = VStr ''PHI''"
    using assms(3) by (auto simp: check_audit_logging_for_phi_def Let_def split: if_splits sum.splits)
  obtain v where "py_get h (map_of m ''security_config'') ''audit_logging'' (VBool False) = Inr v"
      "\<not> truthy h v"
    using flag_falsy_back [OF assms(1,2) v1] by blast
  then show ?thesis
    using c s by (auto simp: check_audit_logging_for_phi_def Let_def)
qed

lemma check_private_endpoints_back:
  assumes "wf_state h m" "state_le h m h1 m1" "check_private_endpoints h1 m1 = Inr False"
  shows "check_private_endpoints h m = Inr False"
proof -
  note s = sensitivity_le [OF assms(2)]
  obtain v1 where v1: "py_get h1 (map_of m1 ''networking'') ''private_endpoints'' (VBool False) = Inr v1"
      "\<not> truthy h1 v1"
      and c: "dict_get m1 ''detected_sensitivity'' (VStr ''public'') \<in> {VStr ''PHI'', VStr ''PCI''}"
    using assms(3) by (auto simp: check_private_endpoints_def Let_def split: if_splits sum.splits)
  obtain v where "py_get h (map_of m ''networking'') ''private_endpoints'' (VBool False) = Inr v"
      "\<not> truthy h v"
    using flag_falsy_back [OF assms(1,2) v1] by blast
  then show ?thesis
    using c s by (auto simp: check_private_endpoints_def Let_def)
qed

lemma check_iam_policies_present_back:
  assumes "wf_state h m" "state_le h m h1 m1" "check_iam_policies_present h1 m1 = Inr False"
  shows "check_iam_policies_present h m = Inr False"
proof -
  note s = sensitivity_le [OF assms(2)]
  obtain v1 where v1: "py_get h1 (map_of m1 ''security_config'') ''iam_policies'' (VBool False) = Inr v1"
      "\<not> truthy h1 v1"
      and c: "dict_get m1 ''detected_sensitivity'' (VStr ''public'') \<in> {VStr ''PHI'', VStr ''PCI''}"
    using assms(3) by (auto simp: check_iam_policies_present_def Let_def split: if_splits sum.splits)
  obtain v where "py_get h (map_of m ''security_config'') ''iam_policies'' (VBool False) = Inr v"
      "\<not> truthy h v"
    using flag_falsy_back [OF assms(1,2) v1] by blast
  then show ?thesis
    using c s by (auto simp: check_iam_policies_present_def Let_def)
qed

lemma check_no_public_api_for_sensitive_data_back:
  assumes "wf_state h m" "state_le h m h1 m1"
    and "check_no_public_api_for_sensitive_data h1 m1 = Inr False"
  shows "check_no_public_api_for_sensitive_data h m = Inr False"
proof -
  note s = sensitivity_le [OF assms(2)]
  have c: "dict_get m1 ''detected_sensitivity'' (VStr ''public'') \<in> {VStr ''PHI'', VStr ''PII'', VStr ''PCI''}"
    using assms(3) by (auto simp: check_no_public_api_for_sensitive_data_def Let_def split: if_splits)
  obtain v1 where v1: "py_get h1 (map_of m1 ''networking'') ''vpc_enabled'' (VBool False) = Inr v1"
    using assms(3) c by (auto simp: check_no_public_api_for_sensitive_data_def Let_def split: if_splits sum.splits)
  show ?thesis
  proof (cases "truthy h1 v1")
    case False
    obtain v where "py_get h (map_of m ''networking'') ''vpc_enabled'' (VBool False) = Inr v" "\<not> truthy h v"
      using flag_falsy_back [OF assms(1,2) v1 False] by blast
    then show ?thesis
      using c s by (auto simp: check_no_public_api_for_sensitive_data_def Let_def)
  next
    case True
    then obtain w1 where w1: "py_get h1 (map_of m1 ''networking'') ''subnet_isolation'' (VBool False) = Inr w1"
        "\<not> truthy h1 w1"
      using assms(3) c v1
      by (auto simp: check_no_public_api_for_sensitive_data_def Let_def split: if_splits sum.splits)
    obtain w where w: "py_get h (map_of m ''networking'') ''subnet_isolation'' (VBool False) = Inr w"
        "\<not> truthy h w"
      using flag_falsy_back [OF assms(1,2) w1] by blast
    have "\<exists>v. py_get h (map_of m ''networking'') ''vpc_enabled'' (VBool False) = Inr v"
    proof (cases "py_get h (map_of m ''networking'') ''vpc_enabled'' (VBool False)")
      case (Inl e)
      from py_get_error [OF this, of "''subnet_isolation''" "VBool False"] w(1)
      show ?thesis by simp
    qed auto
    then obtain v where v: "py_get h (map_of m ''networking'') ''vpc_enabled'' (VBool False) = Inr v"
      by blast
    show ?thesis
      using c s v w by (auto simp: check_no_public_api_for_sensitive_data_def Let_def)
  qed
qed

lemma py_iter_cases:
  assumes "py_iter h obj = Inr xs"
  shows "(\<exists>a. obj = Some (VRef a) \<and> deref h a = Some (OList xs)) \<or> (\<forall>x \<in> set xs. \<exists>s. x = VStr s)"
  using assms by (auto simp: py_iter_def split: option.splits pyval.splits pyobj.splits)

lemma py_get_str: "py_get h (Some (VStr s)) k dflt = Inl AttributeError"
  by (simp add: py_get_def)

lemma any_database_strs:
  "\<forall>x \<in> set xs. \<exists>s. x = VStr s \<Longrightarrow> any_database h xs \<noteq> Inr True"
  by (cases xs) (auto simp: py_get_str)

lemma region_check_loop_strs:
  "\<forall>x \<in> set xs. \<exists>s. x = VStr s \<Longrightarrow> region_check_loop h xs \<noteq> Inr False"
  by (cases xs) (auto simp: py_get_str)

lemma role_le:
  "heap_le h h1 \<Longrightarrow> wf_val h x \<Longrightarrow>
     py_get h1 (Some x) ''role'' VNone = py_get h (Some x) ''role'' VNone"
  by (rule py_get_le_eq) (simp_all add: role_not_written)

lemma any_database_le:
  "heap_le h h1 \<Longrightarrow> list_all (wf_val h) xs \<Longrightarrow> any_database h1 xs = any_database h xs"
  by (induction xs) (auto simp: role_le split: sum.splits)

text \<open>The list a loop walks after some corrections is the list it walked before them.\<close>

lemma services_back:
  assumes "wf_state h m" "state_le h m h1 m1"
    and "py_iter h1 (map_of m1 ''services'') = Inr xs" "\<not> (\<forall>x \<in> set xs. \<exists>s. x = VStr s)"
  shows "py_iter h (map_of m ''services'') = Inr xs \<and> list_all (wf_val h) xs"
proof -
  have le: "heap_le h h1" and ml: "manifest_le h m m1"
    using assms(2) by (simp_all add: state_le_def)
  have wf: "wf_heap h" "wf_dict h m"
    using assms(1) by (simp_all add: wf_state_def)
  have eq: "map_of m1 ''services'' = map_of m ''services''"
    using ml by (rule manifest_le_other) simp
  obtain a where a: "map_of m ''services'' = Some (VRef a)" "deref h1 a = Some (OList xs)"
    using py_iter_cases [OF assms(3)] assms(4) eq by auto
  have "wf_val h (VRef a)" using wf(2) a(1) by (rule wf_dict_map_of)
  then have "a < length h" by (simp add: wf_val_def)
  then have d: "deref h a = Some (OList xs)"
    using le a(2) by (simp add: heap_le_list_back)
  then show ?thesis
    using a(1) wf_heap_list [OF wf(1) d] by (simp add: py_iter_def)
qed

lemma check_encryption_at_rest_back:
  assumes "wf_state h m" "state_le h m h1 m1" "check_encryption_at_rest h1 m1 = Inr False"
  shows "check_encryption_at_rest h m = Inr False"
proof -
  have le: "heap_le h h1" using assms(2) by (simp add: state_le_def)
  obtain xs where xs: "py_iter h1 (map_of m1 ''services'') = Inr xs"
    using assms(3) by (auto simp: check_encryption_at_rest_def Let_def split: sum.splits)
  have db: "any_database h1 xs = Inr True"
    using assms(3) xs by (auto simp: check_encryption_at_rest_def Let_def split: sum.splits if_splits)
  obtain v1 where v1: "py_get h1 (map_of m1 ''security_config'') ''encryption_at_rest'' (VBool False) = Inr v1"
      "\<not> truthy h1 v1"
    using assms(3) xs db by (auto simp: check_encryption_at_rest_def Let_def split: sum.splits if_splits)
  have "\<not> (\<forall>x \<in> set xs. \<exists>s. x = VStr s)"
    using db any_database_strs by blast
  then have b: "py_iter h (map_of m ''services'') = Inr xs" "list_all (wf_val h) xs"
    using services_back [OF assms(1,2) xs] by simp_all
  have db': "any_database h xs = Inr True"
    using db any_database_le [OF le b(2)] by simp
  obtain v where "py_get h (map_of m ''security_config'') ''encryption_at_rest'' (VBool False) = Inr v"
      "\<not> truthy h v"
    using flag_falsy_back [OF assms(1,2) v1] by blast
  then show ?thesis
    using b(1) db' by (auto simp: check_encryption_at_rest_def Let_def)
qed

lemma region_check_loop_back:
  "heap_le h h1 \<Longrightarrow> list_all (wf_val h) xs \<Longrightarrow> region_check_loop h1 xs = Inr False \<Longrightarrow>
     region_check_loop h xs = Inr False"
proof (induction xs)
  case Nil
  then show ?case by simp
next
  case (Cons x xs)
  have wx: "wf_val h x" and wxs: "list_all (wf_val h) xs"
    using Cons.prems(2) by simp_all
  note r = role_le [OF Cons.prems(1) wx]
  obtain role where role: "py_get h1 (Some x) ''role'' VNone = Inr role"
    using Cons.prems(3) by (cases "py_get h1 (Some x) ''role'' VNone") auto
  show ?case
  proof (cases "role = VStr ''database''")
    case False
    then show ?thesis
      using Cons.prems(3) Cons.IH [OF Cons.prems(1) wxs] role r by simp
  next
    case True
    obtain r1 where r1: "py_get h1 (Some x) ''region'' (VStr '''') = Inr r1"
      using Cons.prems(3) role True by (cases "py_get h1 (Some x) ''region'' (VStr '''')") auto
    obtain r0 where r0: "py_get h (Some x) ''region'' (VStr '''') = Inr r0"
        "r1 = r0 \<or> (''region'', r1) \<in> written"
      using py_get_le_back [OF Cons.prems(1) wx r1] by blast
    have w: "(''region'', r1) \<in> written \<Longrightarrow> r1 = VStr ''eu-gb''"
      by (simp add: written_def)
    show ?thesis
    proof (cases "r1 \<in> {VStr ''eu-gb'', VStr ''eu-de'', VStr ''eu-fr''}")
      case False
      then have "r1 = r0" using r0(2) w by auto
      then show ?thesis using False role True r r0(1) by simp
    next
      case in_eu: True
      then have "region_check_loop h1 xs = Inr False"
        using Cons.prems(3) role True r1 by simp
      then have "region_check_loop h xs = Inr False"
        by (rule Cons.IH [OF Cons.prems(1) wxs])
      then show ?thesis using role True r r0(1) by simp
    qed
  qed
qed

lemma contains_gdpr_back:
  assumes "wf_state h m" "state_le h m h1 m1"
    and "py_contains_str h1 (map_of m1 ''applicable_frameworks'') ''GDPR'' = Inr True"
  shows "py_contains_str h (map_of m ''applicable_frameworks'') ''GDPR'' = Inr True"
proof -
  have le: "heap_le h h1" and ml: "manifest_le h m m1"
    using assms(2) by (simp_all add: state_le_def)
  have wf: "wf_heap h" "wf_dict h m"
    using assms(1) by (simp_all add: wf_state_def)
  have eq: "map_of m1 ''applicable_frameworks'' = map_of m ''applicable_frameworks''"
    using ml by (rule manifest_le_other) simp
  show ?thesis
  proof (cases "map_of m ''applicable_frameworks''")
    case None
    then show ?thesis using assms(3) eq by (simp add: py_contains_str_def)
  next
    case (Some x)
    have wx: "wf_val h x" using wf(2) Some by (rule wf_dict_map_of)
    show ?thesis
    proof (cases x)
      case (VRef a)
      then have a: "a < length h" using wx by (simp add: wf_val_def)
      show ?thesis
      proof (cases "h1 ! a")
        case (OList xs)
        then have "deref h1 a = Some (OList xs)"
          using a heap_le_length [OF le] by (simp add: deref_Some)
        then have "deref h a = Some (OList xs)"
          using le a by (simp add: heap_le_list_back)
        then show ?thesis
          using assms(3) eq Some VRef \<open>deref h1 a = Some (OList xs)\<close>
          by (simp add: py_contains_str_def)
      next
        case (ODict d1)
        then have d1: "deref h1 a = Some (ODict d1)"
          using a heap_le_length [OF le] by (simp add: deref_Some)
        then obtain d where d: "deref h a = Some (ODict d)" "key_le d d1 ''GDPR''"
          using heap_le_dict_back [OF le a] by blast
        have "map_of d1 ''GDPR'' \<noteq> None"
          using assms(3) eq Some VRef d1 by (simp add: py_contains_str_def map_of_eq_None_iff)
        then have "map_of d ''GDPR'' \<noteq> None"
          using d(2) gdpr_not_written by (auto simp: key_le_def)
        then show ?thesis
          using Some VRef d(1) by (simp add: py_contains_str_def map_of_eq_None_iff)
      qed
    qed (use assms(3) eq Some in \<open>auto simp: py_contains_str_def\<close>)
  qed
qed

lemma check_region_compliance_back:
  assumes "wf_state h m" "state_le h m h1 m1" "check_region_compliance h1 m1 = Inr False"
  shows "check_region_compliance h m = Inr False"
proof -
  have le: "heap_le h h1" using assms(2) by (simp add: state_le_def)
  have g1: "py_contains_str h1 (map_of m1 ''applicable_frameworks'') ''GDPR'' = Inr True"
    using assms(3) by (auto simp: check_region_compliance_def Let_def split: sum.splits if_splits)
  obtain xs where xs: "py_iter h1 (map_of m1 ''services'') = Inr xs"
      "region_check_loop h1 xs = Inr False"
    using assms(3) g1 by (auto simp: check_region_compliance_def Let_def split: sum.splits if_splits)
  have "\<not> (\<forall>x \<in> set xs. \<exists>s. x = VStr s)"
    using xs(2) region_check_loop_strs by blast
  then have b: "py_iter h (map_of m ''services'') = Inr xs" "list_all (wf_val h) xs"
    using services_back [OF assms(1,2) xs(1)] by simp_all
  have "region_check_loop h xs = Inr False"
    using le b(2) xs(2) by (rule region_check_loop_back)
  then show ?thesis
    using contains_gdpr_back [OF assms(1,2) g1] b(1)
    by (simp add: check_region_compliance_def Let_def)
qed

text \<open>After its own correction, a check does not fail.\<close>

lemma flag_true_truthy:
  "flag_true h m sub k \<Longrightarrow> py_get h (map_of m sub) k (VBool False) = Inr v \<Longrightarrow> truthy h v"
  by (auto simp: flag_true_get truthy_def)

lemma check_vpc_isolation_own:
  "flag_true h m ''networking'' ''vpc_enabled'' \<Longrightarrow> check_vpc_isolation h m = Inr True"
  by (simp add: check_vpc_isolation_def Let_def flag_true_get truthy_def)

lemma check_encryption_in_transit_own:
  "flag_true h m ''security_config'' ''encryption_in_transit'' \<Longrightarrow>
     check_encryption_in_transit h m = Inr True"
  by (simp add: check_encryption_in_transit_def Let_def flag_true_get truthy_def)

lemma check_audit_logging_for_phi_own:
  "flag_true h m ''security_config'' ''audit_logging'' \<Longrightarrow>
     check_audit_logging_for_phi h m = Inr True"
  by (simp add: check_audit_logging_for_phi_def Let_def flag_true_get truthy_def)

lemma check_private_endpoints_own:
  "flag_true h m ''networking'' ''private_endpoints'' \<Longrightarrow> check_private_endpoints h m = Inr True"
  by (simp add: check_private_endpoints_def Let_def flag_true_get truthy_def)

lemma check_iam_policies_present_own:
  "flag_true h m ''security_config'' ''iam_policies'' \<Longrightarrow> check_iam_policies_present h m = Inr True"
  by (simp add: check_iam_policies_present_def Let_def flag_true_get truthy_def)

lemma check_no_public_api_for_sensitive_data_own:
  "flag_true h m ''networking'' ''vpc_enabled'' \<Longrightarrow>
   flag_true h m ''networking'' ''subnet_isolation'' \<Longrightarrow>
     check_no_public_api_for_sensitive_data h m = Inr True"
  by (simp add: check_no_public_api_for_sensitive_data_def Let_def flag_true_get truthy_def)

lemma check_encryption_at_rest_own:
  "flag_true h m ''security_config'' ''encryption_at_rest'' \<Longrightarrow>
     check_encryption_at_rest h m \<noteq> Inr False"
  by (auto simp: check_encryption_at_rest_def Let_def flag_true_get truthy_def split: sum.splits)

lemma py_setitem_get:
  "py_setitem h x k v = Inr h' \<Longrightarrow> py_get h' (Some x) k dflt = Inr v"
  by (auto simp: py_setitem_iff py_get_Some_iff deref_Some dict_get_def update_conv')

lemma migrate_regions_check:
  "migrate_regions h xs = Inr h1 \<Longrightarrow> list_all (wf_val h) xs \<Longrightarrow> heap_le h1 h2 \<Longrightarrow>
     region_check_loop h2 xs \<noteq> Inr False"
proof (induction xs arbitrary: h)
  case Nil
  then show ?case by simp
next
  case (Cons x xs)
  have wx: "wf_val h x" and wxs: "list_all (wf_val h) xs"
    using Cons.prems(2) by simp_all
  have le: "heap_le h h1" using migrate_regions_step [OF Cons.prems(1)] by simp
  have le2: "heap_le h h2" using le Cons.prems(3) by (rule heap_le_trans)
  note r = role_le [OF le2 wx]
  obtain role where role: "py_get h (Some x) ''role'' VNone = Inr role"
    using Cons.prems(1) by (cases "py_get h (Some x) ''role'' VNone") auto
  show ?case
  proof (cases "role = VStr ''database''")
    case False
    then have "migrate_regions h xs = Inr h1" using Cons.prems(1) role by simp
    then have "region_check_loop h2 xs \<noteq> Inr False"
      using wxs Cons.prems(3) by (rule Cons.IH)
    then show ?thesis using role False r by simp
  next
    case True
    then obtain h' where h': "py_setitem h x ''region'' (VStr ''eu-gb'') = Inr h'"
        "migrate_regions h' xs = Inr h1"
      using Cons.prems(1) role by (cases "py_setitem h x ''region'' (VStr ''eu-gb'')") auto
    have l: "length h' = length h" using h'(1) by (rule py_setitem_length)
    have wxs': "list_all (wf_val h') xs"
      using wxs l by (simp add: list_all_iff wf_val_def split: pyval.splits)
    have wx': "wf_val h' x" using wx l by (simp add: wf_val_def split: pyval.splits)
    have IH: "region_check_loop h2 xs \<noteq> Inr False"
      using h'(2) wxs' Cons.prems(3) by (rule Cons.IH)
    have le': "heap_le h' h2"
      using migrate_regions_step [OF h'(2)] Cons.prems(3) by (auto intro: heap_le_trans)
    have "py_get h' (Some x) ''region'' (VStr '''') = Inr (VStr ''eu-gb'')"
      using h'(1) by (rule py_setitem_get)
    then obtain r2 where r2: "py_get h2 (Some x) ''region'' (VStr '''') = Inr r2"
        "r2 = VStr ''eu-gb'' \<or> (''region'', r2) \<in> written"
      using py_get_le [OF le' wx'] by blast
    then have "r2 = VStr ''eu-gb''" by (auto simp: written_def)
    then show ?thesis using role True r r2(1) IH by simp
  qed
qed

lemma check_region_compliance_own:
  assumes "correct_region_gdpr h m = Inr (h1, m1)" "wf_state h m"
  shows "check_region_compliance h1 m1 \<noteq> Inr False"
proof
  assume f: "check_region_compliance h1 m1 = Inr False"
  obtain svcs where it: "py_iter h (map_of m ''services'') = Inr svcs"
      and mg: "migrate_regions h svcs = Inr h1" and m1: "m1 = m"
    using assms(1) by (auto simp: correct_region_gdpr_def split: sum.splits)
  note st = correct_region_gdpr_step [OF assms]
  obtain xs where xs: "py_iter h1 (map_of m1 ''services'') = Inr xs"
      "region_check_loop h1 xs = Inr False"
    using f by (auto simp: check_region_compliance_def Let_def split: sum.splits if_splits)
  have "\<not> (\<forall>x \<in> set xs. \<exists>s. x = VStr s)"
    using xs(2) region_check_loop_strs by blast
  then have b: "py_iter h (map_of m ''services'') = Inr xs" "list_all (wf_val h) xs"
    using services_back [OF assms(2) _ xs(1)] st by simp_all
  then have "svcs = xs" using it by simp
  then have "region_check_loop h1 xs \<noteq> Inr False"
    using migrate_regions_check [OF mg _ heap_le_refl] b(2) by simp
  then show False using xs(2) by simp
qed

section \<open>The correction pass and the re-validation\<close>

lemma policy_simps:
  "policy_id POL_HIPAA_001 = ''POL-HIPAA-001''" "check_fn POL_HIPAA_001 = check_vpc_isolation"
  "correction_fn POL_HIPAA_001 = correct_vpc_isolation"
  "policy_id POL_HIPAA_002 = ''POL-HIPAA-002''" "check_fn POL_HIPAA_002 = check_encryption_at_rest"
  "correction_fn POL_HIPAA_002 = correct_encryption_at_rest"
  "policy_id POL_HIPAA_003 = ''POL-HIPAA-003''" "check_fn POL_HIPAA_003 = check_audit_logging_for_phi"
  "correction_fn POL_HIPAA_003 = correct_audit_logging"
  "policy_id POL_IBM_001 = ''POL-IBM-001''" "check_fn POL_IBM_001 = check_encryption_in_transit"
  "correction_fn POL_IBM_001 = correct_encryption_in_transit"
  "policy_id POL_IBM_002 = ''POL-IBM-002''" "check_fn POL_IBM_002 = check_private_endpoints"
  "correction_fn POL_IBM_002 = correct_private_endpoints"
  "policy_id POL_SEC_001 = ''POL-SEC-001''" "check_fn POL_SEC_001 = check_no_public_api_for_sensitive_data"
  "correction_fn POL_SEC_001 = correct_public_api_exposure"
  "policy_id POL_SEC_002 = ''POL-SEC-002''" "check_fn POL_SEC_002 = check_iam_policies_present"
  "correction_fn POL_SEC_002 = correct_iam_policies"
  "policy_id POL_GDPR_001 = ''POL-GDPR-001''" "check_fn POL_GDPR_001 = check_region_compliance"
  "correction_fn POL_GDPR_001 = correct_region_gdpr"
  by (simp_all add: POL_HIPAA_001_def POL_HIPAA_002_def POL_HIPAA_003_def POL_IBM_001_def
      POL_IBM_002_def POL_SEC_001_def POL_SEC_002_def POL_GDPR_001_def)

lemma kb_cases:
  "p \<in> set POLICY_KNOWLEDGE_BASE \<Longrightarrow>
     p = POL_HIPAA_001 \<or> p = POL_HIPAA_002 \<or> p = POL_HIPAA_003 \<or> p = POL_IBM_001 \<or>
     p = POL_IBM_002 \<or> p = POL_SEC_001 \<or> p = POL_SEC_002 \<or> p = POL_GDPR_001"
  by (simp add: POLICY_KNOWLEDGE_BASE_def)

lemma kb_ids_distinct: "distinct (map policy_id POLICY_KNOWLEDGE_BASE)"
  by (simp add: POLICY_KNOWLEDGE_BASE_def policy_simps)

lemma kb_ids:
  "p \<in> set POLICY_KNOWLEDGE_BASE \<Longrightarrow> q \<in> set POLICY_KNOWLEDGE_BASE \<Longrightarrow>
     policy_id p = policy_id q \<Longrightarrow> p = q"
  using kb_ids_distinct by (auto simp: distinct_map inj_on_def)

lemma kb_step:
  assumes "p \<in> set POLICY_KNOWLEDGE_BASE" "wf_state h m" "correction_fn p h m = Inr (h1, m1)"
  shows "state_le h m h1 m1 \<and> wf_state h1 m1 \<and> check_fn p h1 m1 \<noteq> Inr False"
proof -
  consider "p = POL_HIPAA_001" | "p = POL_HIPAA_002" | "p = POL_HIPAA_003" | "p = POL_IBM_001"
    | "p = POL_IBM_002" | "p = POL_SEC_001" | "p = POL_SEC_002" | "p = POL_GDPR_001"
    using kb_cases [OF assms(1)] by blast
  then show ?thesis
  proof cases
    case 1
    then show ?thesis
      using correct_vpc_isolation_step [OF _ assms(2), of h1 m1] assms(3)
      by (simp add: policy_simps check_vpc_isolation_own)
  next
    case 2
    then show ?thesis
      using correct_encryption_at_rest_step [OF _ assms(2), of h1 m1] assms(3)
      by (simp add: policy_simps check_encryption_at_rest_own)
  next
    case 3
    then show ?thesis
      using correct_audit_logging_step [OF _ assms(2), of h1 m1] assms(3)
      by (simp add: policy_simps check_audit_logging_for_phi_own)
  next
    case 4
    then show ?thesis
      using correct_encryption_in_transit_step [OF _ assms(2), of h1 m1] assms(3)
      by (simp add: policy_simps check_encryption_in_transit_own)
  next
    case 5
    then show ?thesis
      using correct_private_endpoints_step [OF _ assms(2), of h1 m1] assms(3)
      by (simp add: policy_simps check_private_endpoints_own)
  next
    case 6
    then show ?thesis
      using correct_public_api_exposure_step [OF _ assms(2), of h1 m1] assms(3)
      by (simp add: policy_simps check_no_public_api_for_sensitive_data_own)
  next
    case 7
    then show ?thesis
      using correct_iam_policies_step [OF _ assms(2), of h1 m1] assms(3)
      by (simp add: policy_simps check_iam_policies_present_own)
  next
    case 8
    then show ?thesis
      using correct_region_gdpr_step [OF _ assms(2), of h1 m1]
        check_region_compliance_own [OF _ assms(2), of h1 m1] assms(3)
      by (simp add: policy_simps)
  qed
qed

lemma kb_back:
  assumes "p \<in> set POLICY_KNOWLEDGE_BASE" "wf_state h m" "state_le h m h1 m1"
    and "check_fn p h1 m1 = Inr False"
  shows "check_fn p h m = Inr False"
proof -
  consider "p = POL_HIPAA_001" | "p = POL_HIPAA_002" | "p = POL_HIPAA_003" | "p = POL_IBM_001"
    | "p = POL_IBM_002" | "p = POL_SEC_001" | "p = POL_SEC_002" | "p = POL_GDPR_001"
    using kb_cases [OF assms(1)] by blast
  then show ?thesis
  proof cases
    case 1
    then show ?thesis
      using check_vpc_isolation_back [OF assms(2,3)] assms(4) by (simp add: policy_simps)
  next
    case 2
    then show ?thesis
      using check_encryption_at_rest_back [OF assms(2,3)] assms(4) by (simp add: policy_simps)
  next
    case 3
    then show ?thesis
      using check_audit_logging_for_phi_back [OF assms(2,3)] assms(4) by (simp add: policy_simps)
  next
    case 4
    then show ?thesis
      using check_encryption_in_transit_back [OF assms(2,3)] assms(4) by (simp add: policy_simps)
  next
    case 5
    then show ?thesis
      using check_private_endpoints_back [OF assms(2,3)] assms(4) by (simp add: policy_simps)
  next
    case 6
    then show ?thesis
      using check_no_public_api_for_sensitive_data_back [OF assms(2,3)] assms(4)
      by (simp add: policy_simps)
  next
    case 7
    then show ?thesis
      using check_iam_policies_present_back [OF assms(2,3)] assms(4) by (simp add: policy_simps)
  next
    case 8
    then show ?thesis
      using check_region_compliance_back [OF assms(2,3)] assms(4) by (simp add: policy_simps)
  qed
qed

text \<open>The correction pass: a check that fails after it failed before it and was not corrected.\<close>

lemma correction_pass_sound:
  assumes "set policies \<subseteq> set POLICY_KNOWLEDGE_BASE"
  shows "wf_state h m \<Longrightarrow> correction_pass policies found h m = Inr (h1, m1, done) \<Longrightarrow>
     wf_state h1 m1 \<and>
     (\<forall>p \<in> set POLICY_KNOWLEDGE_BASE. check_fn p h1 m1 = Inr False \<longrightarrow>
        check_fn p h m = Inr False \<and>
        (\<forall>v \<in> set found. find (\<lambda>q. policy_id q = v_policy_id v) policies \<noteq> Some p))"
proof (induction found arbitrary: h m "done")
  case Nil
  then show ?case by simp
next
  case (Cons v rest)
  show ?case
  proof (cases "find (\<lambda>q. policy_id q = v_policy_id v) policies")
    case None
    then have "correction_pass policies rest h m = Inr (h1, m1, done)"
      using Cons.prems(2) by simp
    from Cons.IH [OF Cons.prems(1) this] None show ?thesis by simp
  next
    case (Some q)
    have q: "q \<in> set POLICY_KNOWLEDGE_BASE"
      using Some assms by (auto simp: find_Some_iff)
    obtain h' m' where c: "correction_fn q h m = Inr (h', m')"
      using Cons.prems(2) Some by (cases "correction_fn q h m") auto
    obtain done' where r: "correction_pass policies rest h' m' = Inr (h1, m1, done')"
      using Cons.prems(2) Some c by (cases "correction_pass policies rest h' m'") auto
    note st = kb_step [OF q Cons.prems(1) c]
    have IH: "wf_state h1 m1 \<and>
       (\<forall>p \<in> set POLICY_KNOWLEDGE_BASE. check_fn p h1 m1 = Inr False \<longrightarrow>
          check_fn p h' m' = Inr False \<and>
          (\<forall>v \<in> set rest. find (\<lambda>q. policy_id q = v_policy_id v) policies \<noteq> Some p))"
      using Cons.IH [OF _ r] st by simp
    have "check_fn p h m = Inr False \<and>
          (\<forall>v \<in> set (v # rest). find (\<lambda>q. policy_id q = v_policy_id v) policies \<noteq> Some p)"
      if p: "p \<in> set POLICY_KNOWLEDGE_BASE" "check_fn p h1 m1 = Inr False" for p
    proof -
      have f: "check_fn p h' m' = Inr False"
        and n: "\<forall>v \<in> set rest. find (\<lambda>q. policy_id q = v_policy_id v) policies \<noteq> Some p"
        using IH p by simp_all
      have "check_fn p h m = Inr False"
        using kb_back [OF p(1) Cons.prems(1) _ f] st by simp
      moreover have "p \<noteq> q" using f st by auto
      ultimately show ?thesis using n Some by simp
    qed
    then show ?thesis using IH by blast
  qed
qed

lemma make_violation_id: "make_violation p = Inr v \<Longrightarrow> v_policy_id v = policy_id p"
  by (auto simp: make_violation_def split: sum.splits)

lemma audit_pass1_ids:
  "audit_pass1 ps h m = Inr found \<Longrightarrow> v \<in> set found \<Longrightarrow> \<exists>p \<in> set ps. policy_id p = v_policy_id v"
proof (induction ps arbitrary: found)
  case Nil
  then show ?case by simp
next
  case (Cons p ps)
  then show ?case
    by (fastforce split: sum.splits if_splits dest: make_violation_id)
qed

lemma audit_pass1_complete:
  "audit_pass1 ps h m = Inr found \<Longrightarrow> p \<in> set ps \<Longrightarrow> check_fn p h m = Inr False \<Longrightarrow>
     \<exists>v \<in> set found. v_policy_id v = policy_id p"
proof (induction ps arbitrary: found)
  case Nil
  then show ?case by simp
next
  case (Cons q ps)
  then show ?case
    by (fastforce split: sum.splits if_splits dest: make_violation_id)
qed

lemma audit_pass2_checks:
  "audit_pass2 ps h m = Inr remaining \<Longrightarrow> p \<in> set ps \<Longrightarrow> \<exists>b. check_fn p h m = Inr b"
  by (induction ps arbitrary: remaining) (auto split: sum.splits)

lemma audit_pass2_empty:
  "audit_pass2 ps h m = Inr remaining \<Longrightarrow> \<forall>p \<in> set ps. check_fn p h m \<noteq> Inr False \<Longrightarrow>
     remaining = []"
  by (induction ps arbitrary: remaining) (auto split: sum.splits if_splits)

lemma find_by_id:
  assumes "set policies \<subseteq> set POLICY_KNOWLEDGE_BASE" "p \<in> set policies"
  shows "find (\<lambda>q. policy_id q = policy_id p) policies = Some p"
proof (cases "find (\<lambda>q. policy_id q = policy_id p) policies")
  case None
  then show ?thesis using assms(2) by (auto simp: find_None_iff)
next
  case (Some q)
  then have "q \<in> set policies" "policy_id q = policy_id p"
    by (auto simp: find_Some_iff)
  then have "q = p" using assms kb_ids by blast
  then show ?thesis using Some by simp
qed

lemma revalidation_sound:
  assumes "wf_heap h" "wf_dict h audit_manifest"
    and "set policies \<subseteq> set POLICY_KNOWLEDGE_BASE"
    and "audit_pass1 policies h audit_manifest = Inr found"
    and "correction_pass policies found h audit_manifest = Inr (h1, corrected, done)"
    and "audit_pass2 policies h1 corrected = Inr remaining"
  shows "remaining = [] \<and> (\<forall>p \<in> set policies. check_fn p h1 corrected = Inr True)"
proof -
  have wf: "wf_state h audit_manifest"
    using assms(1,2) by (simp add: wf_state_def)
  note s = correction_pass_sound [OF assms(3) wf assms(5)]
  have ok: "check_fn p h1 corrected \<noteq> Inr False" if p: "p \<in> set policies" for p
  proof
    assume f: "check_fn p h1 corrected = Inr False"
    have kb: "p \<in> set POLICY_KNOWLEDGE_BASE" using p assms(3) by blast
    have f0: "check_fn p h audit_manifest = Inr False"
      and n: "\<forall>v \<in> set found. find (\<lambda>q. policy_id q = v_policy_id v) policies \<noteq> Some p"
      using s kb f by simp_all
    obtain v where v: "v \<in> set found" "v_policy_id v = policy_id p"
      using audit_pass1_complete [OF assms(4) p f0] by blast
    have "find (\<lambda>q. policy_id q = v_policy_id v) policies = Some p"
      using find_by_id [OF assms(3) p] v(2) by simp
    then show False using n v(1) by blast
  qed
  have "remaining = []"
    using audit_pass2_empty [OF assms(6)] ok by blast
  moreover have "check_fn p h1 corrected = Inr True" if p: "p \<in> set policies" for p
    using audit_pass2_checks [OF assms(6) p] ok [OF p] by (cases "check_fn p h1 corrected") auto
  ultimately show ?thesis by blast
qed

section \<open>The re-validation completes\<close>

lemma is_dict_iff: "is_dict h x \<longleftrightarrow> (\<exists>a d. x = VRef a \<and> deref h a = Some (ODict d))"
  by (auto simp: is_dict_def split: pyval.splits option.splits pyobj.splits)

lemma is_dict_wf: "is_dict h x \<Longrightarrow> wf_val h x"
  by (auto simp: is_dict_iff wf_val_def deref_Some)

lemma is_dict_le: "heap_le h h1 \<Longrightarrow> is_dict h x \<Longrightarrow> is_dict h1 x"
  by (auto simp: is_dict_iff dest: heap_le_dict)

lemma is_dict_get: "is_dict h x \<Longrightarrow> \<exists>r. py_get h (Some x) k dflt = Inr r"
  by (auto simp: is_dict_iff py_get_Some_iff)

lemma is_dict_setitem: "is_dict h x \<Longrightarrow> \<exists>h1. py_setitem h x k v = Inr h1"
  by (auto simp: is_dict_iff py_setitem_iff)

lemma region_check_loop_total:
  "list_all (is_dict h) xs \<Longrightarrow> \<exists>b. region_check_loop h xs = Inr b"
proof (induction xs)
  case Nil
  then show ?case by auto
next
  case (Cons x xs)
  have x: "is_dict h x" using Cons.prems by simp
  obtain role where 1: "py_get h (Some x) ''role'' VNone = Inr role"
    using is_dict_get [OF x] by blast
  obtain region where 2: "py_get h (Some x) ''region'' (VStr '''') = Inr region"
    using is_dict_get [OF x] by blast
  show ?case using Cons 1 2 by auto
qed

lemma services_not_dict_le:
  assumes "wf_state h m" "state_le h m h1 m1" "services_not_dict h m"
  shows "services_not_dict h1 m1"
proof -
  have le: "heap_le h h1" and ml: "manifest_le h m m1"
    using assms(2) by (simp_all add: state_le_def)
  have wf: "wf_heap h" "wf_dict h m"
    using assms(1) by (simp_all add: wf_state_def)
  have eq: "map_of m1 ''services'' = map_of m ''services''"
    using ml by (rule manifest_le_other) simp
  show ?thesis
  proof (cases "map_of m ''services''")
    case None
    then show ?thesis using eq by (simp add: services_not_dict_def)
  next
    case (Some x)
    show ?thesis
    proof (cases x)
      case (VRef a)
      have "wf_val h (VRef a)" using wf(2) Some VRef by (auto intro: wf_dict_map_of)
      then have a: "a < length h" by (simp add: wf_val_def)
      then obtain xs where "deref h a = Some (OList xs)"
        using assms(3) Some VRef
        by (cases "h ! a") (auto simp: services_not_dict_def deref_def)
      then have "deref h1 a = Some (OList xs)" using le by (simp add: heap_le_list)
      then show ?thesis using eq Some VRef by (simp add: services_not_dict_def)
    qed (use eq Some in \<open>auto simp: services_not_dict_def\<close>)
  qed
qed

text \<open>Reads that complete before a correction complete after it.\<close>

lemma py_get_completes:
  "py_get h obj k dflt = Inr v \<Longrightarrow> \<exists>w. py_get h obj k' dflt' = Inr w"
  by (cases "py_get h obj k' dflt'") (auto dest: py_get_error [where k' = k and dflt' = dflt])

lemma flag_read_forward:
  assumes "wf_state h m" "wf_state h1 m1" "state_le h m h1 m1"
    and "py_get h (map_of m sub) k dflt = Inr v"
  shows "\<exists>v1. py_get h1 (map_of m1 sub) k dflt = Inr v1"
proof -
  have le: "heap_le h h1" and ml: "manifest_le h m m1"
    using assms(3) by (simp_all add: state_le_def)
  have wf: "wf_heap h" "wf_dict h m" "wf_dict h1 m1"
    using assms(1,2) by (simp_all add: wf_state_def)
  from manifest_le_cases [OF ml, of sub]
  show ?thesis
  proof
    assume eq: "map_of m1 sub = map_of m sub"
    show ?thesis
    proof (cases "map_of m sub")
      case None
      then show ?thesis using eq by (simp add: py_get_None)
    next
      case (Some x)
      have wx: "wf_val h x" using wf(2) Some by (rule wf_dict_map_of)
      have g: "py_get h (Some x) k dflt = Inr v" using assms(4) Some by simp
      show ?thesis
        using py_get_le [OF le wx g] eq Some by auto
    qed
  next
    assume "map_of m sub = None \<and> (\<exists>a. map_of m1 sub = Some (VRef a) \<and> length h \<le> a)"
    then obtain a where a: "map_of m1 sub = Some (VRef a)" "length h \<le> a"
      by blast
    have "wf_val h1 (VRef a)" using wf(3) a(1) by (rule wf_dict_map_of)
    then have "deref h1 a = Some (h1 ! a)" by (simp add: wf_val_def deref_def)
    then obtain d1 where "deref h1 a = Some (ODict d1)"
      using heap_le_new [OF le a(2)] by force
    then show ?thesis using a(1) by (simp add: py_get_Some_iff)
  qed
qed

lemma check_vpc_isolation_forward:
  assumes "wf_state h m" "wf_state h1 m1" "state_le h m h1 m1" "check_vpc_isolation h m = Inr b"
  shows "\<exists>b1. check_vpc_isolation h1 m1 = Inr b1"
proof (cases "dict_get m ''detected_sensitivity'' (VStr ''public'') \<in> {VStr ''PHI'', VStr ''PII''}")
  case True
  then obtain v where "py_get h (map_of m ''networking'') ''vpc_enabled'' (VBool False) = Inr v"
    using assms(4) by (auto simp: check_vpc_isolation_def Let_def split: sum.splits)
  then obtain v1 where "py_get h1 (map_of m1 ''networking'') ''vpc_enabled'' (VBool False) = Inr v1"
    using flag_read_forward [OF assms(1,2,3)] by blast
  then show ?thesis by (auto simp: check_vpc_isolation_def Let_def)
next
  case False
  then show ?thesis
    using sensitivity_le [OF assms(3)] by (auto simp: check_vpc_isolation_def Let_def)
qed

lemma check_encryption_in_transit_forward:
  assumes "wf_state h m" "wf_state h1 m1" "state_le h m h1 m1" "check_encryption_in_transit h m = Inr b"
  shows "\<exists>b1. check_encryption_in_transit h1 m1 = Inr b1"
proof -
  obtain v where "py_get h (map_of m ''security_config'') ''encryption_in_transit'' (VBool False) = Inr v"
    using assms(4) by (auto simp: check_encryption_in_transit_def Let_def split: sum.splits)
  then obtain v1 where
    "py_get h1 (map_of m1 ''security_config'') ''encryption_in_transit'' (VBool False) = Inr v1"
    using flag_read_forward [OF assms(1,2,3)] by blast
  then show ?thesis by (auto simp: check_encryption_in_transit_def Let_def)
qed

lemma check_audit_logging_for_phi_forward:
  assumes "wf_state h m" "wf_state h1 m1" "state_le h m h1 m1" "check_audit_logging_for_phi h m = Inr b"
  shows "\<exists>b1. check_audit_logging_for_phi h1 m1 = Inr b1"
proof (cases "dict_get m ''detected_sensitivity'' (VStr ''public'') = VStr ''PHI''")
  case True
  then obtain v where "py_get h (map_of m ''security_config'') ''audit_logging'' (VBool False) = Inr v"
    using assms(4) by (auto simp: check_audit_logging_for_phi_def Let_def split: sum.splits)
  then obtain v1 where "py_get h1 (map_of m1 ''security_config'') ''audit_logging'' (VBool False) = Inr v1"
    using flag_read_forward [OF assms(1,2,3)] by blast
  then show ?thesis by (auto simp: check_audit_logging_for_phi_def Let_def)
next
  case False
  then show ?thesis
    using sensitivity_le [OF assms(3)] by (auto simp: check_audit_logging_for_phi_def Let_def)
qed

lemma check_private_endpoints_forward:
  assumes "wf_state h m" "wf_state h1 m1" "state_le h m h1 m1" "check_private_endpoints h m = Inr b"
  shows "\<exists>b1. check_private_endpoints h1 m1 = Inr b1"
proof (cases "dict_get m ''detected_sensitivity'' (VStr ''public'') \<in> {VStr ''PHI'', VStr ''PCI''}")
  case True
  then obtain v where "py_get h (map_of m ''networking'') ''private_endpoints'' (VBool False) = Inr v"
    using assms(4) by (auto simp: check_private_endpoints_def Let_def split: sum.splits)
  then obtain v1 where "py_get h1 (map_of m1 ''networking'') ''private_endpoints'' (VBool False) = Inr v1"
    using flag_read_forward [OF assms(1,2,3)] by blast
  then show ?thesis by (auto simp: check_private_endpoints_def Let_def)
next
  case False
  then show ?thesis
    using sensitivity_le [OF assms(3)] by (auto simp: check_private_endpoints_def Let_def)
qed

lemma check_iam_policies_present_forward:
  assumes "wf_state h m" "wf_state h1 m1" "state_le h m h1 m1" "check_iam_policies_present h m = Inr b"
  shows "\<exists>b1. check_iam_policies_present h1 m1 = Inr b1"
proof (cases "dict_get m ''detected_sensitivity'' (VStr ''public'') \<in> {VStr ''PHI'', VStr ''PCI''}")
  case True
  then obtain v where "py_get h (map_of m ''security_config'') ''iam_policies'' (VBool False) = Inr v"
    using assms(4) by (auto simp: check_iam_policies_present_def Let_def split: sum.splits)
  then obtain v1 where "py_get h1 (map_of m1 ''security_config'') ''iam_policies'' (VBool False) = Inr v1"
    using flag_read_forward [OF assms(1,2,3)] by blast
  then show ?thesis by (auto simp: check_iam_policies_present_def Let_def)
next
  case False
  then show ?thesis
    using sensitivity_le [OF assms(3)] by (auto simp: check_iam_policies_present_def Let_def)
qed

lemma check_no_public_api_for_sensitive_data_forward:
  assumes "wf_state h m" "wf_state h1 m1" "state_le h m h1 m1"
    and "check_no_public_api_for_sensitive_data h m = Inr b"
  shows "\<exists>b1. check_no_public_api_for_sensitive_data h1 m1 = Inr b1"
proof (cases "dict_get m ''detected_sensitivity'' (VStr ''public'')
                \<in> {VStr ''PHI'', VStr ''PII'', VStr ''PCI''}")
  case True
  then obtain v where "py_get h (map_of m ''networking'') ''vpc_enabled'' (VBool False) = Inr v"
    using assms(4)
    by (auto simp: check_no_public_api_for_sensitive_data_def Let_def split: sum.splits)
  then obtain v1 where v1: "py_get h1 (map_of m1 ''networking'') ''vpc_enabled'' (VBool False) = Inr v1"
    using flag_read_forward [OF assms(1,2,3)] by blast
  obtain w1 where "py_get h1 (map_of m1 ''networking'') ''subnet_isolation'' (VBool False) = Inr w1"
    using py_get_completes [OF v1] by blast
  then show ?thesis
    using v1 by (auto simp: check_no_public_api_for_sensitive_data_def Let_def)
next
  case False
  then show ?thesis
    using sensitivity_le [OF assms(3)]
    by (auto simp: check_no_public_api_for_sensitive_data_def Let_def)
qed

text \<open>The services, read again after a correction, when they are not a dictionary.\<close>

lemma services_forward:
  assumes "wf_state h m" "state_le h m h1 m1" "services_not_dict h m"
    and "py_iter h (map_of m ''services'') = Inr xs"
  shows "py_iter h1 (map_of m1 ''services'') = Inr xs \<and>
         (list_all (wf_val h) xs \<or> (\<forall>x \<in> set xs. \<exists>s. x = VStr s))"
proof -
  have le: "heap_le h h1" and ml: "manifest_le h m m1"
    using assms(2) by (simp_all add: state_le_def)
  have wf: "wf_heap h" "wf_dict h m"
    using assms(1) by (simp_all add: wf_state_def)
  have eq: "map_of m1 ''services'' = map_of m ''services''"
    using ml by (rule manifest_le_other) simp
  show ?thesis
  proof (cases "map_of m ''services''")
    case None
    then show ?thesis using assms(4) eq by (simp add: py_iter_def)
  next
    case (Some x)
    show ?thesis
    proof (cases x)
      case (VRef a)
      then obtain ys where ys: "deref h a = Some (OList ys)"
        using assms(3,4) Some
        by (auto simp: services_not_dict_def py_iter_def split: option.splits pyobj.splits)
      then have "xs = ys" using assms(4) Some VRef by (simp add: py_iter_def)
      moreover have "deref h1 a = Some (OList ys)" using le ys by (rule heap_le_list)
      moreover have "list_all (wf_val h) ys" using wf(1) ys by (rule wf_heap_list)
      ultimately show ?thesis using eq Some VRef by (simp add: py_iter_def)
    next
      case (VStr s)
      then show ?thesis using assms(4) eq Some by (auto simp: py_iter_def)
    qed (use assms(4) eq Some in \<open>auto simp: py_iter_def\<close>)
  qed
qed

lemma any_database_strs_Nil:
  "\<forall>x \<in> set xs. \<exists>s. x = VStr s \<Longrightarrow> any_database h xs = Inr b \<Longrightarrow> xs = []"
  by (cases xs) (auto simp: py_get_str)

lemma region_check_loop_strs_Nil:
  "\<forall>x \<in> set xs. \<exists>s. x = VStr s \<Longrightarrow> region_check_loop h xs = Inr b \<Longrightarrow> xs = []"
  by (cases xs) (auto simp: py_get_str)

lemma check_encryption_at_rest_forward:
  assumes "wf_state h m" "wf_state h1 m1" "state_le h m h1 m1" "services_not_dict h m"
    and "check_encryption_at_rest h m = Inr b"
  shows "\<exists>b1. check_encryption_at_rest h1 m1 = Inr b1"
proof -
  have le: "heap_le h h1" using assms(3) by (simp add: state_le_def)
  obtain xs where xs: "py_iter h (map_of m ''services'') = Inr xs"
    using assms(5) by (auto simp: check_encryption_at_rest_def Let_def split: sum.splits)
  obtain db where db: "any_database h xs = Inr db"
    using assms(5) xs by (auto simp: check_encryption_at_rest_def Let_def split: sum.splits)
  note f = services_forward [OF assms(1,3,4) xs]
  have db1: "any_database h1 xs = Inr db"
  proof (cases "list_all (wf_val h) xs")
    case True
    then show ?thesis using any_database_le [OF le] db by simp
  next
    case False
    then have "xs = []" using f db any_database_strs_Nil by blast
    then show ?thesis using db by simp
  qed
  show ?thesis
  proof (cases db)
    case True
    then obtain v where
      "py_get h (map_of m ''security_config'') ''encryption_at_rest'' (VBool False) = Inr v"
      using assms(5) xs db by (auto simp: check_encryption_at_rest_def Let_def split: sum.splits)
    then obtain v1 where
      "py_get h1 (map_of m1 ''security_config'') ''encryption_at_rest'' (VBool False) = Inr v1"
      using flag_read_forward [OF assms(1,2,3)] by blast
    then show ?thesis
      using f db1 by (auto simp: check_encryption_at_rest_def Let_def)
  next
    case False
    then show ?thesis
      using f db1 by (auto simp: check_encryption_at_rest_def Let_def)
  qed
qed

lemma region_check_loop_forward:
  "heap_le h h1 \<Longrightarrow> list_all (wf_val h) xs \<Longrightarrow> region_check_loop h xs = Inr True \<Longrightarrow>
     region_check_loop h1 xs = Inr True"
proof (induction xs)
  case Nil
  then show ?case by simp
next
  case (Cons x xs)
  have wx: "wf_val h x" and wxs: "list_all (wf_val h) xs"
    using Cons.prems(2) by simp_all
  note r = role_le [OF Cons.prems(1) wx]
  obtain role where role: "py_get h (Some x) ''role'' VNone = Inr role"
    using Cons.prems(3) by (cases "py_get h (Some x) ''role'' VNone") auto
  show ?case
  proof (cases "role = VStr ''database''")
    case False
    then show ?thesis
      using Cons.prems(3) Cons.IH [OF Cons.prems(1) wxs] role r by simp
  next
    case True
    obtain r0 where r0: "py_get h (Some x) ''region'' (VStr '''') = Inr r0"
      using Cons.prems(3) role True by (cases "py_get h (Some x) ''region'' (VStr '''')") auto
    have in_eu: "r0 \<in> {VStr ''eu-gb'', VStr ''eu-de'', VStr ''eu-fr''}"
      and rest: "region_check_loop h xs = Inr True"
      using Cons.prems(3) role True r0 by (auto split: if_splits)
    obtain r1 where r1: "py_get h1 (Some x) ''region'' (VStr '''') = Inr r1"
        "r1 = r0 \<or> (''region'', r1) \<in> written"
      using py_get_le [OF Cons.prems(1) wx r0] by blast
    have "r1 \<in> {VStr ''eu-gb'', VStr ''eu-de'', VStr ''eu-fr''}"
      using r1(2) in_eu by (auto simp: written_def)
    then show ?thesis
      using Cons.IH [OF Cons.prems(1) wxs rest] role True r r1(1) by simp
  qed
qed

lemma contains_gdpr_forward:
  assumes "wf_state h m" "state_le h m h1 m1"
    and "py_contains_str h (map_of m ''applicable_frameworks'') ''GDPR'' = Inr g"
  shows "py_contains_str h1 (map_of m1 ''applicable_frameworks'') ''GDPR'' = Inr g"
proof -
  have le: "heap_le h h1" and ml: "manifest_le h m m1"
    using assms(2) by (simp_all add: state_le_def)
  have eq: "map_of m1 ''applicable_frameworks'' = map_of m ''applicable_frameworks''"
    using ml by (rule manifest_le_other) simp
  show ?thesis
  proof (cases "map_of m ''applicable_frameworks''")
    case None
    then show ?thesis using assms(3) eq by (simp add: py_contains_str_def)
  next
    case (Some x)
    show ?thesis
    proof (cases x)
      case (VRef a)
      then obtain ob where ob: "deref h a = Some ob"
        using assms(3) Some by (auto simp: py_contains_str_def split: option.splits)
      show ?thesis
      proof (cases ob)
        case (OList xs)
        then have "deref h1 a = Some (OList xs)" using le ob by (simp add: heap_le_list)
        then show ?thesis using assms(3) eq Some VRef ob OList by (simp add: py_contains_str_def)
      next
        case (ODict d)
        then obtain d1 where d1: "deref h1 a = Some (ODict d1)" "key_le d d1 ''GDPR''"
          using heap_le_dict [OF le] ob by blast
        have "map_of d1 ''GDPR'' = map_of d ''GDPR''"
          using d1(2) gdpr_not_written by (auto simp: key_le_def)
        then have "(''GDPR'' \<in> fst ` set d1) = (''GDPR'' \<in> fst ` set d)"
          using map_of_eq_None_iff [of d1 "''GDPR''"] map_of_eq_None_iff [of d "''GDPR''"] by simp
        then show ?thesis using assms(3) eq Some VRef ob ODict d1(1) by (simp add: py_contains_str_def)
      qed
    qed (use assms(3) eq Some in \<open>auto simp: py_contains_str_def\<close>)
  qed
qed

lemma check_region_compliance_forward:
  assumes "wf_state h m" "state_le h m h1 m1" "services_not_dict h m"
    and "check_region_compliance h m = Inr True"
  shows "check_region_compliance h1 m1 = Inr True"
proof -
  have le: "heap_le h h1" using assms(2) by (simp add: state_le_def)
  obtain g where g: "py_contains_str h (map_of m ''applicable_frameworks'') ''GDPR'' = Inr g"
    using assms(4) by (auto simp: check_region_compliance_def Let_def split: sum.splits)
  note g1 = contains_gdpr_forward [OF assms(1,2) g]
  show ?thesis
  proof (cases g)
    case False
    then show ?thesis using g1 by (simp add: check_region_compliance_def)
  next
    case True
    then obtain xs where xs: "py_iter h (map_of m ''services'') = Inr xs"
        "region_check_loop h xs = Inr True"
      using assms(4) g by (auto simp: check_region_compliance_def Let_def split: sum.splits)
    note f = services_forward [OF assms(1,2,3) xs(1)]
    have "region_check_loop h1 xs = Inr True"
    proof (cases "list_all (wf_val h) xs")
      case True
      then show ?thesis using region_check_loop_forward [OF le] xs(2) by simp
    next
      case False
      then have "xs = []" using f xs(2) region_check_loop_strs_Nil by blast
      then show ?thesis by simp
    qed
    then show ?thesis using True g1 f by (simp add: check_region_compliance_def)
  qed
qed

lemma gdpr_policy_distinct:
  "POL_HIPAA_001 \<noteq> POL_GDPR_001" "POL_HIPAA_002 \<noteq> POL_GDPR_001" "POL_HIPAA_003 \<noteq> POL_GDPR_001"
  "POL_IBM_001 \<noteq> POL_GDPR_001" "POL_IBM_002 \<noteq> POL_GDPR_001" "POL_SEC_001 \<noteq> POL_GDPR_001"
  "POL_SEC_002 \<noteq> POL_GDPR_001"
proof -
  have "\<And>p. policy_id p \<noteq> policy_id POL_GDPR_001 \<Longrightarrow> p \<noteq> POL_GDPR_001" by auto
  then show "POL_HIPAA_001 \<noteq> POL_GDPR_001" "POL_HIPAA_002 \<noteq> POL_GDPR_001"
    "POL_HIPAA_003 \<noteq> POL_GDPR_001" "POL_IBM_001 \<noteq> POL_GDPR_001" "POL_IBM_002 \<noteq> POL_GDPR_001"
    "POL_SEC_001 \<noteq> POL_GDPR_001" "POL_SEC_002 \<noteq> POL_GDPR_001"
    by (simp_all add: policy_simps)
qed

lemma kb_forward:
  assumes "p \<in> set POLICY_KNOWLEDGE_BASE" "p \<noteq> POL_GDPR_001"
    and "wf_state h m" "wf_state h1 m1" "state_le h m h1 m1" "services_not_dict h m"
    and "check_fn p h m = Inr b"
  shows "\<exists>b1. check_fn p h1 m1 = Inr b1"
proof -
  consider "p = POL_HIPAA_001" | "p = POL_HIPAA_002" | "p = POL_HIPAA_003" | "p = POL_IBM_001"
    | "p = POL_IBM_002" | "p = POL_SEC_001" | "p = POL_SEC_002"
    using kb_cases [OF assms(1)] assms(2) by blast
  then show ?thesis
  proof cases
    case 1
    then show ?thesis
      using check_vpc_isolation_forward [OF assms(3,4,5)] assms(7) by (simp add: policy_simps)
  next
    case 2
    then show ?thesis
      using check_encryption_at_rest_forward [OF assms(3,4,5,6)] assms(7) by (simp add: policy_simps)
  next
    case 3
    then show ?thesis
      using check_audit_logging_for_phi_forward [OF assms(3,4,5)] assms(7) by (simp add: policy_simps)
  next
    case 4
    then show ?thesis
      using check_encryption_in_transit_forward [OF assms(3,4,5)] assms(7) by (simp add: policy_simps)
  next
    case 5
    then show ?thesis
      using check_private_endpoints_forward [OF assms(3,4,5)] assms(7) by (simp add: policy_simps)
  next
    case 6
    then show ?thesis
      using check_no_public_api_for_sensitive_data_forward [OF assms(3,4,5)] assms(7)
      by (simp add: policy_simps)
  next
    case 7
    then show ?thesis
      using check_iam_policies_present_forward [OF assms(3,4,5)] assms(7) by (simp add: policy_simps)
  qed
qed

lemma migrate_regions_dicts:
  "migrate_regions h xs = Inr h1 \<Longrightarrow> list_all (is_dict h1) xs"
proof (induction xs arbitrary: h)
  case Nil
  then show ?case by simp
next
  case (Cons x xs)
  obtain role where role: "py_get h (Some x) ''role'' VNone = Inr role"
    using Cons.prems by (cases "py_get h (Some x) ''role'' VNone") auto
  then have xd: "is_dict h x" by (auto simp: py_get_Some_iff is_dict_iff)
  have le: "heap_le h h1" using migrate_regions_step [OF Cons.prems] by simp
  have x1: "is_dict h1 x" using le xd by (rule is_dict_le)
  show ?case
  proof (cases "role = VStr ''database''")
    case True
    then obtain h' where "migrate_regions h' xs = Inr h1"
      using Cons.prems role by (cases "py_setitem h x ''region'' (VStr ''eu-gb'')") auto
    then show ?thesis using Cons.IH x1 by simp
  next
    case False
    then have "migrate_regions h xs = Inr h1" using Cons.prems role by simp
    then show ?thesis using Cons.IH x1 by simp
  qed
qed

lemma migrate_regions_strs_Nil:
  "\<forall>x \<in> set xs. \<exists>s. x = VStr s \<Longrightarrow> migrate_regions h xs = Inr h1 \<Longrightarrow> xs = []"
  by (cases xs) (auto simp: py_get_str)

text \<open>After the region correction the region check completes, and passes.\<close>

lemma check_region_compliance_own_total:
  assumes "correct_region_gdpr h m = Inr (h1, m1)" "wf_state h m" "services_not_dict h m"
    and "py_contains_str h (map_of m ''applicable_frameworks'') ''GDPR'' = Inr g"
  shows "check_region_compliance h1 m1 = Inr True"
proof -
  obtain svcs where it: "py_iter h (map_of m ''services'') = Inr svcs"
      and mg: "migrate_regions h svcs = Inr h1" and m1: "m1 = m"
    using assms(1) by (auto simp: correct_region_gdpr_def split: sum.splits)
  have st: "state_le h m h1 m1" using correct_region_gdpr_step [OF assms(1,2)] by simp
  note g1 = contains_gdpr_forward [OF assms(2) st assms(4)]
  note f = services_forward [OF assms(2) st assms(3) it]
  have "\<exists>b. region_check_loop h1 svcs = Inr b"
    using region_check_loop_total [OF migrate_regions_dicts [OF mg]] .
  then obtain b where b: "region_check_loop h1 svcs = Inr b" by blast
  then have "\<exists>b1. check_region_compliance h1 m1 = Inr b1"
    using g1 f by (cases g) (auto simp: check_region_compliance_def)
  then show ?thesis
    using check_region_compliance_own [OF assms(1,2)] by auto
qed

lemma correction_pass_completes:
  assumes "set policies \<subseteq> set POLICY_KNOWLEDGE_BASE"
  shows "wf_state h m \<Longrightarrow> services_not_dict h m \<Longrightarrow>
     correction_pass policies rest h m = Inr (h1, m1, done) \<Longrightarrow>
     (\<forall>p \<in> set policies. p \<noteq> POL_GDPR_001 \<longrightarrow> (\<exists>b. check_fn p h m = Inr b)) \<Longrightarrow>
     (POL_GDPR_001 \<in> set policies \<longrightarrow>
        (\<exists>g. py_contains_str h (map_of m ''applicable_frameworks'') ''GDPR'' = Inr g) \<and>
        (check_region_compliance h m = Inr True \<or>
         (\<exists>v \<in> set rest. find (\<lambda>q. policy_id q = v_policy_id v) policies = Some POL_GDPR_001))) \<Longrightarrow>
     (\<forall>p \<in> set policies. \<exists>b. check_fn p h1 m1 = Inr b)"
proof (induction rest arbitrary: h m "done")
  case Nil
  then have e: "h1 = h" "m1 = m" by simp_all
  have "POL_GDPR_001 \<in> set policies \<Longrightarrow> check_fn POL_GDPR_001 h m = Inr True"
    using Nil.prems(5) by (simp add: policy_simps)
  then show ?case using Nil.prems(4) e by metis
next
  case (Cons v rest)
  show ?case
  proof (cases "find (\<lambda>q. policy_id q = v_policy_id v) policies")
    case None
    then have c: "correction_pass policies rest h m = Inr (h1, m1, done)"
      using Cons.prems(3) by simp
    have "POL_GDPR_001 \<in> set policies \<longrightarrow>
        (\<exists>g. py_contains_str h (map_of m ''applicable_frameworks'') ''GDPR'' = Inr g) \<and>
        (check_region_compliance h m = Inr True \<or>
         (\<exists>v \<in> set rest. find (\<lambda>q. policy_id q = v_policy_id v) policies = Some POL_GDPR_001))"
      using Cons.prems(5) None by auto
    then show ?thesis
      using Cons.IH [OF Cons.prems(1,2) c Cons.prems(4)] by blast
  next
    case (Some q)
    have q: "q \<in> set POLICY_KNOWLEDGE_BASE"
      using Some assms by (auto simp: find_Some_iff)
    obtain h' m' where c: "correction_fn q h m = Inr (h', m')"
      using Cons.prems(3) Some by (cases "correction_fn q h m") auto
    obtain done' where r: "correction_pass policies rest h' m' = Inr (h1, m1, done')"
      using Cons.prems(3) Some c by (cases "correction_pass policies rest h' m'") auto
    have st: "state_le h m h' m'" "wf_state h' m'"
      using kb_step [OF q Cons.prems(1) c] by simp_all
    have nd: "services_not_dict h' m'"
      using Cons.prems(1) st(1) Cons.prems(2) by (rule services_not_dict_le)
    have A: "\<forall>p \<in> set policies. p \<noteq> POL_GDPR_001 \<longrightarrow> (\<exists>b. check_fn p h' m' = Inr b)"
    proof (intro ballI impI)
      fix p assume p: "p \<in> set policies" "p \<noteq> POL_GDPR_001"
      then obtain b where "check_fn p h m = Inr b" using Cons.prems(4) by blast
      moreover have "p \<in> set POLICY_KNOWLEDGE_BASE" using p(1) assms by blast
      ultimately show "\<exists>b. check_fn p h' m' = Inr b"
        using kb_forward [OF _ p(2) Cons.prems(1) st(2,1) Cons.prems(2)] by blast
    qed
    have B: "POL_GDPR_001 \<in> set policies \<longrightarrow>
        (\<exists>g. py_contains_str h' (map_of m' ''applicable_frameworks'') ''GDPR'' = Inr g) \<and>
        (check_region_compliance h' m' = Inr True \<or>
         (\<exists>v \<in> set rest. find (\<lambda>q. policy_id q = v_policy_id v) policies = Some POL_GDPR_001))"
    proof
      assume "POL_GDPR_001 \<in> set policies"
      then obtain g where g: "py_contains_str h (map_of m ''applicable_frameworks'') ''GDPR'' = Inr g"
        and pend: "check_region_compliance h m = Inr True \<or>
          (\<exists>v \<in> set (v # rest). find (\<lambda>q. policy_id q = v_policy_id v) policies = Some POL_GDPR_001)"
        using Cons.prems(5) by blast
      have 1: "\<exists>g. py_contains_str h' (map_of m' ''applicable_frameworks'') ''GDPR'' = Inr g"
        using contains_gdpr_forward [OF Cons.prems(1) st(1) g] by blast
      have 2: "check_region_compliance h' m' = Inr True \<or>
          (\<exists>v \<in> set rest. find (\<lambda>q. policy_id q = v_policy_id v) policies = Some POL_GDPR_001)"
      proof (cases "q = POL_GDPR_001")
        case True
        then have "correct_region_gdpr h m = Inr (h', m')" using c by (simp add: policy_simps)
        then show ?thesis
          using check_region_compliance_own_total [OF _ Cons.prems(1,2) g] by simp
      next
        case False
        from pend show ?thesis
        proof
          assume "check_region_compliance h m = Inr True"
          then show ?thesis
            using check_region_compliance_forward [OF Cons.prems(1) st(1) Cons.prems(2)] by simp
        next
          assume "\<exists>v \<in> set (v # rest).
                    find (\<lambda>q. policy_id q = v_policy_id v) policies = Some POL_GDPR_001"
          then show ?thesis using Some False by auto
        qed
      qed
      show "(\<exists>g. py_contains_str h' (map_of m' ''applicable_frameworks'') ''GDPR'' = Inr g) \<and>
        (check_region_compliance h' m' = Inr True \<or>
         (\<exists>v \<in> set rest. find (\<lambda>q. policy_id q = v_policy_id v) policies = Some POL_GDPR_001))"
        using 1 2 by blast
    qed
    show ?thesis
      using Cons.IH [OF st(2) nd r A B] .
  qed
qed

lemma audit_pass1_checks:
  "audit_pass1 ps h m = Inr found \<Longrightarrow> p \<in> set ps \<Longrightarrow> \<exists>b. check_fn p h m = Inr b"
  by (induction ps arbitrary: found) (auto split: sum.splits if_splits)

lemma audit_pass2_total:
  "\<forall>p \<in> set ps. \<exists>b. check_fn p h m = Inr b \<Longrightarrow> \<exists>remaining. audit_pass2 ps h m = Inr remaining"
proof (induction ps)
  case Nil
  then show ?case by simp
next
  case (Cons p ps)
  obtain b where "check_fn p h m = Inr b" using Cons.prems by auto
  moreover obtain remaining where "audit_pass2 ps h m = Inr remaining"
    using Cons by auto
  ultimately show ?case by simp
qed

lemma revalidation_completes:
  assumes "wf_heap h" "wf_dict h audit_manifest"
    and "set policies \<subseteq> set POLICY_KNOWLEDGE_BASE"
    and "audit_pass1 policies h audit_manifest = Inr found"
    and "correction_pass policies found h audit_manifest = Inr (h1, corrected, done)"
    and "services_not_dict h audit_manifest"
  shows "\<exists>remaining. audit_pass2 policies h1 corrected = Inr remaining"
proof -
  have wf: "wf_state h audit_manifest"
    using assms(1,2) by (simp add: wf_state_def)
  have A: "\<forall>p \<in> set policies. p \<noteq> POL_GDPR_001 \<longrightarrow> (\<exists>b. check_fn p h audit_manifest = Inr b)"
    using audit_pass1_checks [OF assms(4)] by blast
  have B: "POL_GDPR_001 \<in> set policies \<longrightarrow>
        (\<exists>g. py_contains_str h (map_of audit_manifest ''applicable_frameworks'') ''GDPR'' = Inr g) \<and>
        (check_region_compliance h audit_manifest = Inr True \<or>
         (\<exists>v \<in> set found. find (\<lambda>q. policy_id q = v_policy_id v) policies = Some POL_GDPR_001))"
  proof
    assume in_p: "POL_GDPR_001 \<in> set policies"
    then obtain b where b: "check_region_compliance h audit_manifest = Inr b"
      using audit_pass1_checks [OF assms(4) in_p] by (auto simp: policy_simps)
    then have 1: "\<exists>g. py_contains_str h (map_of audit_manifest ''applicable_frameworks'') ''GDPR'' = Inr g"
      by (auto simp: check_region_compliance_def Let_def split: sum.splits)
    have 2: "check_region_compliance h audit_manifest = Inr True \<or>
        (\<exists>v \<in> set found. find (\<lambda>q. policy_id q = v_policy_id v) policies = Some POL_GDPR_001)"
    proof (cases b)
      case True
      then show ?thesis using b by simp
    next
      case False
      then have "check_fn POL_GDPR_001 h audit_manifest = Inr False"
        using b by (simp add: policy_simps)
      then obtain v where v: "v \<in> set found" "v_policy_id v = policy_id POL_GDPR_001"
        using audit_pass1_complete [OF assms(4) in_p] by blast
      have "find (\<lambda>q. policy_id q = v_policy_id v) policies = Some POL_GDPR_001"
        using find_by_id [OF assms(3) in_p] v(2) by simp
      then show ?thesis using v(1) by blast
    qed
    show "(\<exists>g. py_contains_str h (map_of audit_manifest ''applicable_frameworks'') ''GDPR'' = Inr g) \<and>
        (check_region_compliance h audit_manifest = Inr True \<or>
         (\<exists>v \<in> set found. find (\<lambda>q. policy_id q = v_policy_id v) policies = Some POL_GDPR_001))"
      using 1 2 by blast
  qed
  have "\<forall>p \<in> set policies. \<exists>b. check_fn p h1 corrected = Inr b"
    using correction_pass_completes [OF assms(3) wf assms(6,5) A B] .
  then show ?thesis by (rule audit_pass2_total)
qed

text \<open>
  C10 as stated (for every manifest, pass 2 finds no remaining violation once the
  corrections are applied) fails. When the networking and the services entries of the
  manifest are one and the same empty dictionary, pass 1 completes with six violations
  (the check of encryption at rest passes: there is no service), and the correction pass
  completes and corrects all six, filling that dictionary with the networking flags.
  Pass 2 then iterates the keys of the dictionary as if they were services: the check of
  encryption at rest, which passed before, raises an \<^verbatim>\<open>AttributeError\<close>, pass 2
  returns nothing, and the call ends FAILED.
\<close>

theorem revalidation_raises_on_shared_dictionary:
  "\<exists>policies found h1 corrected done.
     wf_heap shared_heap \<and> wf_dict shared_heap shared_audit_manifest \<and>
     \<not> services_not_dict shared_heap shared_audit_manifest \<and>
     get_policies_for_frameworks shared_heap (VRef 2) = Inr policies \<and>
     audit_pass1 policies shared_heap shared_audit_manifest = Inr found \<and>
     check_encryption_at_rest shared_heap shared_audit_manifest = Inr True \<and>
     correction_pass policies found shared_heap shared_audit_manifest = Inr (h1, corrected, done) \<and>
     length done = length found \<and>
     ''POL-HIPAA-002'' \<in> set (map policy_id policies) \<and>
     check_encryption_at_rest h1 corrected = Inl AttributeError \<and>
     audit_pass2 policies h1 corrected = Inl AttributeError \<and>
     run_governance_guardrail example_env shared_heap shared_architect_result shared_intent_result =
       \<lparr>stage_id = 3,
        stage_name = ''Governance Guardrail'',
        stage_status = FAILED,
        duration_ms = 7,
        result = None,
        error = Some AttributeError\<rparr>"
proof -
  have e: "case get_policies_for_frameworks shared_heap (VRef 2) of
          Inl e \<Rightarrow> False
        | Inr policies \<Rightarrow>
            (case audit_pass1 policies shared_heap shared_audit_manifest of
               Inl e \<Rightarrow> False
             | Inr found \<Rightarrow>
                 (case correction_pass policies found shared_heap shared_audit_manifest of
                    Inl e \<Rightarrow> False
                  | Inr (h1, corrected, done) \<Rightarrow>
                      length done = length found \<and>
                      ''POL-HIPAA-002'' \<in> set (map policy_id policies) \<and>
                      check_encryption_at_rest h1 corrected = Inl AttributeError \<and>
                      audit_pass2 policies h1 corrected = Inl AttributeError))"
    by code_simp
  have w: "wf_heap shared_heap" "wf_dict shared_heap shared_audit_manifest"
    "\<not> services_not_dict shared_heap shared_audit_manifest"
    "check_encryption_at_rest shared_heap shared_audit_manifest = Inr True"
    by code_simp+
  have r: "run_governance_guardrail example_env shared_heap shared_architect_result shared_intent_result =
       \<lparr>stage_id = 3,
        stage_name = ''Governance Guardrail'',
        stage_status = FAILED,
        duration_ms = 7,
        result = None,
        error = Some AttributeError\<rparr>"
    by code_simp
  show ?thesis
    using e w r by (auto split: sum.splits)
qed

text \<open>
  C10 (as amended). For a well-formed store and manifest whose services entry is not a
  dictionary, and any policies of the registry: once pass 1 and the correction pass have
  completed, pass 2 completes and finds no remaining violation, and every selected check
  returns true on the corrected manifest. Whatever the services entry is, a pass 2 that
  completes finds no remaining violation.
\<close>

theorem revalidation_finds_nothing:
  assumes "wf_heap h" "wf_dict h audit_manifest"
    and "set policies \<subseteq> set POLICY_KNOWLEDGE_BASE"
    and "audit_pass1 policies h audit_manifest = Inr found"
    and "correction_pass policies found h audit_manifest = Inr (h1, corrected, done)"
  shows "(services_not_dict h audit_manifest \<longrightarrow>
            audit_pass2 policies h1 corrected = Inr [] \<and>
            (\<forall>p \<in> set policies. check_fn p h1 corrected = Inr True)) \<and>
         (\<forall>remaining. audit_pass2 policies h1 corrected = Inr remaining \<longrightarrow>
            remaining = [] \<and> (\<forall>p \<in> set policies. check_fn p h1 corrected = Inr True))"
proof -
  have 1: "remaining = [] \<and> (\<forall>p \<in> set policies. check_fn p h1 corrected = Inr True)"
    if "audit_pass2 policies h1 corrected = Inr remaining" for remaining
    using revalidation_sound [OF assms that] .
  have 2: "audit_pass2 policies h1 corrected = Inr []" if "services_not_dict h audit_manifest"
    using revalidation_completes [OF assms that] 1 by auto
  show ?thesis using 1 2 by blast
qed

theorem revalidation_finds_nothing_witness:
  "\<exists>found h1 corrected done.
     wf_heap example_heap \<and> wf_dict example_heap example_audit_manifest \<and>
     services_not_dict example_heap example_audit_manifest \<and>
     audit_pass1 POLICY_KNOWLEDGE_BASE example_heap example_audit_manifest = Inr found \<and>
     length found = 8 \<and>
     correction_pass POLICY_KNOWLEDGE_BASE found example_heap example_audit_manifest =
       Inr (h1, corrected, done) \<and>
     audit_pass2 POLICY_KNOWLEDGE_BASE h1 corrected = Inr []"
proof -
  have e: "case audit_pass1 POLICY_KNOWLEDGE_BASE example_heap example_audit_manifest of
             Inl e \<Rightarrow> False
           | Inr found \<Rightarrow>
               length found = 8 \<and>
               (case correction_pass POLICY_KNOWLEDGE_BASE found example_heap example_audit_manifest of
                  Inl e \<Rightarrow> False
                | Inr (h1, corrected, done) \<Rightarrow> True)"
    by code_simp
  obtain found h1 corrected "done" where
    p1: "audit_pass1 POLICY_KNOWLEDGE_BASE example_heap example_audit_manifest = Inr found"
    and n: "length found = 8"
    and cp: "correction_pass POLICY_KNOWLEDGE_BASE found example_heap example_audit_manifest =
       Inr (h1, corrected, done)"
    using e by (auto split: sum.splits)
  have w1: "wf_heap example_heap" by code_simp
  have w2: "wf_dict example_heap example_audit_manifest" by code_simp
  have w3: "services_not_dict example_heap example_audit_manifest" by code_simp
  have "audit_pass2 POLICY_KNOWLEDGE_BASE h1 corrected = Inr []"
    using revalidation_finds_nothing [OF w1 w2 subset_refl p1 cp] w3 by simp
  then show ?thesis using w1 w2 w3 p1 n cp by blast
qed

lemma correction_pass_length:
  "correction_pass ps found h m = Inr (h1, m1, done) \<Longrightarrow>
     length done = length (filter (\<lambda>v. find (\<lambda>p. policy_id p = v_policy_id v) ps \<noteq> None) found)"
proof (induction found arbitrary: h m "done")
  case Nil
  then show ?case by simp
next
  case (Cons v rest)
  then show ?case
    by (fastforce split: option.splits sum.splits prod.splits)
qed

section \<open>The run without an exception\<close>

text \<open>
  C9. When the call raises no exception, every violation of pass 1 carries the id of a
  selected policy, as many violations are corrected as were found, the status is PASSED
  or CORRECTED and never FAILED, and the score is not 40.
\<close>

theorem no_exception_no_failure:
  assumes "guardrail_body ev h architect_result intent_result = Inr (h1, r)"
  shows "(\<exists>policies.
            get_policies_for_frameworks (fst (requested_frameworks h intent_result))
              (snd (requested_frameworks h intent_result)) = Inr policies \<and>
            (\<forall>v \<in> set (violations_found r). v_policy_id v \<in> policy_id ` set policies)) \<and>
         length (violations_corrected r) = length (violations_found r) \<and>
         (status r = PASSED \<or> status r = CORRECTED) \<and>
         final_compliance_score r \<noteq> 40 \<and>
         stage_status (run_governance_guardrail ev h architect_result intent_result) \<noteq> FAILED"
proof -
  obtain policies corrected am where
    g: "get_policies_for_frameworks (fst (requested_frameworks h intent_result))
          (snd (requested_frameworks h intent_result)) = Inr policies"
    and p1: "audit_pass1 policies (fst (requested_frameworks h intent_result)) am =
          Inr (violations_found r)"
    and cp: "correction_pass policies (violations_found r)
          (fst (requested_frameworks h intent_result)) am = Inr (h1, corrected, violations_corrected r)"
    and st: "status r = fst (final_status (violations_found r) (violations_corrected r))"
    and sc: "final_compliance_score r = snd (final_status (violations_found r) (violations_corrected r))"
    using guardrail_body_InrD [OF assms] by blast
  have ids: "\<forall>v \<in> set (violations_found r). \<exists>p \<in> set policies. policy_id p = v_policy_id v"
    using audit_pass1_ids [OF p1] by blast
  then have ids': "\<forall>v \<in> set (violations_found r). v_policy_id v \<in> policy_id ` set policies"
    by force
  have "\<forall>v \<in> set (violations_found r). find (\<lambda>p. policy_id p = v_policy_id v) policies \<noteq> None"
    using ids by (auto simp: find_None_iff)
  then have "filter (\<lambda>v. find (\<lambda>p. policy_id p = v_policy_id v) policies \<noteq> None) (violations_found r)
             = violations_found r"
    by (simp add: filter_id_conv)
  then have len: "length (violations_corrected r) = length (violations_found r)"
    using correction_pass_length [OF cp] by simp
  have s: "status r = PASSED \<or> status r = CORRECTED"
    using st len by (simp add: final_status_def)
  have "final_compliance_score r \<noteq> 40"
    using sc len by (auto simp: final_status_def)
  moreover have "stage_status (run_governance_guardrail ev h architect_result intent_result) = status r"
    using assms by (simp add: run_governance_guardrail_def)
  ultimately show ?thesis
    using g ids' len s by auto
qed

theorem no_exception_no_failure_witness:
  "\<exists>h1 r. guardrail_body example_env example_heap example_architect_result example_intent_result
             = Inr (h1, r) \<and>
          length (violations_found r) = 8 \<and>
          length (violations_corrected r) = 8 \<and>
          status r = CORRECTED \<and>
          stage_status (run_governance_guardrail example_env example_heap example_architect_result
             example_intent_result) \<noteq> FAILED"
proof -
  have e: "case guardrail_body example_env example_heap example_architect_result example_intent_result of
             Inl e \<Rightarrow> False
           | Inr (h1, r) \<Rightarrow> length (violations_found r) = 8 \<and> status r = CORRECTED"
    by code_simp
  then obtain h1 r where
    b: "guardrail_body example_env example_heap example_architect_result example_intent_result
          = Inr (h1, r)"
    and n: "length (violations_found r) = 8" "status r = CORRECTED"
    by (auto split: sum.splits)
  show ?thesis
    using no_exception_no_failure [OF b] b n by auto
qed

section \<open>Every violation has its policy\<close>

text \<open>
  The correction pass looks the policy of a violation up by its id. It has no branch that
  raises when the lookup finds none: it would go on with the next violation.
\<close>

lemma correction_pass_unmatched:
  "find (\<lambda>p. policy_id p = v_policy_id v) policies = None \<Longrightarrow>
     correction_pass policies (v # rest) h m = correction_pass policies rest h m"
  by simp





section \<open>The outermost boundary of the call\<close>

text \<open>
  The exceptions that can be raised: only a dictionary has \<^verbatim>\<open>get\<close>
  (\<^verbatim>\<open>AttributeError\<close>); only a container or a string is iterated or searched,
  only a dictionary is unpacked or takes an item, only a hashable value enters a set
  (\<^verbatim>\<open>TypeError\<close>). An item is assigned in a sub-dictionary only after
  \<^verbatim>\<open>setdefault\<close> put it there, and the severities and frameworks of the registry
  are members of their enumerations, so the body raises nothing else.
\<close>

lemma py_get_raises: "py_get h obj k dflt = Inl e \<Longrightarrow> e = AttributeError"
  by (auto simp: py_get_def split: option.splits pyval.splits pyobj.splits)

lemma py_iter_raises: "py_iter h obj = Inl e \<Longrightarrow> e = TypeError"
  by (auto simp: py_iter_def split: option.splits pyval.splits pyobj.splits)

lemma py_contains_str_raises: "py_contains_str h obj s = Inl e \<Longrightarrow> e = TypeError"
  by (auto simp: py_contains_str_def split: option.splits pyval.splits pyobj.splits)

lemma py_setitem_raises: "py_setitem h obj k v = Inl e \<Longrightarrow> e = TypeError"
  by (auto simp: py_setitem_def split: option.splits pyval.splits pyobj.splits)

lemma py_mapping_raises: "py_mapping h obj = Inl e \<Longrightarrow> e = TypeError"
  by (auto simp: py_mapping_def split: option.splits pyval.splits pyobj.splits)

lemma sub_setitem_raises:
  "map_of m sub = Some x \<Longrightarrow> sub_setitem h m sub k v = Inl e \<Longrightarrow> e = TypeError"
  by (auto simp: sub_setitem_def dest: py_setitem_raises)

lemma flag_check_raises:
  "(case py_get h obj k (VBool False) of
      Inl e \<Rightarrow> Inl e
    | Inr v \<Rightarrow> if \<not> truthy h v then Inr False else Inr True) = Inl e \<Longrightarrow> e = AttributeError"
  by (auto split: sum.splits if_splits dest: py_get_raises)

lemma any_database_raises: "any_database h svcs = Inl e \<Longrightarrow> e = AttributeError"
  by (induction svcs) (auto split: sum.splits if_splits dest: py_get_raises)

lemma region_check_loop_raises: "region_check_loop h svcs = Inl e \<Longrightarrow> e = AttributeError"
  by (induction svcs) (auto split: sum.splits if_splits dest: py_get_raises)

lemma upgrade_plans_raises:
  "upgrade_plans h svcs = Inl e \<Longrightarrow> e = AttributeError \<or> e = TypeError"
  by (induction svcs arbitrary: h)
    (auto split: sum.splits if_splits dest: py_get_raises py_setitem_raises)

lemma migrate_regions_raises:
  "migrate_regions h svcs = Inl e \<Longrightarrow> e = AttributeError \<or> e = TypeError"
  by (induction svcs arbitrary: h)
    (auto split: sum.splits if_splits dest: py_get_raises py_setitem_raises)

lemma check_raises:
  "check_vpc_isolation h m = Inl e \<Longrightarrow> e = AttributeError \<or> e = TypeError"
  "check_encryption_at_rest h m = Inl e \<Longrightarrow> e = AttributeError \<or> e = TypeError"
  "check_audit_logging_for_phi h m = Inl e \<Longrightarrow> e = AttributeError \<or> e = TypeError"
  "check_encryption_in_transit h m = Inl e \<Longrightarrow> e = AttributeError \<or> e = TypeError"
  "check_private_endpoints h m = Inl e \<Longrightarrow> e = AttributeError \<or> e = TypeError"
  "check_no_public_api_for_sensitive_data h m = Inl e \<Longrightarrow> e = AttributeError \<or> e = TypeError"
  "check_iam_policies_present h m = Inl e \<Longrightarrow> e = AttributeError \<or> e = TypeError"
  "check_region_compliance h m = Inl e \<Longrightarrow> e = AttributeError \<or> e = TypeError"
  by (auto simp: check_vpc_isolation_def check_encryption_at_rest_def
      check_audit_logging_for_phi_def check_encryption_in_transit_def check_private_endpoints_def
      check_no_public_api_for_sensitive_data_def check_iam_policies_present_def
      check_region_compliance_def Let_def
      split: sum.splits if_splits
      dest: py_get_raises py_iter_raises py_contains_str_raises any_database_raises
        region_check_loop_raises)

lemma one_flag_raises:
  assumes "(case setdefault_dict h m sub of (h0, m0) \<Rightarrow>
             (case sub_setitem h0 m0 sub k v of
                Inl e \<Rightarrow> Inl e
              | Inr h1 \<Rightarrow> Inr (h1, m0))) = Inl e"
  shows "e = TypeError"
proof -
  obtain h0 m0 where s: "setdefault_dict h m sub = (h0, m0)"
    by (cases "setdefault_dict h m sub")
  obtain x where "map_of m0 sub = Some x"
    using setdefault_dict_present [OF s] by blast
  then show ?thesis
    using assms s by (auto split: sum.splits dest: sub_setitem_raises)
qed

lemma three_flags_raises:
  assumes "(case setdefault_dict h m sub of (h0, m0) \<Rightarrow>
             (case sub_setitem h0 m0 sub k1 v1 of
                Inl e \<Rightarrow> Inl e
              | Inr h1 \<Rightarrow>
                  (case sub_setitem h1 m0 sub k2 v2 of
                     Inl e \<Rightarrow> Inl e
                   | Inr h2 \<Rightarrow>
                       (case sub_setitem h2 m0 sub k3 v3 of
                          Inl e \<Rightarrow> Inl e
                        | Inr h3 \<Rightarrow> Inr (h3, m0))))) = Inl e"
  shows "e = TypeError"
proof -
  obtain h0 m0 where s: "setdefault_dict h m sub = (h0, m0)"
    by (cases "setdefault_dict h m sub")
  obtain x where "map_of m0 sub = Some x"
    using setdefault_dict_present [OF s] by blast
  then show ?thesis
    using assms s by (auto split: sum.splits dest: sub_setitem_raises)
qed

lemma correct_encryption_at_rest_raises:
  assumes "correct_encryption_at_rest h m = Inl e"
  shows "e = AttributeError \<or> e = TypeError"
proof -
  obtain h0 m0 where s: "setdefault_dict h m ''security_config'' = (h0, m0)"
    by (cases "setdefault_dict h m ''security_config''")
  obtain x where "map_of m0 ''security_config'' = Some x"
    using setdefault_dict_present [OF s] by blast
  then show ?thesis
    using assms s
    by (auto simp: correct_encryption_at_rest_def split: sum.splits if_splits
        dest: sub_setitem_raises py_iter_raises upgrade_plans_raises)
qed

lemma correction_raises:
  "correct_vpc_isolation h m = Inl e \<Longrightarrow> e = AttributeError \<or> e = TypeError"
  "correct_audit_logging h m = Inl e \<Longrightarrow> e = AttributeError \<or> e = TypeError"
  "correct_encryption_in_transit h m = Inl e \<Longrightarrow> e = AttributeError \<or> e = TypeError"
  "correct_private_endpoints h m = Inl e \<Longrightarrow> e = AttributeError \<or> e = TypeError"
  "correct_public_api_exposure h m = Inl e \<Longrightarrow> e = AttributeError \<or> e = TypeError"
  "correct_iam_policies h m = Inl e \<Longrightarrow> e = AttributeError \<or> e = TypeError"
  "correct_region_gdpr h m = Inl e \<Longrightarrow> e = AttributeError \<or> e = TypeError"
  using three_flags_raises [where h = h and m = m and sub = "''networking''"
      and ?k1.0 = "''vpc_enabled''" and ?v1.0 = "VBool True"
      and ?k2.0 = "''subnet_isolation''" and ?v2.0 = "VBool True"
      and ?k3.0 = "''private_endpoints''" and ?v3.0 = "VBool True" and e = e]
    one_flag_raises [where h = h and m = m and sub = "''security_config''"
      and k = "''audit_logging''" and v = "VBool True" and e = e]
    one_flag_raises [where h = h and m = m and sub = "''security_config''"
      and k = "''encryption_in_transit''" and v = "VBool True" and e = e]
    one_flag_raises [where h = h and m = m and sub = "''networking''"
      and k = "''private_endpoints''" and v = "VBool True" and e = e]
    one_flag_raises [where h = h and m = m and sub = "''security_config''"
      and k = "''iam_policies''" and v = "VBool True" and e = e]
  by (auto simp: correct_vpc_isolation_def correct_audit_logging_def
      correct_encryption_in_transit_def correct_private_endpoints_def
      correct_public_api_exposure_def correct_iam_policies_def correct_region_gdpr_def
      split: sum.splits dest: py_iter_raises migrate_regions_raises)

lemma kb_check_raises:
  assumes "p \<in> set POLICY_KNOWLEDGE_BASE" "check_fn p h m = Inl e"
  shows "e = AttributeError \<or> e = TypeError"
  using kb_cases [OF assms(1)] assms(2) check_raises [where h = h and m = m and e = e]
  by (auto simp: policy_simps)

lemma kb_correction_raises:
  assumes "p \<in> set POLICY_KNOWLEDGE_BASE" "correction_fn p h m = Inl e"
  shows "e = AttributeError \<or> e = TypeError"
  using kb_cases [OF assms(1)] assms(2) correction_raises [where h = h and m = m and e = e]
    correct_encryption_at_rest_raises [where h = h and m = m and e = e]
  by (auto simp: policy_simps)

lemma kb_make_violation:
  assumes "p \<in> set POLICY_KNOWLEDGE_BASE"
  shows "\<exists>v. make_violation p = Inr v"
  using kb_cases [OF assms]
  by (auto simp: make_violation_def SeverityLevel_of_def ComplianceFramework_of_def
      POL_HIPAA_001_def POL_HIPAA_002_def POL_HIPAA_003_def POL_IBM_001_def
      POL_IBM_002_def POL_SEC_001_def POL_SEC_002_def POL_GDPR_001_def)

lemma audit_pass1_raises:
  "set ps \<subseteq> set POLICY_KNOWLEDGE_BASE \<Longrightarrow> audit_pass1 ps h m = Inl e \<Longrightarrow>
     e = AttributeError \<or> e = TypeError"
proof (induction ps)
  case Nil
  then show ?case by simp
next
  case (Cons p ps)
  have p: "p \<in> set POLICY_KNOWLEDGE_BASE" using Cons.prems(1) by simp
  obtain v where v: "make_violation p = Inr v"
    using kb_make_violation [OF p] by blast
  show ?case
    using Cons v kb_check_raises [OF p, where h = h and m = m and e = e]
    by (auto split: sum.splits if_splits)
qed

lemma audit_pass2_raises:
  "set ps \<subseteq> set POLICY_KNOWLEDGE_BASE \<Longrightarrow> audit_pass2 ps h m = Inl e \<Longrightarrow>
     e = AttributeError \<or> e = TypeError"
proof (induction ps)
  case Nil
  then show ?case by simp
next
  case (Cons p ps)
  have p: "p \<in> set POLICY_KNOWLEDGE_BASE" using Cons.prems(1) by simp
  show ?case
    using Cons kb_check_raises [OF p, where h = h and m = m and e = e]
    by (auto split: sum.splits if_splits)
qed

lemma correction_pass_raises:
  "set ps \<subseteq> set POLICY_KNOWLEDGE_BASE \<Longrightarrow> correction_pass ps found h m = Inl e \<Longrightarrow>
     e = AttributeError \<or> e = TypeError"
proof (induction found arbitrary: h m)
  case Nil
  then show ?case by simp
next
  case (Cons v rest)
  show ?case
  proof (cases "find (\<lambda>p. policy_id p = v_policy_id v) ps")
    case None
    then show ?thesis using Cons by simp
  next
    case (Some p)
    then have "p \<in> set ps" by (auto simp: find_Some_iff)
    then have p: "p \<in> set POLICY_KNOWLEDGE_BASE" using Cons.prems(1) by blast
    show ?thesis
      using Cons Some kb_correction_raises [OF p, where h = h and m = m and e = e]
      by (auto split: sum.splits)
  qed
qed

lemma make_services_raises: "make_services h svcs = Inl e \<Longrightarrow> e = AttributeError"
  by (induction svcs)
    (auto simp: make_service_def split: sum.splits dest: py_get_raises)

lemma build_final_manifest_raises:
  "build_final_manifest h m md = Inl e \<Longrightarrow> e = AttributeError \<or> e = TypeError"
  by (auto simp: build_final_manifest_def split: sum.splits
      dest: py_get_raises py_iter_raises make_services_raises)

lemma get_policies_for_frameworks_raises:
  "get_policies_for_frameworks h fw = Inl e \<Longrightarrow> e = TypeError"
  by (auto simp: get_policies_for_frameworks_def Let_def split: sum.splits if_splits
      dest: py_iter_raises)

lemma get_policies_for_frameworks_subset:
  "get_policies_for_frameworks h fw = Inr ps \<Longrightarrow> set ps \<subseteq> set POLICY_KNOWLEDGE_BASE"
  by (auto simp: get_policies_for_frameworks_def Let_def split: sum.splits if_splits)

lemma guardrail_body_raises:
  assumes "guardrail_body ev h architect_result intent_result = Inl e"
  shows "e = AttributeError \<or> e = TypeError"
proof -
  obtain h0 frameworks where rf: "requested_frameworks h intent_result = (h0, frameworks)"
    by (cases "requested_frameworks h intent_result")
  show ?thesis
  proof (cases "py_mapping h0 (map_of architect_result ''manifest'')")
    case (Inl e1)
    then show ?thesis
      using assms rf py_mapping_raises [OF Inl] by (simp add: guardrail_body_def)
  next
    case items: (Inr items)
    show ?thesis
    proof (cases "get_policies_for_frameworks h0 frameworks")
      case (Inl e1)
      then show ?thesis
        using assms rf items get_policies_for_frameworks_raises [OF Inl]
        by (simp add: guardrail_body_def)
    next
      case ps: (Inr policies)
      have sub: "set policies \<subseteq> set POLICY_KNOWLEDGE_BASE"
        using get_policies_for_frameworks_subset [OF ps] .
      show ?thesis
        using assms rf items ps
          audit_pass1_raises [OF sub, where e = e]
          correction_pass_raises [OF sub, where e = e]
          audit_pass2_raises [OF sub, where e = e]
          build_final_manifest_raises [where e = e]
          py_iter_raises [where e = e]
        by (auto simp: guardrail_body_def Let_def split: sum.splits if_splits prod.splits)
    qed
  qed
qed

lemma run_governance_guardrail_cases:
  "run_governance_guardrail ev h architect_result intent_result =
     (case guardrail_body ev h architect_result intent_result of
        Inr (h1, report) \<Rightarrow> completed_stage_result ev report
      | Inl e \<Rightarrow> failed_stage_result ev e)"
  by (simp add: run_governance_guardrail_def completed_stage_result_def failed_stage_result_def
      split: sum.splits)

text \<open>
  C5. For every input the call returns a stage result and lets no exception through to
  its caller, provided the class \<^verbatim>\<open>StageResult\<close> accepts the failed stage result
  that the handler builds. Whatever is raised in the \<^verbatim>\<open>try\<close> block (an
  \<^verbatim>\<open>AttributeError\<close> or a \<^verbatim>\<open>TypeError\<close> of the body, or the
  \<^verbatim>\<open>ValueError\<close> of a refused report or stage result) is caught, and the result
  returned has the status FAILED, the elapsed duration, no report, and that exception in
  its error field (the source stores its message). When nothing is raised the result is
  the one the \<^verbatim>\<open>try\<close> block returns, with no error. In both cases where the
  classes accept what the block builds, it is the result of \<open>run_governance_guardrail\<close>.
\<close>

theorem exception_stops_at_the_boundary:
  assumes "\<forall>e. accepts_result sc (failed_stage_result ev e)"
  shows "\<exists>res. run_governance_guardrail_raising sc ev h architect_result intent_result = Inr res \<and>
           (\<forall>e. guardrail_try sc ev h architect_result intent_result = Inl e \<longrightarrow>
              (e = AttributeError \<or> e = TypeError \<or> e = ValueError) \<and>
              res = failed_stage_result ev e \<and>
              stage_status res = FAILED \<and> duration_ms res = elapsed_ms ev \<and>
              result res = None \<and> error res = Some e) \<and>
           (\<forall>e. guardrail_body ev h architect_result intent_result = Inl e \<longrightarrow>
              guardrail_try sc ev h architect_result intent_result = Inl e \<and>
              res = run_governance_guardrail ev h architect_result intent_result) \<and>
           (\<forall>res1. guardrail_try sc ev h architect_result intent_result = Inr res1 \<longrightarrow>
              res = res1 \<and> error res = None \<and>
              res = run_governance_guardrail ev h architect_result intent_result)"
proof (cases "guardrail_try sc ev h architect_result intent_result")
  case (Inl e)
  have r: "run_governance_guardrail_raising sc ev h architect_result intent_result =
        Inr (failed_stage_result ev e)"
    using Inl assms by (simp add: run_governance_guardrail_raising_def guardrail_except_def)
  have c: "e = AttributeError \<or> e = TypeError \<or> e = ValueError"
    using Inl guardrail_body_raises [where ev = ev and h = h
        and architect_result = architect_result and intent_result = intent_result and e = e]
    by (auto simp: guardrail_try_def split: sum.splits if_splits)
  have f: "stage_status (failed_stage_result ev e) = FAILED \<and>
      duration_ms (failed_stage_result ev e) = elapsed_ms ev \<and>
      result (failed_stage_result ev e) = None \<and> error (failed_stage_result ev e) = Some e"
    by (simp add: failed_stage_result_def)
  have b: "e1 = e \<and> failed_stage_result ev e = run_governance_guardrail ev h architect_result intent_result"
    if "guardrail_body ev h architect_result intent_result = Inl e1" for e1
    using that Inl by (simp add: guardrail_try_def run_governance_guardrail_cases)
  show ?thesis
    using r c f b Inl by auto
next
  case (Inr res1)
  have r: "run_governance_guardrail_raising sc ev h architect_result intent_result = Inr res1"
    using Inr by (simp add: run_governance_guardrail_raising_def)
  have "res1 = run_governance_guardrail ev h architect_result intent_result \<and> error res1 = None"
    using Inr
    by (auto simp: guardrail_try_def run_governance_guardrail_cases completed_stage_result_def
        split: sum.splits if_splits)
  then show ?thesis
    using r Inr by (auto simp: guardrail_try_def split: sum.splits)
qed

theorem exception_stops_at_the_boundary_witness:
  "run_governance_guardrail_raising example_schema_classes example_env []
     [(''manifest'', VNone)] [] =
     Inr \<lparr>stage_id = 3,
          stage_name = ''Governance Guardrail'',
          stage_status = FAILED,
          duration_ms = 7,
          result = None,
          error = Some TypeError\<rparr> \<and>
   run_governance_guardrail_raising example_schema_classes example_env shared_heap
     shared_architect_result shared_intent_result =
     Inr \<lparr>stage_id = 3,
          stage_name = ''Governance Guardrail'',
          stage_status = FAILED,
          duration_ms = 7,
          result = None,
          error = Some AttributeError\<rparr>"
proof -
  have a: "\<forall>e. accepts_result example_schema_classes (failed_stage_result example_env e)"
    by (simp add: example_schema_classes_def)
  have t1: "guardrail_try example_schema_classes example_env [] [(''manifest'', VNone)] [] =
      Inl TypeError"
    by (simp add: guardrail_try_def guardrail_body_def requested_frameworks_def py_mapping_def)
  have t2: "guardrail_try example_schema_classes example_env shared_heap
      shared_architect_result shared_intent_result = Inl AttributeError"
    by code_simp
  have 1: "run_governance_guardrail_raising example_schema_classes example_env []
     [(''manifest'', VNone)] [] = Inr (failed_stage_result example_env TypeError)"
    using exception_stops_at_the_boundary [OF a, where h = "[]"
        and architect_result = "[(''manifest'', VNone)]" and intent_result = "[]"] t1
    by auto
  have 2: "run_governance_guardrail_raising example_schema_classes example_env shared_heap
     shared_architect_result shared_intent_result =
       Inr (failed_stage_result example_env AttributeError)"
    using exception_stops_at_the_boundary [OF a, where h = shared_heap
        and architect_result = shared_architect_result and intent_result = shared_intent_result] t2
    by auto
  show ?thesis
    using 1 2 by (simp add: failed_stage_result_def example_env_def)
qed

text \<open>
  The condition is on the handler alone, and it is needed: a class
  \<^verbatim>\<open>StageResult\<close> that refused a result with an error would make the handler
  raise, and that exception would reach the caller.
\<close>

lemma handler_exception_reaches_caller:
  "run_governance_guardrail_raising
     \<lparr>accepts_report = (\<lambda>r. True), accepts_result = (\<lambda>r. error r = None)\<rparr>
     example_env [] [(''manifest'', VNone)] [] = Inl ValueError"
  by (simp add: run_governance_guardrail_raising_def guardrail_try_def guardrail_except_def
      failed_stage_result_def guardrail_body_def requested_frameworks_def py_mapping_def)

section \<open>Single corrections\<close>

lemma sub_setitem_total:
  assumes "map_of m sub = Some (VRef a)" "deref h a = Some (ODict d)"
  shows "\<exists>h1 d1. sub_setitem h m sub k v = Inr h1 \<and> deref h1 a = Some (ODict d1)"
  using assms by (auto simp: sub_setitem_iff deref_Some)

lemma three_flags_total:
  assumes "map_of m0 sub = Some (VRef a)" "deref h0 a = Some (ODict d)"
    and "(k1, VBool True) \<in> written" "(k2, VBool True) \<in> written" "(k3, VBool True) \<in> written"
  shows "\<exists>h3. (case sub_setitem h0 m0 sub k1 (VBool True) of
                Inl e \<Rightarrow> Inl e
              | Inr h1 \<Rightarrow>
                  (case sub_setitem h1 m0 sub k2 (VBool True) of
                     Inl e \<Rightarrow> Inl e
                   | Inr h2 \<Rightarrow>
                       (case sub_setitem h2 m0 sub k3 (VBool True) of
                          Inl e \<Rightarrow> Inl e
                        | Inr h3 \<Rightarrow> Inr (h3, m0)))) = Inr (h3, m0) \<and>
             flag_true h3 m0 sub k1 \<and> flag_true h3 m0 sub k2 \<and> flag_true h3 m0 sub k3"
proof -
  obtain h1 d1 where 1: "sub_setitem h0 m0 sub k1 (VBool True) = Inr h1" "deref h1 a = Some (ODict d1)"
    using sub_setitem_total [OF assms(1,2)] by blast
  obtain h2 d2 where 2: "sub_setitem h1 m0 sub k2 (VBool True) = Inr h2" "deref h2 a = Some (ODict d2)"
    using sub_setitem_total [OF assms(1) 1(2)] by blast
  obtain h3 d3 where 3: "sub_setitem h2 m0 sub k3 (VBool True) = Inr h3" "deref h3 a = Some (ODict d3)"
    using sub_setitem_total [OF assms(1) 2(2)] by blast
  have le2: "heap_le h1 h2" using sub_setitem_step(1) [OF 2(1) assms(4)] .
  have le3: "heap_le h2 h3" using sub_setitem_step(1) [OF 3(1) assms(5)] .
  have f1: "flag_true h3 m0 sub k1"
    using sub_setitem_flag [OF 1(1)] le2 le3 assms(3) by (auto intro: flag_true_le)
  have f2: "flag_true h3 m0 sub k2"
    using sub_setitem_flag [OF 2(1)] le3 assms(4) by (auto intro: flag_true_le)
  have f3: "flag_true h3 m0 sub k3"
    using sub_setitem_flag [OF 3(1)] .
  show ?thesis using 1(1) 2(1) 3(1) f1 f2 f3 by simp
qed

text \<open>
  C6. For a manifest of sensitivity PHI whose \<^verbatim>\<open>networking.vpc_enabled\<close> reads as
  false (the VPC check fails), the correction of the VPC isolation policy returns a
  manifest on which \<^verbatim>\<open>vpc_enabled\<close>, \<^verbatim>\<open>subnet_isolation\<close> and
  \<^verbatim>\<open>private_endpoints\<close> are true and on which the VPC check passes.
\<close>

theorem correct_vpc_isolation_sufficient:
  assumes "dict_get manifest ''detected_sensitivity'' (VStr ''public'') = VStr ''PHI''"
    and "py_get h (map_of manifest ''networking'') ''vpc_enabled'' (VBool False) = Inr (VBool False)"
  shows "check_vpc_isolation h manifest = Inr False \<and>
         (\<exists>h1 m1. correct_vpc_isolation h manifest = Inr (h1, m1) \<and>
            py_get h1 (map_of m1 ''networking'') ''vpc_enabled'' (VBool False) = Inr (VBool True) \<and>
            py_get h1 (map_of m1 ''networking'') ''subnet_isolation'' (VBool False) = Inr (VBool True) \<and>
            py_get h1 (map_of m1 ''networking'') ''private_endpoints'' (VBool False) = Inr (VBool True) \<and>
            check_vpc_isolation h1 m1 = Inr True)"
proof -
  have before: "check_vpc_isolation h manifest = Inr False"
    using assms by (simp add: check_vpc_isolation_def Let_def truthy_def)
  obtain h0 m0 where sd: "setdefault_dict h manifest ''networking'' = (h0, m0)"
    by (cases "setdefault_dict h manifest ''networking''") auto
  have "\<exists>a d. map_of m0 ''networking'' = Some (VRef a) \<and> deref h0 a = Some (ODict d)"
  proof (cases "map_of manifest ''networking''")
    case None
    then show ?thesis using setdefault_dict_fresh [OF sd] by blast
  next
    case (Some x)
    then have "h0 = h" "m0 = manifest"
      using setdefault_dict_cases [OF sd] by auto
    then show ?thesis using assms(2) Some by (auto simp: py_get_Some_iff)
  qed
  then obtain a d where a: "map_of m0 ''networking'' = Some (VRef a)" "deref h0 a = Some (ODict d)"
    by blast
  obtain h3 where c: "correct_vpc_isolation h manifest = Inr (h3, m0)"
      and f: "flag_true h3 m0 ''networking'' ''vpc_enabled''"
        "flag_true h3 m0 ''networking'' ''subnet_isolation''"
        "flag_true h3 m0 ''networking'' ''private_endpoints''"
    using three_flags_total [OF a flag_written(1,2,3)] sd
    by (auto simp: correct_vpc_isolation_def)
  show ?thesis
    using before c f by (auto simp: flag_true_get check_vpc_isolation_own)
qed

theorem correct_vpc_isolation_sufficient_witness:
  "check_vpc_isolation example_heap example_audit_manifest = Inr False \<and>
   (\<exists>h1 m1. correct_vpc_isolation example_heap example_audit_manifest = Inr (h1, m1) \<and>
      py_get h1 (map_of m1 ''networking'') ''vpc_enabled'' (VBool False) = Inr (VBool True) \<and>
      check_vpc_isolation h1 m1 = Inr True)"
proof -
  have 1: "dict_get example_audit_manifest ''detected_sensitivity'' (VStr ''public'') = VStr ''PHI''"
    by code_simp
  have 2: "py_get example_heap (map_of example_audit_manifest ''networking'') ''vpc_enabled''
             (VBool False) = Inr (VBool False)"
    by code_simp
  show ?thesis
    using correct_vpc_isolation_sufficient [OF 1 2] by blast
qed

lemma migrate_regions_total:
  "list_all (is_dict h) xs \<Longrightarrow> \<exists>h1. migrate_regions h xs = Inr h1"
proof (induction xs arbitrary: h)
  case Nil
  then show ?case by simp
next
  case (Cons x xs)
  obtain role where role: "py_get h (Some x) ''role'' VNone = Inr role"
    using is_dict_get [of h x] Cons.prems by auto
  show ?case
  proof (cases "role = VStr ''database''")
    case True
    obtain h' where h': "py_setitem h x ''region'' (VStr ''eu-gb'') = Inr h'"
      using is_dict_setitem [of h x] Cons.prems by auto
    have "heap_le h h'" using h' by (rule py_setitem_le) (simp add: written_def)
    then have "list_all (is_dict h') xs"
      using Cons.prems by (auto simp: list_all_iff intro: is_dict_le)
    then show ?thesis using Cons.IH [of h'] role True h' by simp
  next
    case False
    then show ?thesis using Cons.IH [of h] Cons.prems role by simp
  qed
qed

lemma region_check_loop_fails:
  assumes "list_all (is_dict h) xs" "x \<in> set xs"
    and "py_get h (Some x) ''role'' VNone = Inr (VStr ''database'')"
    and "py_get h (Some x) ''region'' (VStr '''') = Inr r"
    and "r \<notin> {VStr ''eu-gb'', VStr ''eu-de'', VStr ''eu-fr''}"
  shows "region_check_loop h xs = Inr False"
  using assms(1,2)
proof (induction xs)
  case Nil
  then show ?case by simp
next
  case (Cons y ys)
  have yd: "is_dict h y" using Cons.prems by simp
  obtain role where y1: "py_get h (Some y) ''role'' VNone = Inr role"
    using is_dict_get [OF yd] by blast
  obtain region where y2: "py_get h (Some y) ''region'' (VStr '''') = Inr region"
    using is_dict_get [OF yd] by blast
  note y = y1 y2
  show ?case
  proof (cases "x = y")
    case True
    then show ?thesis using assms(3,4,5) by simp
  next
    case False
    then have "region_check_loop h ys = Inr False"
      using Cons by simp
    then show ?thesis using y by simp
  qed
qed

lemma migrate_regions_sets:
  "migrate_regions h xs = Inr h1 \<Longrightarrow> x \<in> set xs \<Longrightarrow>
   py_get h (Some x) ''role'' VNone = Inr (VStr ''database'') \<Longrightarrow>
     py_get h1 (Some x) ''region'' dflt = Inr (VStr ''eu-gb'')"
proof (induction xs arbitrary: h)
  case Nil
  then show ?case by simp
next
  case (Cons y ys)
  have wx: "wf_val h x"
    using Cons.prems(3) by (auto simp: py_get_Some_iff wf_val_def deref_Some)
  obtain role where role: "py_get h (Some y) ''role'' VNone = Inr role"
    using Cons.prems(1) by (cases "py_get h (Some y) ''role'' VNone") auto
  show ?case
  proof (cases "role = VStr ''database''")
    case True
    then obtain h' where h': "py_setitem h y ''region'' (VStr ''eu-gb'') = Inr h'"
        "migrate_regions h' ys = Inr h1"
      using Cons.prems(1) role by (cases "py_setitem h y ''region'' (VStr ''eu-gb'')") auto
    have le: "heap_le h h'" using h'(1) by (rule py_setitem_le) (simp add: written_def)
    have le1: "heap_le h' h1" using migrate_regions_step [OF h'(2)] by simp
    have wx': "wf_val h' x" using wx heap_le_length [OF le] by (rule wf_val_mono)
    show ?thesis
    proof (cases "x = y")
      case True
      have "py_get h' (Some x) ''region'' dflt = Inr (VStr ''eu-gb'')"
        using h'(1) True by (simp add: py_setitem_get)
      then obtain r1 where "py_get h1 (Some x) ''region'' dflt = Inr r1"
          "r1 = VStr ''eu-gb'' \<or> (''region'', r1) \<in> written"
        using py_get_le [OF le1 wx'] by blast
      then show ?thesis by (auto simp: written_def)
    next
      case False
      have "py_get h' (Some x) ''role'' VNone = Inr (VStr ''database'')"
        using role_le [OF le wx] Cons.prems(3) by simp
      then show ?thesis
        using Cons.IH [OF h'(2)] Cons.prems(2) False by simp
    qed
  next
    case False
    then have m: "migrate_regions h ys = Inr h1" "x \<noteq> y"
      using Cons.prems(1,3) role by auto
    then show ?thesis using Cons.IH [OF m(1)] Cons.prems(2,3) by simp
  qed
qed

text \<open>
  C7. For a manifest whose applicable frameworks list GDPR and whose services are a list
  of dictionaries, one of them a database in us-south, the region check fails, the
  correction of the region policy sets that service's region to eu-gb, one of the
  accepted EU regions, and the region check passes on the corrected manifest.
\<close>

theorem correct_region_gdpr_sufficient:
  assumes "map_of manifest ''applicable_frameworks'' = Some (VRef f)"
    and "deref h f = Some (OList fws)" "VStr ''GDPR'' \<in> set fws"
    and "map_of manifest ''services'' = Some (VRef l)"
    and "deref h l = Some (OList svcs)" "list_all (is_dict h) svcs"
    and "VRef s \<in> set svcs" "deref h s = Some (ODict d)"
    and "map_of d ''role'' = Some (VStr ''database'')"
    and "map_of d ''region'' = Some (VStr ''us-south'')"
  shows "check_region_compliance h manifest = Inr False \<and>
         (\<exists>h1 d1. correct_region_gdpr h manifest = Inr (h1, manifest) \<and>
            deref h1 s = Some (ODict d1) \<and>
            map_of d1 ''region'' = Some (VStr ''eu-gb'') \<and>
            check_region_compliance h1 manifest = Inr True)"
proof -
  have g: "py_contains_str h (map_of manifest ''applicable_frameworks'') ''GDPR'' = Inr True"
    using assms(1,2,3) by (simp add: py_contains_str_def)
  have it: "py_iter h (map_of manifest ''services'') = Inr svcs"
    using assms(4,5) by (simp add: py_iter_def)
  have role: "py_get h (Some (VRef s)) ''role'' VNone = Inr (VStr ''database'')"
    using assms(8,9) by (simp add: py_get_Some_iff dict_get_def)
  have reg: "py_get h (Some (VRef s)) ''region'' (VStr '''') = Inr (VStr ''us-south'')"
    using assms(8,10) by (simp add: py_get_Some_iff dict_get_def)
  have "region_check_loop h svcs = Inr False"
    using region_check_loop_fails [OF assms(6,7) role reg] by simp
  then have before: "check_region_compliance h manifest = Inr False"
    using g it by (simp add: check_region_compliance_def)
  obtain h1 where mg: "migrate_regions h svcs = Inr h1"
    using migrate_regions_total [OF assms(6)] by blast
  have c: "correct_region_gdpr h manifest = Inr (h1, manifest)"
    using it mg by (simp add: correct_region_gdpr_def)
  have le: "heap_le h h1" using migrate_regions_step [OF mg] by simp
  have "py_get h1 (Some (VRef s)) ''region'' VNone = Inr (VStr ''eu-gb'')"
    using mg assms(7) role by (rule migrate_regions_sets)
  then obtain d1 where d1: "deref h1 s = Some (ODict d1)" "map_of d1 ''region'' = Some (VStr ''eu-gb'')"
    by (auto simp: py_get_Some_iff dict_get_def split: option.splits)
  have g1: "py_contains_str h1 (map_of manifest ''applicable_frameworks'') ''GDPR'' = Inr True"
    using assms(1,3) heap_le_list [OF le assms(2)] by (simp add: py_contains_str_def)
  have it1: "py_iter h1 (map_of manifest ''services'') = Inr svcs"
    using assms(4) heap_le_list [OF le assms(5)] by (simp add: py_iter_def)
  have "list_all (is_dict h1) svcs"
    using assms(6) le by (auto simp: list_all_iff intro: is_dict_le)
  then obtain b where b: "region_check_loop h1 svcs = Inr b"
    using region_check_loop_total by blast
  have "list_all (wf_val h) svcs"
    using assms(6) by (auto simp: list_all_iff intro: is_dict_wf)
  then have "region_check_loop h1 svcs \<noteq> Inr False"
    using migrate_regions_check [OF mg _ heap_le_refl] by simp
  then have "region_check_loop h1 svcs = Inr True"
    using b by auto
  then have after: "check_region_compliance h1 manifest = Inr True"
    using g1 it1 by (simp add: check_region_compliance_def)
  show ?thesis using before c d1 after by blast
qed

theorem correct_region_gdpr_sufficient_witness:
  "check_region_compliance example_heap example_audit_manifest = Inr False \<and>
   (\<exists>h1 d1. correct_region_gdpr example_heap example_audit_manifest = Inr (h1, example_audit_manifest) \<and>
      deref h1 4 = Some (ODict d1) \<and>
      map_of d1 ''region'' = Some (VStr ''eu-gb'') \<and>
      check_region_compliance h1 example_audit_manifest = Inr True)"
proof -
  have 1: "map_of example_audit_manifest ''applicable_frameworks'' = Some (VRef 5)" by code_simp
  have 2: "deref example_heap 5 = Some (OList [VStr ''HIPAA'', VStr ''GDPR''])" by code_simp
  have 3: "VStr ''GDPR'' \<in> set [VStr ''HIPAA'', VStr ''GDPR'']" by simp
  have 4: "map_of example_audit_manifest ''services'' = Some (VRef 3)" by code_simp
  have 5: "deref example_heap 3 = Some (OList [VRef 4])" by code_simp
  have 6: "list_all (is_dict example_heap) [VRef 4]" by code_simp
  have 7: "VRef 4 \<in> set [VRef 4]" by simp
  have 8: "deref example_heap 4 =
             Some (ODict [(''service_name'', VStr ''Databases for PostgreSQL''),
                          (''role'', VStr ''database''), (''region'', VStr ''us-south'')])"
    by code_simp
  have 9: "map_of [(''service_name'', VStr ''Databases for PostgreSQL''),
                   (''role'', VStr ''database''), (''region'', VStr ''us-south'')] ''role''
             = Some (VStr ''database'')" by simp
  have 10: "map_of [(''service_name'', VStr ''Databases for PostgreSQL''),
                   (''role'', VStr ''database''), (''region'', VStr ''us-south'')] ''region''
             = Some (VStr ''us-south'')" by simp
  show ?thesis
    using correct_region_gdpr_sufficient [OF 1 2 3 4 5 6 7 8 9 10] by simp
qed

section \<open>The caller's manifest after the call\<close>

text \<open>
  C1 (after the call the caller's manifest, with its nested networking, security and
  services entries, is what the caller passed in) does not hold of the code. On the
  example input the call returns normally with status CORRECTED; the caller's manifest
  dictionary (object 0) is unchanged, but the networking and security dictionaries and
  the service it refers to are the very objects the corrections wrote to:
  \<^verbatim>\<open>vpc_enabled\<close> was false and is true, the security dictionary was empty and is
  not, and the database moved from us-south to eu-gb. The working copy made by
  \<^verbatim>\<open>{**manifest_data, ...}\<close> and \<^verbatim>\<open>.copy()\<close> is shallow.
\<close>

theorem original_manifest_is_mutated:
  "\<exists>h1 r. guardrail_body example_env example_heap example_architect_result example_intent_result
             = Inr (h1, r) \<and>
          status r = CORRECTED \<and>
          map_of example_architect_result ''manifest'' = Some (VRef 0) \<and>
          deref example_heap 0 = deref h1 0 \<and>
          py_get example_heap (Some (VRef 0)) ''networking'' VNone = Inr (VRef 1) \<and>
          deref example_heap 1 = Some (ODict [(''vpc_enabled'', VBool False)]) \<and>
          deref h1 1 = Some (ODict [(''vpc_enabled'', VBool True), (''subnet_isolation'', VBool True),
                                     (''private_endpoints'', VBool True)]) \<and>
          deref example_heap 2 = Some (ODict []) \<and>
          deref h1 2 \<noteq> Some (ODict []) \<and>
          py_get example_heap (Some (VRef 4)) ''region'' VNone = Inr (VStr ''us-south'') \<and>
          py_get h1 (Some (VRef 4)) ''region'' VNone = Inr (VStr ''eu-gb'')"
proof -
  have e: "case guardrail_body example_env example_heap example_architect_result example_intent_result of
             Inl e \<Rightarrow> False
           | Inr (h1, r) \<Rightarrow>
               status r = CORRECTED \<and>
               deref example_heap 0 = deref h1 0 \<and>
               deref h1 1 = Some (ODict [(''vpc_enabled'', VBool True), (''subnet_isolation'', VBool True),
                                     (''private_endpoints'', VBool True)]) \<and>
               deref h1 2 \<noteq> Some (ODict []) \<and>
               py_get h1 (Some (VRef 4)) ''region'' VNone = Inr (VStr ''eu-gb'')"
    by code_simp
  have s: "map_of example_architect_result ''manifest'' = Some (VRef 0) \<and>
          py_get example_heap (Some (VRef 0)) ''networking'' VNone = Inr (VRef 1) \<and>
          deref example_heap 1 = Some (ODict [(''vpc_enabled'', VBool False)]) \<and>
          deref example_heap 2 = Some (ODict []) \<and>
          py_get example_heap (Some (VRef 4)) ''region'' VNone = Inr (VStr ''us-south'')"
    by code_simp
  show ?thesis using e s by (auto split: sum.splits)
qed

end
